theory Spec2Isabelle
  imports Complex_Main "HOL-Library.Product_Lexorder"
begin

section \<open>Floating-point values of the scoring engine\<close>

text \<open>
  The script \<^verbatim>\<open>scripts/update_macro.py\<close> computes with IEEE doubles (Python
  \<^verbatim>\<open>float\<close>, numpy \<^verbatim>\<open>float64\<close>). A double is modelled as an exact real
  number or one of the three special values: the not-a-number sentinel and the
  infinities are modelled, overflow and the sign of zero are not. The operations of the
  script itself are exact; the rounding of a double is modelled where it decides which
  way the script goes, in the mean and the standard deviation that \<^verbatim>\<open>zscore\<close>
  takes from the library (see \<open>numpy_double\<close> below).
\<close>

datatype pyfloat = Fin real | PInf | NInf | NaN

fun isnan :: "pyfloat \<Rightarrow> bool" where
  "isnan NaN = True"
| "isnan _ = False"

fun fneg :: "pyfloat \<Rightarrow> pyfloat" where
  "fneg (Fin a) = Fin (- a)"
| "fneg PInf = NInf"
| "fneg NInf = PInf"
| "fneg NaN = NaN"

fun fadd :: "pyfloat \<Rightarrow> pyfloat \<Rightarrow> pyfloat" where
  "fadd NaN _ = NaN"
| "fadd _ NaN = NaN"
| "fadd (Fin a) (Fin b) = Fin (a + b)"
| "fadd PInf NInf = NaN"
| "fadd NInf PInf = NaN"
| "fadd PInf _ = PInf"
| "fadd _ PInf = PInf"
| "fadd NInf _ = NInf"
| "fadd _ NInf = NInf"

definition fsub :: "pyfloat \<Rightarrow> pyfloat \<Rightarrow> pyfloat" where
  "fsub a b = fadd a (fneg b)"

text \<open>The sign of an infinity scaled by a finite factor; zero times infinity is NaN.\<close>

definition scale_inf :: "pyfloat \<Rightarrow> real \<Rightarrow> pyfloat" where
  "scale_inf i a = (if a = 0 then NaN else if 0 < a then i else fneg i)"

fun fmul :: "pyfloat \<Rightarrow> pyfloat \<Rightarrow> pyfloat" where
  "fmul NaN _ = NaN"
| "fmul _ NaN = NaN"
| "fmul (Fin a) (Fin b) = Fin (a * b)"
| "fmul (Fin a) PInf = scale_inf PInf a"
| "fmul (Fin a) NInf = scale_inf NInf a"
| "fmul PInf (Fin b) = scale_inf PInf b"
| "fmul NInf (Fin b) = scale_inf NInf b"
| "fmul PInf PInf = PInf"
| "fmul NInf NInf = PInf"
| "fmul PInf NInf = NInf"
| "fmul NInf PInf = NInf"

text \<open>
  Division as numpy does it on \<^verbatim>\<open>float64\<close>: a finite non-zero value over zero is an
  infinity, zero over zero is NaN, nothing raises.
\<close>

fun fdiv :: "pyfloat \<Rightarrow> pyfloat \<Rightarrow> pyfloat" where
  "fdiv NaN _ = NaN"
| "fdiv _ NaN = NaN"
| "fdiv (Fin a) (Fin b) =
     (if b = 0 then (if a = 0 then NaN else if 0 < a then PInf else NInf) else Fin (a / b))"
| "fdiv (Fin a) PInf = Fin 0"
| "fdiv (Fin a) NInf = Fin 0"
| "fdiv PInf (Fin b) = (if 0 \<le> b then PInf else NInf)"
| "fdiv NInf (Fin b) = (if 0 \<le> b then NInf else PInf)"
| "fdiv PInf PInf = NaN"
| "fdiv PInf NInf = NaN"
| "fdiv NInf PInf = NaN"
| "fdiv NInf NInf = NaN"

text \<open>Comparisons: every comparison with NaN is false.\<close>

fun flt :: "pyfloat \<Rightarrow> pyfloat \<Rightarrow> bool" where
  "flt NaN _ = False"
| "flt _ NaN = False"
| "flt (Fin a) (Fin b) = (a < b)"
| "flt _ NInf = False"
| "flt PInf _ = False"
| "flt NInf _ = True"
| "flt _ PInf = True"

fun fle :: "pyfloat \<Rightarrow> pyfloat \<Rightarrow> bool" where
  "fle NaN _ = False"
| "fle _ NaN = False"
| "fle (Fin a) (Fin b) = (a \<le> b)"
| "fle NInf _ = True"
| "fle _ PInf = True"
| "fle _ NInf = False"
| "fle PInf _ = False"

definition fgt :: "pyfloat \<Rightarrow> pyfloat \<Rightarrow> bool" where
  "fgt a b = flt b a"

definition fge :: "pyfloat \<Rightarrow> pyfloat \<Rightarrow> bool" where
  "fge a b = fle b a"

fun fsqrt :: "pyfloat \<Rightarrow> pyfloat" where
  "fsqrt (Fin a) = (if a < 0 then NaN else Fin (sqrt a))"
| "fsqrt PInf = PInf"
| "fsqrt NInf = NaN"
| "fsqrt NaN = NaN"

fun fexp :: "pyfloat \<Rightarrow> pyfloat" where
  "fexp (Fin a) = Fin (exp a)"
| "fexp PInf = PInf"
| "fexp NInf = Fin 0"
| "fexp NaN = NaN"

text \<open>Summation from the left, starting at zero, as \<^verbatim>\<open>sum\<close> does.\<close>

definition fsum :: "pyfloat list \<Rightarrow> pyfloat" where
  "fsum xs = foldl fadd (Fin 0) xs"

text \<open>
  Python's \<^verbatim>\<open>min(a, b)\<close> and \<^verbatim>\<open>max(a, b)\<close> keep the first argument unless the
  second is strictly smaller (larger).
\<close>

definition pymin :: "pyfloat \<Rightarrow> pyfloat \<Rightarrow> pyfloat" where
  "pymin a b = (if flt b a then b else a)"

definition pymax :: "pyfloat \<Rightarrow> pyfloat \<Rightarrow> pyfloat" where
  "pymax a b = (if fgt b a then b else a)"

section \<open>Helpers of the scoring engine\<close>

text \<open>
  \<^verbatim>\<open>
  def clamp(x, lo, hi):
      if np.isnan(x):
          return 0.0
      return float(max(lo, min(hi, x)))
  \<close>
\<close>

definition clamp :: "pyfloat \<Rightarrow> pyfloat \<Rightarrow> pyfloat \<Rightarrow> pyfloat" where
  "clamp x lo hi = (if isnan x then Fin 0 else pymax lo (pymin hi x))"

text \<open>
  \<^verbatim>\<open>
  def regime_from_score(score):
      if score >= 0.5: return "bull"
      if score <= -0.5: return "bear"
      return "neutral"
  \<close>
\<close>

definition regime_from_score :: "pyfloat \<Rightarrow> string" where
  "regime_from_score score =
     (if fge score (Fin (1 / 2)) then ''bull''
      else if fle score (Fin (- (1 / 2))) then ''bear''
      else ''neutral'')"

text \<open>
  \<^verbatim>\<open>
  def exp_decay_curve(score_now, months=12, k=0.22):
      vals = []
      for m in range(months):
          val = (score_now) * float(np.exp(-k * m))
          vals.append(float(val))
      return vals
  \<close>
  \<^verbatim>\<open>range(months)\<close> is empty for a negative \<^verbatim>\<open>months\<close>.
\<close>

definition exp_decay_curve :: "pyfloat \<Rightarrow> int \<Rightarrow> pyfloat \<Rightarrow> pyfloat list" where
  "exp_decay_curve score_now months k =
     map (\<lambda>m. fmul score_now (fexp (fmul (fneg k) (Fin (real m))))) [0 ..< nat months]"

section \<open>Dates and frames\<close>

text \<open>
  A calendar date, and a frame of \<^verbatim>\<open>(date, value)\<close> rows in row order: the frames
  that \<^verbatim>\<open>fred_observations\<close> returns (dates parsed, unparseable dates dropped, a
  non-numeric value coerced to NaN). A monthly frame has the first day of a month in
  its date column.
\<close>

datatype date = Date (year: int) (mon: nat) (dom: nat)

type_synonym frame = "(date \<times> pyfloat) list"

definition date_key :: "date \<Rightarrow> int \<times> nat \<times> nat" where
  "date_key d = (year d, mon d, dom d)"

definition month_index :: "date \<Rightarrow> int" where
  "month_index d = 12 * year d + int (mon d) - 1"

definition month_start :: "int \<Rightarrow> date" where
  "month_start i = Date (i div 12) (nat (i mod 12) + 1) 1"

text \<open>The dates of the calendar have a month from 1 to 12.\<close>

definition valid_date :: "date \<Rightarrow> bool" where
  "valid_date d = (1 \<le> mon d \<and> mon d \<le> 12)"

section \<open>Trailing-window z-score\<close>

text \<open>A series is the list of its values in index order; \<^verbatim>\<open>dropna\<close> removes NaN.\<close>

definition dropna :: "pyfloat list \<Rightarrow> pyfloat list" where
  "dropna xs = filter (\<lambda>v. \<not> isnan v) xs"

text \<open>
  The slice \<^verbatim>\<open>s.iloc[start:]\<close>: a negative start counts from the end, and both ends
  are cut to the length of the series.
\<close>

definition iloc_from :: "'a list \<Rightarrow> int \<Rightarrow> 'a list" where
  "iloc_from xs start =
     (let n = int (length xs);
          i = (if start < 0 then max 0 (n + start) else min n start)
      in drop (nat i) xs)"

text \<open>
  In exact arithmetic \<^verbatim>\<open>Series.mean()\<close> is sum over count, and
  \<^verbatim>\<open>Series.std(ddof=0)\<close> the square root of the sum of squared deviations from that
  mean over count; both are NaN on an empty series (zero over zero).
\<close>

definition mean :: "pyfloat list \<Rightarrow> pyfloat" where
  "mean xs = fdiv (fsum xs) (Fin (real (length xs)))"

definition std0 :: "pyfloat list \<Rightarrow> pyfloat" where
  "std0 xs =
     (let avg = mean xs
      in fsqrt (fdiv (fsum (map (\<lambda>v. fmul (fsub avg v) (fsub avg v)) xs))
                     (Fin (real (length xs)))))"

text \<open>
  What the program takes from pandas and numpy, and what the repository does not fix:
  \<^item> \<open>pct_pad\<close>: whether \<^verbatim>\<open>Series.pct_change\<close> first fills every missing value with
    the last value before it that is not missing (the default of pandas releases before
    3.0) or leaves it missing (later releases);
  \<^item> \<open>sort_values\<close>: \<^verbatim>\<open>DataFrame.sort_values("month")\<close>, the rows in ascending
    month order; the order in which it leaves rows of equal month is that of pandas'
    quicksort and is not fixed here;
  \<^item> \<open>series_mean\<close> and \<open>series_std\<close>: \<^verbatim>\<open>Series.mean()\<close> and
    \<^verbatim>\<open>Series.std(ddof=0)\<close> as they are computed on doubles. Their rounding decides
    the test \<^verbatim>\<open>sd == 0\<close> of \<^verbatim>\<open>zscore\<close>, so the model does not replace them by the
    exact statistics.
\<close>

record pandas =
  pct_pad :: bool
  sort_values :: "frame \<Rightarrow> frame"
  series_mean :: "pyfloat list \<Rightarrow> pyfloat"
  series_std :: "pyfloat list \<Rightarrow> pyfloat"

text \<open>
  \<^verbatim>\<open>
  def zscore(series, window=120):
      s = series.dropna()
      if len(s) < max(24, window // 4):
          return float("nan")
      tail = s.iloc[-window:] if len(s) >= window else s
      mu = tail.mean()
      sd = tail.std(ddof=0)
      if sd == 0 or np.isnan(sd):
          return float("nan")
      return float((s.iloc[-1] - mu) / sd)
  \<close>
  \<^verbatim>\<open>s.iloc[-1]\<close> is the last element of \<open>s\<close>, which is not empty past the length
  check.
\<close>

definition zscore :: "pandas \<Rightarrow> pyfloat list \<Rightarrow> int \<Rightarrow> pyfloat" where
  "zscore lb series window =
     (let s = dropna series
      in if int (length s) < max 24 (window div 4) then NaN
         else
           let tail = (if int (length s) \<ge> window then iloc_from s (- window) else s);
               mu = series_mean lb tail;
               sd = series_std lb tail
           in if sd = Fin 0 \<or> isnan sd then NaN
              else fdiv (fsub (last s) mu) sd)"

text \<open>
  The statistics in the words of the specification, over real numbers: the population
  mean and the population standard deviation (divisor N) of a list, and the trailing
  \<open>w\<close> observations of a list (all of it when it has fewer).
\<close>

definition pop_mean :: "real list \<Rightarrow> real" where
  "pop_mean xs = sum_list xs / real (length xs)"

definition pop_std :: "real list \<Rightarrow> real" where
  "pop_std xs = sqrt (sum_list (map (\<lambda>x. (x - pop_mean xs)\<^sup>2) xs) / real (length xs))"

definition trailing :: "nat \<Rightarrow> 'a list \<Rightarrow> 'a list" where
  "trailing w xs = drop (length xs - w) xs"

section \<open>Monthly resampling and year-over-year change\<close>

text \<open>
  \<^verbatim>\<open>s.resample("MS")\<close> orders the rows by date (a stable sort) and cuts the span from
  the month of the first row to the month of the last row into calendar months, one bin
  for every month of the span whether or not a row falls into it. \<^verbatim>\<open>.last()\<close> is the
  last value of a bin that is not NaN and \<^verbatim>\<open>.mean()\<close> the mean of the values that are
  not NaN; both are NaN for a bin without such a value.
\<close>

definition bucket :: "frame \<Rightarrow> int \<Rightarrow> pyfloat list" where
  "bucket s i = dropna (map snd (filter (\<lambda>r. month_index (fst r) = i) s))"

definition agg_last :: "pyfloat list \<Rightarrow> pyfloat" where
  "agg_last b = (if b = [] then NaN else last b)"

definition agg_mean :: "pyfloat list \<Rightarrow> pyfloat" where
  "agg_mean b = mean b"

definition resample_MS :: "(pyfloat list \<Rightarrow> pyfloat) \<Rightarrow> frame \<Rightarrow> frame" where
  "resample_MS agg df =
     (let s = sort_key (\<lambda>r. date_key (fst r)) df
      in map (\<lambda>i. (month_start i, agg (bucket s i)))
             [month_index (fst (hd s)) .. month_index (fst (last s))])"

text \<open>
  \<^verbatim>\<open>
  def to_monthly(df, how="last"):
      if df.empty:
          return df
      s = df.set_index("date")["value"]
      if how == "mean":
          m = s.resample("MS").mean()
      else:
          m = s.resample("MS").last()
      out = m.to_frame("value").reset_index()
      out.rename(columns={"date": "month"}, inplace=True)
      out["month"] = pd.to_datetime(out["month"])
      return out
  \<close>
\<close>

definition to_monthly :: "frame \<Rightarrow> string \<Rightarrow> frame" where
  "to_monthly df how =
     (if df = [] then df
      else if how = ''mean'' then resample_MS agg_mean df
      else resample_MS agg_last df)"

text \<open>
  \<^verbatim>\<open>Series.pct_change(n)\<close> divides every value by the value \<open>n\<close> rows before it and
  subtracts one; the first \<open>n\<close> rows have no such value and are NaN. pandas releases
  before 3.0 first fill every NaN with the last value before it that is not NaN
  (\<^verbatim>\<open>fill_method="pad"\<close>, their default), later releases do not: the parameter
  \<open>pad\<close>.
\<close>

fun ffill_from :: "pyfloat \<Rightarrow> pyfloat list \<Rightarrow> pyfloat list" where
  "ffill_from prev [] = []"
| "ffill_from prev (v # vs) =
     (let v' = (if isnan v then prev else v) in v' # ffill_from v' vs)"

definition ffill :: "pyfloat list \<Rightarrow> pyfloat list" where
  "ffill vs = ffill_from NaN vs"

definition shift :: "nat \<Rightarrow> pyfloat list \<Rightarrow> pyfloat list" where
  "shift n vs = take (length vs) (replicate n NaN @ vs)"

definition pct_change :: "bool \<Rightarrow> nat \<Rightarrow> pyfloat list \<Rightarrow> pyfloat list" where
  "pct_change pad n vs =
     (let data = (if pad then ffill vs else vs)
      in map (\<lambda>(a, b). fsub (fdiv a b) (Fin 1)) (zip data (shift n data)))"

text \<open>
  \<^verbatim>\<open>
  def yoy_from_level(monthly_df):
      x = monthly_df.copy()
      x = x.sort_values("month")
      x["yoy"] = x["value"].pct_change(12) * 100.0
      return x.dropna(subset=["yoy"])[["month", "yoy"]]
  \<close>
  The frame has the columns \<^verbatim>\<open>month\<close> and \<^verbatim>\<open>value\<close>.
\<close>

definition yoy_from_level :: "pandas \<Rightarrow> frame \<Rightarrow> frame" where
  "yoy_from_level lb monthly_df =
     (let x = sort_values lb monthly_df;
          yoy = map (\<lambda>p. fmul p (Fin 100)) (pct_change (pct_pad lb) 12 (map snd x))
      in filter (\<lambda>r. \<not> isnan (snd r)) (zip (map fst x) yoy))"

section \<open>Instances of the library\<close>

text \<open>
  What every release of pandas returns from \<^verbatim>\<open>sort_values("month")\<close> on a frame:
  the rows of the frame, as many as the frame has, in ascending order of month.
\<close>

definition month_sorted :: "frame \<Rightarrow> frame \<Rightarrow> bool" where
  "month_sorted df x =
     (set x = set df \<and> length x = length df \<and> sorted (map (\<lambda>r. date_key (fst r)) x))"

text \<open>pandas in exact arithmetic, with a stable sort.\<close>

definition exact_pandas :: "bool \<Rightarrow> pandas" where
  "exact_pandas pad =
     \<lparr>pct_pad = pad, sort_values = sort_key (\<lambda>r. date_key (fst r)),
      series_mean = mean, series_std = std0\<rparr>"

text \<open>
  pandas on IEEE doubles. \<open>rn\<close> rounds a real number to the nearest double, a tie to
  the one with the even significand (53 bits; overflow and subnormal numbers are not
  modelled), and every operation on doubles is the exact one followed by \<open>rn\<close>.
\<close>

definition rhe :: "real \<Rightarrow> int" where
  "rhe x =
     (let f = \<lfloor>x\<rfloor>; r = x - of_int f
      in if r < 1 / 2 then f else if 1 / 2 < r then f + 1
         else if even f then f else f + 1)"

definition rn :: "real \<Rightarrow> real" where
  "rn x =
     (if x = 0 then 0
      else (let e = \<lfloor>log 2 \<bar>x\<bar>\<rfloor> - 52
            in of_int (rhe (x / 2 powr of_int e)) * 2 powr of_int e))"

fun frn :: "pyfloat \<Rightarrow> pyfloat" where
  "frn (Fin a) = Fin (rn a)"
| "frn PInf = PInf"
| "frn NInf = NInf"
| "frn NaN = NaN"

definition dadd :: "pyfloat \<Rightarrow> pyfloat \<Rightarrow> pyfloat" where
  "dadd a b = frn (fadd a b)"

definition dsub :: "pyfloat \<Rightarrow> pyfloat \<Rightarrow> pyfloat" where
  "dsub a b = frn (fsub a b)"

definition dmul :: "pyfloat \<Rightarrow> pyfloat \<Rightarrow> pyfloat" where
  "dmul a b = frn (fmul a b)"

definition ddiv :: "pyfloat \<Rightarrow> pyfloat \<Rightarrow> pyfloat" where
  "ddiv a b = frn (fdiv a b)"

definition dsqrt :: "pyfloat \<Rightarrow> pyfloat" where
  "dsqrt a = frn (fsqrt a)"

text \<open>
  numpy's sum of a contiguous array of doubles (\<^verbatim>\<open>pairwise_sum\<close>): fewer than 8
  values are added from the left; up to 128 values are added into 8 running sums, one
  for each position modulo 8, which are then added pairwise, and the values left over
  are added from the left; more than 128 values are cut in two near the middle, at a
  multiple of 8.
\<close>

function acc8 :: "pyfloat list \<Rightarrow> pyfloat list \<Rightarrow> pyfloat list" where
  "acc8 r xs =
     (if length xs < 8 then r
      else acc8 (map (\<lambda>(a, b). dadd a b) (zip r (take 8 xs))) (drop 8 xs))"
  by pat_completeness auto
termination
  by (relation "measure (\<lambda>(r, xs). length xs)") auto

definition tree8 :: "pyfloat list \<Rightarrow> pyfloat" where
  "tree8 r =
     dadd (dadd (dadd (r ! 0) (r ! 1)) (dadd (r ! 2) (r ! 3)))
          (dadd (dadd (r ! 4) (r ! 5)) (dadd (r ! 6) (r ! 7)))"

definition block_sum :: "pyfloat list \<Rightarrow> pyfloat" where
  "block_sum a =
     (let n = length a; m = n - n mod 8
      in foldl dadd (tree8 (acc8 (take 8 a) (take (m - 8) (drop 8 a)))) (drop m a))"

function pairwise_sum :: "pyfloat list \<Rightarrow> pyfloat" where
  "pairwise_sum a =
     (if length a < 8 then foldl dadd (Fin 0) a
      else if length a \<le> 128 then block_sum a
      else dadd (pairwise_sum (take (length a div 2 - length a div 2 mod 8) a))
                (pairwise_sum (drop (length a div 2 - length a div 2 mod 8) a)))"
  by pat_completeness auto
termination
  by (relation "measure length") auto

text \<open>
  \<^verbatim>\<open>Series.mean()\<close> is that sum over the count. \<^verbatim>\<open>Series.std(ddof=0)\<close> is the
  square root of: the sum of \<^verbatim>\<open>(avg - values) ** 2\<close> over the count, \<open>avg\<close> being the
  sum of the values over the count.
\<close>

definition double_mean :: "pyfloat list \<Rightarrow> pyfloat" where
  "double_mean a = ddiv (pairwise_sum a) (Fin (real (length a)))"

definition double_std :: "pyfloat list \<Rightarrow> pyfloat" where
  "double_std a =
     (let avg = ddiv (pairwise_sum a) (Fin (real (length a)));
          sqr = map (\<lambda>v. dmul (dsub avg v) (dsub avg v)) a
      in dsqrt (ddiv (pairwise_sum sqr) (Fin (real (length a)))))"

definition numpy_double :: "bool \<Rightarrow> pandas" where
  "numpy_double pad =
     \<lparr>pct_pad = pad, sort_values = sort_key (\<lambda>r. date_key (fst r)),
      series_mean = double_mean, series_std = double_std\<rparr>"

section \<open>Composite score and drivers\<close>

text \<open>
  An exception: its class and its message (\<^verbatim>\<open>str(e)\<close>). \<^verbatim>\<open>str\<close> of a KeyError
  is the \<^verbatim>\<open>repr\<close> of its key: the key in single quotes, or in double quotes when it
  holds a single quote and no double quote.
\<close>

datatype exn = Exn string string

fun str_of :: "exn \<Rightarrow> string" where
  "str_of (Exn c m) = m"

definition quote :: "string \<Rightarrow> string" where
  "quote s = CHR 0x27 # s @ [CHR 0x27]"

definition py_repr :: "string \<Rightarrow> string" where
  "py_repr s =
     (if CHR 0x27 \<in> set s \<and> CHR 0x22 \<notin> set s then CHR 0x22 # s @ [CHR 0x22]
      else quote s)"

definition KeyError :: "string \<Rightarrow> exn" where
  "KeyError k = Exn ''KeyError'' (py_repr k)"

record driver_spec =
  spec_key :: string
  spec_name :: string
  direction :: int
  spec_weight :: real

definition driver_specs :: "driver_spec list" where
  "driver_specs =
     [\<lparr>spec_key = ''CPI_YOY'', spec_name = ''Inflation (CPI YoY)'',
        direction = - 1, spec_weight = 30 / 100\<rparr>,
      \<lparr>spec_key = ''UNRATE'', spec_name = ''Unemployment rate'',
        direction = - 1, spec_weight = 25 / 100\<rparr>,
      \<lparr>spec_key = ''FEDFUNDS'', spec_name = ''Fed Funds'',
        direction = - 1, spec_weight = 20 / 100\<rparr>,
      \<lparr>spec_key = ''T10Y2Y'', spec_name = ''Yield curve (10Y-2Y)'',
        direction = 1, spec_weight = 15 / 100\<rparr>,
      \<lparr>spec_key = ''BAMLH0A0HYM2'', spec_name = ''Credit stress (HY OAS)'',
        direction = - 1, spec_weight = 10 / 100\<rparr>]"

record driver =
  key :: string
  name :: string
  z_raw :: "pyfloat option"
  z_adj :: pyfloat
  weight :: real
  contribution :: pyfloat
  latest_value :: "pyfloat option"
  latest_month :: "date option"

record extras =
  sp500_latest :: "pyfloat option"
  sp500_month :: "date option"
  delta_proxy :: "(string \<times> pyfloat) list"

text \<open>The rows of a series whose value is not NaN (\<^verbatim>\<open>s.dropna()\<close> with its index).\<close>

definition dropna_rows :: "frame \<Rightarrow> frame" where
  "dropna_rows s = filter (\<lambda>r. \<not> isnan (snd r)) s"

text \<open>
  One pass of the loop over \<^verbatim>\<open>driver_specs\<close> (source lines 169 to 186):
  \<^verbatim>\<open>
  s = monthly.get(key)
  z = zscore(s, window=120)
  z_adj = d["direction"] * z
  z_adj = clamp(z_adj, -3, 3)
  contrib = d["weight"] * z_adj
  drivers.append({...}); contribs.append(contrib)
  \<close>
  \<^verbatim>\<open>zscore\<close> of a key that \<^verbatim>\<open>monthly\<close> lacks calls \<^verbatim>\<open>dropna\<close> on \<^verbatim>\<open>None\<close> and
  raises.
\<close>

definition make_driver :: "pandas \<Rightarrow> driver_spec \<Rightarrow> frame \<Rightarrow> driver \<times> pyfloat" where
  "make_driver lb d s =
     (let z = zscore lb (map snd s) 120;
          z_adj0 = fmul (Fin (of_int (direction d))) z;
          z_adj1 = clamp z_adj0 (Fin (- 3)) (Fin 3);
          contrib = fmul (Fin (spec_weight d)) z_adj1;
          nn = dropna_rows s
      in (\<lparr>key = spec_key d, name = spec_name d,
            z_raw = (if isnan z then None else Some z),
            z_adj = z_adj1,
            weight = spec_weight d,
            contribution = contrib,
            latest_value = (if nn = [] then None else Some (snd (last nn))),
            latest_month = (if nn = [] then None else Some (fst (last nn)))\<rparr>,
          contrib))"

fun driver_loop ::
  "pandas \<Rightarrow> (string \<rightharpoonup> frame) \<Rightarrow> driver_spec list \<Rightarrow> driver list \<times> pyfloat list
     \<Rightarrow> exn + (driver list \<times> pyfloat list)" where
  "driver_loop lb monthly [] acc = Inr acc"
| "driver_loop lb monthly (d # ds) (drivers, contribs) =
     (case monthly (spec_key d) of
        None \<Rightarrow>
          Inl (Exn ''AttributeError''
                 (quote ''NoneType'' @ '' object has no attribute '' @ quote ''dropna''))
      | Some s \<Rightarrow>
          (case make_driver lb d s of
             (drv, contrib) \<Rightarrow>
               driver_loop lb monthly ds (drivers @ [drv], contribs @ [contrib])))"

text \<open>\<^verbatim>\<open>np.nansum\<close>: the sum with every NaN taken as zero.\<close>

definition nansum :: "pyfloat list \<Rightarrow> pyfloat" where
  "nansum xs = fsum (map (\<lambda>c. if isnan c then Fin 0 else c) xs)"

text \<open>
  The score and the drivers from the monthly series (source lines 159 to 209): the loop,
  then \<^verbatim>\<open>score_now = clamp(float(np.nansum(contribs)), -2, 2)\<close>, then the month-on-month
  change of every driver's series and the latest benchmark value.
\<close>

definition delta_of :: "(string \<rightharpoonup> frame) \<Rightarrow> string \<Rightarrow> pyfloat" where
  "delta_of monthly k =
     (case monthly k of
        None \<Rightarrow> Fin 0
      | Some s \<Rightarrow>
          (let nn = map snd (dropna_rows s)
           in if length nn < 2 then Fin 0
              else fsub (last nn) (last (butlast nn))))"

definition score_and_drivers ::
  "pandas \<Rightarrow> (string \<rightharpoonup> frame) \<Rightarrow> exn + (pyfloat \<times> driver list \<times> extras)" where
  "score_and_drivers lb monthly =
     (case driver_loop lb monthly driver_specs ([], []) of
        Inl e \<Rightarrow> Inl e
      | Inr (drivers, contribs) \<Rightarrow>
          (let score_now = clamp (nansum contribs) (Fin (- 2)) (Fin 2);
               dp = map (\<lambda>d. (key d, delta_of monthly (key d))) drivers
           in case monthly ''SP500'' of
                None \<Rightarrow> Inl (KeyError ''SP500'')
              | Some sp \<Rightarrow>
                  (let nn = dropna_rows sp
                   in Inr (score_now, drivers,
                        \<lparr>sp500_latest = (if nn = [] then None else Some (snd (last nn))),
                         sp500_month = (if nn = [] then None else Some (fst (last nn))),
                         delta_proxy = dp\<rparr>))))"

section \<open>The run\<close>

text \<open>
  What a run meets outside the program: the outcome of \<^verbatim>\<open>fred_observations\<close> for
  every series id (the cleaned frame, or the exception of the request), the pandas
  library in use, the exception (if any) that the store raises at its n-th call
  of the run, and the clock: reading 0 is \<^verbatim>\<open>started\<close>, reading \<open>i\<close> the
  \<^verbatim>\<open>updated_at\<close> of the row of month \<open>i\<close>.
\<close>

record world =
  fred_observations :: "string \<Rightarrow> exn + frame"
  lib :: pandas
  store_raises :: "nat \<Rightarrow> exn option"
  utcnow :: "nat \<Rightarrow> string"

definition SERIES_keys :: "string list" where
  "SERIES_keys = [''CPIAUCSL'', ''UNRATE'', ''FEDFUNDS'', ''T10Y2Y'', ''BAMLH0A0HYM2'', ''SP500'']"

definition TARGET_YEAR :: int where
  "TARGET_YEAR = 2026"

text \<open>\<^verbatim>\<open>for sid in SERIES.keys(): raw[sid] = fred_observations(sid)\<close>\<close>

fun fetch_all ::
  "(string \<Rightarrow> exn + frame) \<Rightarrow> string list \<Rightarrow> (string \<rightharpoonup> frame) \<Rightarrow> exn + (string \<rightharpoonup> frame)" where
  "fetch_all fetch [] raw = Inr raw"
| "fetch_all fetch (sid # sids) raw =
     (case fetch sid of
        Inl e \<Rightarrow> Inl e
      | Inr df \<Rightarrow> fetch_all fetch sids (raw(sid \<mapsto> df)))"

text \<open>
  The monthly transforms (source lines 142 to 156). \<^verbatim>\<open>to_monthly\<close> hands an empty
  frame back as it is, without a \<^verbatim>\<open>month\<close> column; on it
  \<^verbatim>\<open>sort_values("month")\<close> raises \<^verbatim>\<open>KeyError('month')\<close> and
  \<^verbatim>\<open>set_index("month")\<close> raises
  \<^verbatim>\<open>KeyError("None of ['month'] are in the columns")\<close>. A frame that
  \<^verbatim>\<open>to_monthly\<close> built is not empty.
\<close>

definition no_month_column :: string where
  "no_month_column = ''None of ['' @ quote ''month'' @ ''] are in the columns''"

text \<open>\<^verbatim>\<open>m = to_monthly(raw[sid], how="last"); monthly[sid] = m.set_index("month")["value"]\<close>\<close>

definition monthly_of :: "(string \<rightharpoonup> frame) \<Rightarrow> string \<Rightarrow> exn + frame" where
  "monthly_of raw sid =
     (case raw sid of
        None \<Rightarrow> Inl (KeyError sid)
      | Some df \<Rightarrow>
          (let m = to_monthly df ''last''
           in if m = [] then Inl (KeyError no_month_column) else Inr m))"

text \<open>
  \<^verbatim>\<open>cpi_m = to_monthly(raw["CPIAUCSL"], how="last"); cpi_yoy = yoy_from_level(cpi_m);
  monthly["CPI_YOY"] = cpi_yoy.set_index("month")["yoy"]\<close>
\<close>

definition cpi_yoy_of :: "pandas \<Rightarrow> (string \<rightharpoonup> frame) \<Rightarrow> exn + frame" where
  "cpi_yoy_of lb raw =
     (case raw ''CPIAUCSL'' of
        None \<Rightarrow> Inl (KeyError ''CPIAUCSL'')
      | Some df \<Rightarrow>
          (let cpi_m = to_monthly df ''last''
           in if cpi_m = [] then Inl (KeyError ''month'') else Inr (yoy_from_level lb cpi_m)))"

fun monthly_loop ::
  "(string \<rightharpoonup> frame) \<Rightarrow> string list \<Rightarrow> (string \<rightharpoonup> frame) \<Rightarrow> exn + (string \<rightharpoonup> frame)" where
  "monthly_loop raw [] monthly = Inr monthly"
| "monthly_loop raw (sid # sids) monthly =
     (case monthly_of raw sid of
        Inl e \<Rightarrow> Inl e
      | Inr m \<Rightarrow> monthly_loop raw sids (monthly(sid \<mapsto> m)))"

definition build_monthly :: "pandas \<Rightarrow> (string \<rightharpoonup> frame) \<Rightarrow> exn + (string \<rightharpoonup> frame)" where
  "build_monthly lb raw =
     (case cpi_yoy_of lb raw of
        Inl e \<Rightarrow> Inl e
      | Inr cpi_yoy \<Rightarrow>
          (case monthly_loop raw [''UNRATE'', ''FEDFUNDS'']
                  (Map.empty(''CPI_YOY'' \<mapsto> cpi_yoy)) of
             Inl e \<Rightarrow> Inl e
           | Inr monthly \<Rightarrow> monthly_loop raw [''T10Y2Y'', ''BAMLH0A0HYM2'', ''SP500''] monthly))"

definition compute_macro_score_and_drivers ::
  "world \<Rightarrow> exn + (pyfloat \<times> driver list \<times> extras)" where
  "compute_macro_score_and_drivers w =
     (case fetch_all (fred_observations w) SERIES_keys Map.empty of
        Inl e \<Rightarrow> Inl e
      | Inr raw \<Rightarrow>
          (case build_monthly (lib w) raw of
             Inl e \<Rightarrow> Inl e
           | Inr monthly \<Rightarrow> score_and_drivers (lib w) monthly))"

text \<open>
  The store: the table of projected months keyed by \<^verbatim>\<open>(anio, mes)\<close>, the run log, and
  the number of calls made to the store in this run. A call that raises leaves the
  tables as they were.
\<close>

record month_row =
  anio :: int
  mes :: nat
  score :: pyfloat
  regime :: string
  drivers :: "driver list"
  updated_at :: string

record driver_ref =
  ref_key :: string
  ref_name :: string
  ref_contribution :: pyfloat

record summary =
  score_now :: pyfloat
  best_driver :: driver_ref
  worst_driver :: driver_ref
  sum_sp500_latest :: "pyfloat option"
  sum_sp500_month :: "date option"
  generated_at_utc :: string

text \<open>A run-log entry; the empty summary \<^verbatim>\<open>{}\<close> of an error entry is \<open>None\<close>.\<close>

record log_entry =
  status :: string
  log_summary :: "summary option"
  error :: "string option"

record store =
  macro_regime_monthly_us :: "(int \<times> nat) \<rightharpoonup> month_row"
  macro_regime_run_log :: "log_entry list"
  calls :: nat

definition store_call :: "world \<Rightarrow> (store \<Rightarrow> store) \<Rightarrow> store \<Rightarrow> exn option \<times> store" where
  "store_call w f st =
     (case store_raises w (calls st) of
        Some e \<Rightarrow> (Some e, st\<lparr>calls := Suc (calls st)\<rparr>)
      | None \<Rightarrow> (None, (f st)\<lparr>calls := Suc (calls st)\<rparr>))"

definition upsert :: "month_row \<Rightarrow> store \<Rightarrow> store" where
  "upsert row st =
     st\<lparr>macro_regime_monthly_us := (macro_regime_monthly_us st)((anio row, mes row) \<mapsto> row)\<rparr>"

definition insert_log :: "log_entry \<Rightarrow> store \<Rightarrow> store" where
  "insert_log entry st = st\<lparr>macro_regime_run_log := macro_regime_run_log st @ [entry]\<rparr>"

text \<open>The table after the upsert of one row.\<close>

definition put_row :: "((int \<times> nat) \<rightharpoonup> month_row) \<Rightarrow> month_row \<Rightarrow> ((int \<times> nat) \<rightharpoonup> month_row)" where
  "put_row t r = t((anio r, mes r) \<mapsto> r)"

text \<open>
  \<^verbatim>\<open>
  for i, score in enumerate(curve, start=1):
      rows.append({"anio": TARGET_YEAR, "mes": i, "score": float(score),
                   "regime": regime_from_score(score), "drivers": drivers,
                   "updated_at": datetime.utcnow().isoformat()})
  \<close>
\<close>

definition build_rows :: "world \<Rightarrow> pyfloat list \<Rightarrow> driver list \<Rightarrow> month_row list" where
  "build_rows w curve ds =
     map (\<lambda>(i, sc). \<lparr>anio = TARGET_YEAR, mes = i, score = sc,
                      regime = regime_from_score sc, drivers = ds,
                      updated_at = utcnow w i\<rparr>)
         (enumerate 1 curve)"

text \<open>\<^verbatim>\<open>for row in rows: supabase.table(...).upsert(row, on_conflict="anio,mes").execute()\<close>\<close>

fun upsert_all :: "world \<Rightarrow> month_row list \<Rightarrow> store \<Rightarrow> exn option \<times> store" where
  "upsert_all w [] st = (None, st)"
| "upsert_all w (row # rows) st =
     (case store_call w (upsert row) st of
        (Some e, st') \<Rightarrow> (Some e, st')
      | (None, st') \<Rightarrow> upsert_all w rows st')"

text \<open>
  \<^verbatim>\<open>sorted(drivers, key=lambda x: x["contribution"])\<close>: a stable sort, every driver
  placed before the first one of a strictly larger contribution.
\<close>

fun insert_driver :: "driver \<Rightarrow> driver list \<Rightarrow> driver list" where
  "insert_driver d [] = [d]"
| "insert_driver d (x # xs) =
     (if flt (contribution d) (contribution x) then d # x # xs else x # insert_driver d xs)"

definition sorted_by_contribution :: "driver list \<Rightarrow> driver list" where
  "sorted_by_contribution ds = foldl (\<lambda>acc d. insert_driver d acc) [] ds"

definition ref_of :: "driver \<Rightarrow> driver_ref" where
  "ref_of d = \<lparr>ref_key = key d, ref_name = name d, ref_contribution = contribution d\<rparr>"

record run_output =
  ok :: bool
  out_score_now :: pyfloat
  generated_at :: string

text \<open>
  The body of the \<^verbatim>\<open>try\<close> block of \<^verbatim>\<open>main\<close> (source lines 216 to 257): the result
  is the exception that left the block, or the printed output, with the store as the
  block left it. \<^verbatim>\<open>sorted_drivers[0]\<close> raises IndexError on an empty list.
\<close>

definition try_block :: "world \<Rightarrow> store \<Rightarrow> (exn + run_output) \<times> store" where
  "try_block w st =
     (case compute_macro_score_and_drivers w of
        Inl e \<Rightarrow> (Inl e, st)
      | Inr (sc, ds, ex) \<Rightarrow>
          (let curve = exp_decay_curve sc 12 (Fin (22 / 100));
               rows = build_rows w curve ds
           in case upsert_all w rows st of
                (Some e, st1) \<Rightarrow> (Inl e, st1)
              | (None, st1) \<Rightarrow>
                  (let sorted_drivers = sorted_by_contribution ds
                   in if sorted_drivers = []
                      then (Inl (Exn ''IndexError'' ''list index out of range''), st1)
                      else
                        (let worst = hd sorted_drivers;
                             best = last sorted_drivers;
                             sm = \<lparr>score_now = sc,
                                   best_driver = ref_of best,
                                   worst_driver = ref_of worst,
                                   sum_sp500_latest = sp500_latest ex,
                                   sum_sp500_month = sp500_month ex,
                                   generated_at_utc = utcnow w 0 @ ''Z''\<rparr>
                         in case store_call w
                                   (insert_log \<lparr>status = ''success'', log_summary = Some sm,
                                                error = None\<rparr>) st1 of
                              (Some e, st2) \<Rightarrow> (Inl e, st2)
                            | (None, st2) \<Rightarrow>
                                (Inr \<lparr>ok = True, out_score_now = sc,
                                      generated_at = generated_at_utc sm\<rparr>, st2)))))"

text \<open>
  \<^verbatim>\<open>
  def main():
      started = datetime.utcnow()
      try:
          ...
      except Exception as e:
          supabase.table("macro_regime_run_log").insert({
              "status": "error", "summary": {}, "error": str(e)}).execute()
          raise
  \<close>
  An exception that the handler's own \<^verbatim>\<open>insert\<close> raises leaves \<^verbatim>\<open>main\<close> in place of
  the one being handled; the bare \<^verbatim>\<open>raise\<close> is reached only when the insert returned.
\<close>

definition main :: "world \<Rightarrow> store \<Rightarrow> (exn + run_output) \<times> store" where
  "main w st =
     (case try_block w st of
        (Inr out, st1) \<Rightarrow> (Inr out, st1)
      | (Inl e, st1) \<Rightarrow>
          (case store_call w
                  (insert_log \<lparr>status = ''error'', log_summary = None,
                               error = Some (str_of e)\<rparr>) st1 of
             (Some e', st2) \<Rightarrow> (Inl e', st2)
           | (None, st2) \<Rightarrow> (Inl e, st2)))"

declare acc8.simps [simp del]

declare pairwise_sum.simps [simp del]

section \<open>Regime labels\<close>

text \<open>
  C4. The regime label depends on the score alone, with inclusive boundaries: a score of
  at least 0.5 is "bull", a score of at most -0.5 is "bear", every other score (the
  undefined one included) is "neutral"; so 0.5 is "bull", -0.5 is "bear" and 0.0 is
  "neutral".
\<close>

theorem regime_from_score_thresholds:
  "regime_from_score (Fin s) =
     (if s \<ge> 1 / 2 then ''bull'' else if s \<le> - (1 / 2) then ''bear'' else ''neutral'')
   \<and> regime_from_score PInf = ''bull''
   \<and> regime_from_score NInf = ''bear''
   \<and> regime_from_score NaN = ''neutral''
   \<and> regime_from_score (Fin (1 / 2)) = ''bull''
   \<and> regime_from_score (Fin (- (1 / 2))) = ''bear''
   \<and> regime_from_score (Fin 0) = ''neutral''"
  by (simp add: regime_from_score_def fge_def)

section \<open>The z-score against population statistics\<close>

subsection \<open>Sums of finite values\<close>

lemma fsum_Fin_aux: "foldl fadd (Fin a) (map Fin xs) = Fin (a + sum_list xs)"
  by (induction xs arbitrary: a) (simp_all add: add.assoc)

lemma fsum_Fin: "fsum (map Fin xs) = Fin (sum_list xs)"
  by (simp add: fsum_def fsum_Fin_aux)

lemma mean_Fin: "xs \<noteq> [] \<Longrightarrow> mean (map Fin xs) = Fin (pop_mean xs)"
  by (simp add: mean_def fsum_Fin pop_mean_def)

lemma std0_Fin: "xs \<noteq> [] \<Longrightarrow> std0 (map Fin xs) = Fin (pop_std xs)"
proof -
  assume ne: "xs \<noteq> []"
  have dev: "map (\<lambda>v. fmul (fsub (Fin (pop_mean xs)) v) (fsub (Fin (pop_mean xs)) v)) (map Fin xs)
      = map Fin (map (\<lambda>x. (x - pop_mean xs)\<^sup>2) xs)"
    by (simp add: fsub_def power2_eq_square algebra_simps)
  have nonneg: "0 \<le> sum_list (map (\<lambda>x. (x - pop_mean xs)\<^sup>2) xs) / real (length xs)"
    by (intro divide_nonneg_nonneg sum_list_nonneg) auto
  show ?thesis
    using ne nonneg
    by (simp add: std0_def mean_Fin dev fsum_Fin pop_std_def del: map_map)
qed

lemma iloc_trailing:
  "0 < w \<Longrightarrow> w \<le> int (length xs) \<Longrightarrow> iloc_from xs (- w) = trailing (nat w) xs"
  by (simp add: iloc_from_def trailing_def Let_def nat_diff_distrib)

lemma trailing_all: "int (length xs) < w \<Longrightarrow> trailing (nat w) xs = xs"
  by (simp add: trailing_def)

lemma zscore_tail:
  "0 < w \<Longrightarrow> (if int (length s) \<ge> w then iloc_from s (- w) else s) = trailing (nat w) s"
  by (simp add: iloc_trailing trailing_all)

lemma last_trailing: "0 < w \<Longrightarrow> s \<noteq> [] \<Longrightarrow> last (trailing w s) = last s"
  by (simp add: trailing_def)

lemma trailing_nonempty: "0 < w \<Longrightarrow> s \<noteq> [] \<Longrightarrow> trailing w s \<noteq> []"
  by (cases s) (auto simp: trailing_def)

lemma foldl_fadd_NaN: "foldl fadd NaN xs = NaN"
  by (induction xs) simp_all

lemma fsum_NaN_aux: "NaN \<in> set xs \<Longrightarrow> foldl fadd a xs = NaN"
proof (induction xs arbitrary: a)
  case Nil
  then show ?case by simp
next
  case (Cons x xs)
  show ?case
  proof (cases "x = NaN")
    case True
    then show ?thesis by (cases a) (simp_all add: foldl_fadd_NaN)
  next
    case False
    with Cons show ?thesis by simp
  qed
qed

lemma fsum_NaN: "NaN \<in> set xs \<Longrightarrow> fsum xs = NaN"
  by (simp add: fsum_def fsum_NaN_aux)

lemma foldl_fadd_PInf: "a = PInf \<or> a = NaN \<Longrightarrow> foldl fadd a xs = PInf \<or> foldl fadd a xs = NaN"
proof (induction xs arbitrary: a)
  case Nil
  then show ?case by simp
next
  case (Cons x xs)
  have "fadd a x = PInf \<or> fadd a x = NaN"
    using Cons.prems by (cases x) auto
  then show ?case using Cons.IH by simp
qed

lemma foldl_fadd_NInf: "a = NInf \<or> a = NaN \<Longrightarrow> foldl fadd a xs = NInf \<or> foldl fadd a xs = NaN"
proof (induction xs arbitrary: a)
  case Nil
  then show ?case by simp
next
  case (Cons x xs)
  have "fadd a x = NInf \<or> fadd a x = NaN"
    using Cons.prems by (cases x) auto
  then show ?case using Cons.IH by simp
qed

lemma fsum_PInf_aux: "PInf \<in> set xs \<Longrightarrow> foldl fadd a xs = PInf \<or> foldl fadd a xs = NaN"
proof (induction xs arbitrary: a)
  case Nil
  then show ?case by simp
next
  case (Cons x xs)
  show ?case
  proof (cases "x = PInf")
    case True
    have "fadd a PInf = PInf \<or> fadd a PInf = NaN" by (cases a) auto
    then show ?thesis using True foldl_fadd_PInf by simp
  next
    case False
    with Cons show ?thesis by simp
  qed
qed

lemma fsum_NInf_aux: "NInf \<in> set xs \<Longrightarrow> foldl fadd a xs = NInf \<or> foldl fadd a xs = NaN"
proof (induction xs arbitrary: a)
  case Nil
  then show ?case by simp
next
  case (Cons x xs)
  show ?case
  proof (cases "x = NInf")
    case True
    have "fadd a NInf = NInf \<or> fadd a NInf = NaN" by (cases a) auto
    then show ?thesis using True foldl_fadd_NInf by simp
  next
    case False
    with Cons show ?thesis by simp
  qed
qed

lemma mean_PInf: "PInf \<in> set xs \<Longrightarrow> mean xs = PInf \<or> mean xs = NaN"
  using fsum_PInf_aux [of xs "Fin 0"] by (auto simp: mean_def fsum_def)

lemma mean_NInf: "NInf \<in> set xs \<Longrightarrow> mean xs = NInf \<or> mean xs = NaN"
  using fsum_NInf_aux [of xs "Fin 0"] by (auto simp: mean_def fsum_def)

lemma std0_infinite: "PInf \<in> set xs \<or> NInf \<in> set xs \<Longrightarrow> std0 xs = NaN"
proof -
  assume inf: "PInf \<in> set xs \<or> NInf \<in> set xs"
  let ?sq = "\<lambda>v. fmul (fsub (mean xs) v) (fsub (mean xs) v)"
  have "\<exists>v \<in> set xs. ?sq v = NaN"
  proof (cases "PInf \<in> set xs")
    case True
    then have "?sq PInf = NaN" using mean_PInf [of xs] by (auto simp: fsub_def)
    with True show ?thesis by blast
  next
    case False
    with inf have m: "NInf \<in> set xs" by simp
    then have "?sq NInf = NaN" using mean_NInf [of xs] by (auto simp: fsub_def)
    with m show ?thesis by blast
  qed
  then have "NaN \<in> set (map ?sq xs)" by force
  then have "fsum (map ?sq xs) = NaN" by (rule fsum_NaN)
  then show ?thesis by (simp add: std0_def Let_def)
qed

lemma isnan_iff: "isnan x \<longleftrightarrow> x = NaN"
  by (cases x) simp_all

lemma zscore_short:
  "int (length (dropna series)) < max 24 (window div 4) \<Longrightarrow> zscore lb series window = NaN"
  by (simp add: zscore_def Let_def)

lemma zscore_long:
  "0 < window \<Longrightarrow> \<not> int (length (dropna series)) < max 24 (window div 4) \<Longrightarrow>
   zscore lb series window =
     (let t = trailing (nat window) (dropna series); sd = series_std lb t
      in if sd = Fin 0 \<or> sd = NaN then NaN
         else fdiv (fsub (last t) (series_mean lb t)) sd)"
proof -
  assume w: "0 < window" and long: "\<not> int (length (dropna series)) < max 24 (window div 4)"
  from long have ne: "dropna series \<noteq> []" by auto
  from w ne have l: "last (trailing (nat window) (dropna series)) = last (dropna series)"
    by (simp add: last_trailing)
  show ?thesis
    unfolding zscore_def Let_def zscore_tail [OF w] l isnan_iff using long by simp
qed

lemma zscore_Fin:
  assumes "0 < window" and "\<not> int (length (dropna series)) < max 24 (window div 4)"
    and t: "trailing (nat window) (dropna series) = map Fin t"
  shows "zscore (exact_pandas pad) series window =
           (if pop_std t = 0 then NaN else Fin ((last t - pop_mean t) / pop_std t))"
proof -
  from assms(2) have "dropna series \<noteq> []" by auto
  with assms(1) have "trailing (nat window) (dropna series) \<noteq> []"
    by (simp add: trailing_nonempty)
  with t have tne: "t \<noteq> []" by auto
  then have lt: "last (map Fin t) = Fin (last t)" by (simp add: last_map)
  show ?thesis
    using assms(1,2) tne
    by (simp add: zscore_long t exact_pandas_def mean_Fin std0_Fin lt fsub_def Let_def)
qed

lemma zscore_infinite:
  assumes "0 < window" and "\<not> int (length (dropna series)) < max 24 (window div 4)"
    and i: "PInf \<in> set (trailing (nat window) (dropna series))
             \<or> NInf \<in> set (trailing (nat window) (dropna series))"
  shows "zscore (exact_pandas pad) series window = NaN"
  using assms(1,2) by (simp add: zscore_long exact_pandas_def std0_infinite [OF i] Let_def)

text \<open>
  C3 (as amended). With \<open>s\<close> the series without its missing values: \<open>zscore\<close> is
  undefined when \<open>s\<close> has fewer than \<open>max(24, window // 4)\<close> points, the quotient
  rounded down. Otherwise, for a positive window, with \<open>t\<close> the trailing \<open>window\<close>
  values of \<open>s\<close> (all of \<open>s\<close> when there are fewer): it is undefined when the standard
  deviation that the library computed for \<open>t\<close> is exactly 0 or NaN, and else it is the
  last value minus the mean that the library computed for \<open>t\<close>, over that deviation.
  In exact arithmetic, and for finite values, these are the population mean and the
  population standard deviation of \<open>t\<close> (divisor N), and the deviation cannot be
  computed when a value of \<open>t\<close> is infinite.
\<close>

theorem zscore_spec:
  "(int (length (dropna series)) < max 24 (window div 4) \<longrightarrow> zscore lb series window = NaN)
   \<and> (0 < window \<and> \<not> int (length (dropna series)) < max 24 (window div 4) \<longrightarrow>
        zscore lb series window =
          (let t = trailing (nat window) (dropna series); sd = series_std lb t
           in if sd = Fin 0 \<or> sd = NaN then NaN
              else fdiv (fsub (last t) (series_mean lb t)) sd)
        \<and> (trailing (nat window) (dropna series) = map Fin t \<longrightarrow>
             zscore (exact_pandas pad) series window =
               (if pop_std t = 0 then NaN else Fin ((last t - pop_mean t) / pop_std t)))
        \<and> (PInf \<in> set (trailing (nat window) (dropna series))
             \<or> NInf \<in> set (trailing (nat window) (dropna series)) \<longrightarrow>
             zscore (exact_pandas pad) series window = NaN))"
proof (intro conjI impI)
  assume "int (length (dropna series)) < max 24 (window div 4)"
  then show "zscore lb series window = NaN" by (rule zscore_short)
next
  assume h: "0 < window \<and> \<not> int (length (dropna series)) < max 24 (window div 4)"
  then show "zscore lb series window =
          (let t = trailing (nat window) (dropna series); sd = series_std lb t
           in if sd = Fin 0 \<or> sd = NaN then NaN
              else fdiv (fsub (last t) (series_mean lb t)) sd)"
    by (intro zscore_long) simp_all
next
  assume h: "0 < window \<and> \<not> int (length (dropna series)) < max 24 (window div 4)"
    and t: "trailing (nat window) (dropna series) = map Fin t"
  from h t show "zscore (exact_pandas pad) series window =
               (if pop_std t = 0 then NaN else Fin ((last t - pop_mean t) / pop_std t))"
    by (intro zscore_Fin) simp_all
next
  assume h: "0 < window \<and> \<not> int (length (dropna series)) < max 24 (window div 4)"
    and i: "PInf \<in> set (trailing (nat window) (dropna series))
             \<or> NInf \<in> set (trailing (nat window) (dropna series))"
  from h i show "zscore (exact_pandas pad) series window = NaN"
    by (intro zscore_infinite) simp_all
qed

theorem zscore_spec_witness:
  "zscore (exact_pandas False) [Fin 1, NaN, Fin 2] 120 = NaN
   \<and> zscore (exact_pandas False) (replicate 15 (Fin 0) @ [NaN] @ replicate 15 (Fin 2)) 120 = Fin 1
   \<and> zscore (exact_pandas False) (replicate 30 (Fin 2)) 120 = NaN
   \<and> zscore (exact_pandas False) (PInf # replicate 30 (Fin 2)) 120 = NaN
   \<and> zscore \<lparr>pct_pad = False, sort_values = (\<lambda>df. df), series_mean = (\<lambda>xs. Fin 1),
              series_std = (\<lambda>xs. Fin (1 / 4))\<rparr> (replicate 30 (Fin 2)) 120 = Fin 4"
proof -
  define lb where "lb = exact_pandas False"
  define lc where "lc = \<lparr>pct_pad = False, sort_values = (\<lambda>df :: frame. df),
      series_mean = (\<lambda>xs :: pyfloat list. Fin 1),
      series_std = (\<lambda>xs :: pyfloat list. Fin (1 / 4))\<rparr>"
  define s1 where "s1 = [Fin 1, NaN, Fin 2]"
  define s2 where "s2 = replicate 15 (Fin 0) @ [NaN] @ replicate 15 (Fin 2)"
  define s3 where "s3 = replicate 30 (Fin 2)"
  define s4 where "s4 = PInf # replicate 30 (Fin 2)"
  define t2 where "t2 = replicate 15 0 @ replicate 15 (2::real)"
  define t3 where "t3 = replicate 30 (2::real)"
  have short: "int (length (dropna s1)) < max 24 (120 div 4)"
    by (simp add: s1_def dropna_def)
  have a: "zscore lb s1 120 = NaN"
    by (rule zscore_spec [of s1 120 lb "[]" False, THEN conjunct1, THEN mp, OF short])
  have d2: "dropna s2 = map Fin t2"
    by (simp add: s2_def t2_def dropna_def map_replicate)
  have h2: "0 < (120::int) \<and> \<not> int (length (dropna s2)) < max 24 (120 div 4)"
    by (simp add: d2 t2_def)
  have tr2: "trailing (nat 120) (dropna s2) = map Fin t2"
    by (simp add: d2 trailing_def t2_def)
  have m2: "pop_mean t2 = 1"
    by (simp add: t2_def pop_mean_def sum_list_replicate)
  have sd2: "pop_std t2 = 1"
    by (simp add: pop_std_def m2) (simp add: t2_def sum_list_replicate map_replicate)
  have l2: "last t2 = 2" by (simp add: t2_def)
  have b: "zscore lb s2 120 = Fin 1"
    using zscore_spec [of s2 120 lb t2 False, THEN conjunct2, THEN mp, OF h2,
        THEN conjunct2, THEN conjunct1, THEN mp, OF tr2]
    by (simp add: m2 sd2 l2 lb_def)
  have d3: "dropna s3 = map Fin t3"
    by (simp add: s3_def t3_def dropna_def map_replicate)
  have h3: "0 < (120::int) \<and> \<not> int (length (dropna s3)) < max 24 (120 div 4)"
    by (simp add: d3 t3_def)
  have tr3: "trailing (nat 120) (dropna s3) = map Fin t3"
    by (simp add: d3 trailing_def t3_def)
  have m3: "pop_mean t3 = 2"
    by (simp add: t3_def pop_mean_def sum_list_replicate)
  have sd3: "pop_std t3 = 0"
    by (simp add: pop_std_def m3) (simp add: t3_def sum_list_replicate map_replicate)
  have c: "zscore lb s3 120 = NaN"
    using zscore_spec [of s3 120 lb t3 False, THEN conjunct2, THEN mp, OF h3,
        THEN conjunct2, THEN conjunct1, THEN mp, OF tr3]
    by (simp add: sd3 lb_def)
  have d4: "dropna s4 = s4"
    by (simp add: s4_def dropna_def)
  have h4: "0 < (120::int) \<and> \<not> int (length (dropna s4)) < max 24 (120 div 4)"
    by (simp add: d4) (simp add: s4_def)
  have i4: "PInf \<in> set (trailing (nat 120) (dropna s4))
      \<or> NInf \<in> set (trailing (nat 120) (dropna s4))"
    unfolding d4 by (simp add: s4_def trailing_def)
  have i: "zscore lb s4 120 = NaN"
    using zscore_spec [of s4 120 lb "[]" False, THEN conjunct2, THEN mp, OF h4,
        THEN conjunct2, THEN conjunct2, THEN mp, OF i4]
    by (simp add: lb_def)
  have l3: "last (trailing (nat 120) (dropna s3)) = Fin 2"
    unfolding tr3 by (simp add: t3_def)
  have e: "zscore lc s3 120 = Fin 4"
    using zscore_spec [of s3 120 lc "[]" False, THEN conjunct2, THEN mp, OF h3, THEN conjunct1]
    unfolding Let_def l3 by (simp add: lc_def fsub_def)
  from a b c i e show ?thesis
    unfolding lb_def lc_def s1_def s2_def s3_def s4_def by (intro conjI)
qed


subsection \<open>The z-score in binary64 arithmetic\<close>

text \<open>
  Rounding to a double, for a value whose scaled magnitude lies in \<open>[2^52, 2^53)\<close>:
  the value is rounded to the nearest multiple of \<open>2^-k\<close>, ties to even.
\<close>

lemma pow2_neg: "(2::real) powr of_int (- int k) = 1 / 2 ^ k"
proof -
  have "(2::real) powr of_int (- int k) = 2 powr (- real k)" by simp
  also have "\<dots> = 1 / 2 powr real k" by (simp add: powr_minus divide_inverse)
  also have "\<dots> = 1 / 2 ^ k" by (simp add: powr_realpow)
  finally show ?thesis .
qed

lemma floor_log2:
  assumes lo: "2 ^ 52 \<le> \<bar>x\<bar> * 2 ^ k" and hi: "\<bar>x\<bar> * 2 ^ k < 2 ^ 53"
  shows "\<lfloor>log 2 \<bar>x\<bar>\<rfloor> = 52 - int k"
proof -
  from lo have pos: "0 < \<bar>x\<bar>" by (cases "x = 0") auto
  have s: "log 2 (\<bar>x\<bar> * 2 ^ k) = log 2 \<bar>x\<bar> + real k"
    using pos by (simp add: log_mult log_nat_power)
  have l52: "log 2 ((2::real) ^ 52) = 52" by (subst log_pow_cancel) simp_all
  have l53: "log 2 ((2::real) ^ 53) = 53" by (subst log_pow_cancel) simp_all
  have "log 2 (2 ^ 52) \<le> log 2 (\<bar>x\<bar> * 2 ^ k)"
    using lo by (subst log_le_cancel_iff) auto
  then have a: "52 \<le> log 2 \<bar>x\<bar> + real k"
    unfolding s l52 .
  have "log 2 (\<bar>x\<bar> * 2 ^ k) < log 2 (2 ^ 53)"
    using hi pos by (subst log_less_cancel_iff) auto
  then have b: "log 2 \<bar>x\<bar> + real k < 53"
    unfolding s l53 .
  show ?thesis
    by (rule floor_unique) (use a b in simp_all)
qed

lemma rn_small:
  assumes lo: "2 ^ 52 \<le> \<bar>x\<bar> * 2 ^ k" and hi: "\<bar>x\<bar> * 2 ^ k < 2 ^ 53"
  shows "rn x = of_int (rhe (x * 2 ^ k)) / 2 ^ k"
proof -
  from lo have nz: "x \<noteq> 0" by auto
  have e: "\<lfloor>log 2 \<bar>x\<bar>\<rfloor> - 52 = - int k"
    using floor_log2 [OF lo hi] by simp
  show ?thesis
    unfolding rn_def Let_def e pow2_neg using nz by simp
qed

lemma acc8_replicate:
  "acc8 (replicate 8 r) (replicate 16 x) = replicate 8 (dadd (dadd r x) x)"
  by (simp add: acc8.simps)

lemma pairwise_sum_replicate_30:
  "pairwise_sum (replicate 30 x) =
     foldl dadd (tree8 (replicate 8 (dadd (dadd x x) x))) (replicate 6 x)"
  by (subst pairwise_sum.simps) (simp add: block_sum_def Let_def acc8_replicate)

lemma replicate_6: "replicate 6 x = [x, x, x, x, x, x]"
  by (simp add: numeral_eq_Suc)

lemma sqrt_pow2_110: "sqrt (1 / 2 ^ 110) = 1 / 2 ^ 55"
proof -
  have "((1::real) / 2 ^ 55)\<^sup>2 = 1 / 2 ^ 110"
    by (simp only: power_divide power_one power_mult [symmetric]) simp
  then have "sqrt (1 / 2 ^ 110) = \<bar>(1::real) / 2 ^ 55\<bar>"
    by (simp only: real_sqrt_abs [symmetric])
  then show ?thesis by simp
qed

lemma double_constant_series:
  "double_mean (replicate 30 (Fin (3602879701896397 / 2 ^ 55))) = Fin (1801439850948199 / 2 ^ 54)
   \<and> double_std (replicate 30 (Fin (3602879701896397 / 2 ^ 55))) = Fin (1 / 2 ^ 55)"
proof -
  define X :: real where "X = 3602879701896397 / 2 ^ 55"
  define X2 :: real where "X2 = 3602879701896397 / 2 ^ 54"
  define R :: real where "R = 1351079888211149 / 2 ^ 52"
  define R2 :: real where "R2 = 1351079888211149 / 2 ^ 51"
  define R4 :: real where "R4 = 1351079888211149 / 2 ^ 50"
  define R8 :: real where "R8 = 1351079888211149 / 2 ^ 49"
  define S0 :: real where "S0 = 5629499534213121 / 2 ^ 51"
  define S1 :: real where "S1 = 2927339757790823 / 2 ^ 50"
  define S2 :: real where "S2 = 6079859496950171 / 2 ^ 51"
  define S3 :: real where "S3 = 788129934789837 / 2 ^ 48"
  define S4 :: real where "S4 = 6530219459687221 / 2 ^ 51"
  define S5 :: real where "S5 = 3377699720527873 / 2 ^ 50"
  define AVG :: real where "AVG = 1801439850948199 / 2 ^ 54"
  define DEV :: real where "DEV = 1 / 2 ^ 55"
  define Q :: real where "Q = 1 / 2 ^ 110"
  define Q2 :: real where "Q2 = 1 / 2 ^ 109"
  define Q3 :: real where "Q3 = 3 / 2 ^ 110"
  define Q6 :: real where "Q6 = 3 / 2 ^ 109"
  define Q12 :: real where "Q12 = 3 / 2 ^ 108"
  define Q24 :: real where "Q24 = 3 / 2 ^ 107"
  define T0 :: real where "T0 = 25 / 2 ^ 110"
  define T1 :: real where "T1 = 13 / 2 ^ 109"
  define T2 :: real where "T2 = 27 / 2 ^ 110"
  define T3 :: real where "T3 = 7 / 2 ^ 108"
  define T4 :: real where "T4 = 29 / 2 ^ 110"
  define T5 :: real where "T5 = 15 / 2 ^ 109"
  define VAR :: real where "VAR = 1 / 2 ^ 110"
  have c0: "dadd (Fin X) (Fin X) = Fin X2"
    unfolding X2_def X_def dadd_def fadd.simps frn.simps
    by (subst rn_small [where k = 55]) (simp_all add: rhe_def Let_def)
  have c1: "dadd (Fin X2) (Fin X) = Fin R"
    unfolding R_def X2_def X_def dadd_def fadd.simps frn.simps
    by (subst rn_small [where k = 54]) (simp_all add: rhe_def Let_def)
  have c2: "dadd (Fin R) (Fin R) = Fin R2"
    unfolding R2_def R_def dadd_def fadd.simps frn.simps
    by (subst rn_small [where k = 53]) (simp_all add: rhe_def Let_def)
  have c3: "dadd (Fin R2) (Fin R2) = Fin R4"
    unfolding R2_def R4_def dadd_def fadd.simps frn.simps
    by (subst rn_small [where k = 52]) (simp_all add: rhe_def Let_def)
  have c4: "dadd (Fin R4) (Fin R4) = Fin R8"
    unfolding R4_def R8_def dadd_def fadd.simps frn.simps
    by (subst rn_small [where k = 51]) (simp_all add: rhe_def Let_def)
  have c5: "dadd (Fin R8) (Fin X) = Fin S0"
    unfolding R8_def S0_def X_def dadd_def fadd.simps frn.simps
    by (subst rn_small [where k = 51]) (simp_all add: rhe_def Let_def)
  have c6: "dadd (Fin S0) (Fin X) = Fin S1"
    unfolding S0_def S1_def X_def dadd_def fadd.simps frn.simps
    by (subst rn_small [where k = 51]) (simp_all add: rhe_def Let_def)
  have c7: "dadd (Fin S1) (Fin X) = Fin S2"
    unfolding S1_def S2_def X_def dadd_def fadd.simps frn.simps
    by (subst rn_small [where k = 51]) (simp_all add: rhe_def Let_def)
  have c8: "dadd (Fin S2) (Fin X) = Fin S3"
    unfolding S2_def S3_def X_def dadd_def fadd.simps frn.simps
    by (subst rn_small [where k = 51]) (simp_all add: rhe_def Let_def)
  have c9: "dadd (Fin S3) (Fin X) = Fin S4"
    unfolding S3_def S4_def X_def dadd_def fadd.simps frn.simps
    by (subst rn_small [where k = 51]) (simp_all add: rhe_def Let_def)
  have c10: "dadd (Fin S4) (Fin X) = Fin S5"
    unfolding S4_def S5_def X_def dadd_def fadd.simps frn.simps
    by (subst rn_small [where k = 51]) (simp_all add: rhe_def Let_def)
  have c11: "ddiv (Fin S5) (Fin 30) = Fin AVG"
    unfolding AVG_def S5_def ddiv_def by (simp, subst rn_small [where k = 56]) (simp_all add: rhe_def Let_def)
  have c12: "dsub (Fin AVG) (Fin X) = Fin DEV"
    unfolding AVG_def DEV_def X_def dsub_def fsub_def fneg.simps fadd.simps frn.simps
    by (subst rn_small [where k = 107]) (simp_all add: rhe_def Let_def)
  have c13: "dmul (Fin DEV) (Fin DEV) = Fin Q"
    unfolding DEV_def Q_def dmul_def fmul.simps frn.simps
    by (subst rn_small [where k = 162]) (simp_all add: rhe_def Let_def)
  have c14: "dadd (Fin Q) (Fin Q) = Fin Q2"
    unfolding Q2_def Q_def dadd_def fadd.simps frn.simps
    by (subst rn_small [where k = 161]) (simp_all add: rhe_def Let_def)
  have c15: "dadd (Fin Q2) (Fin Q) = Fin Q3"
    unfolding Q2_def Q3_def Q_def dadd_def fadd.simps frn.simps
    by (subst rn_small [where k = 161]) (simp_all add: rhe_def Let_def)
  have c16: "dadd (Fin Q3) (Fin Q3) = Fin Q6"
    unfolding Q3_def Q6_def dadd_def fadd.simps frn.simps
    by (subst rn_small [where k = 160]) (simp_all add: rhe_def Let_def)
  have c17: "dadd (Fin Q6) (Fin Q6) = Fin Q12"
    unfolding Q12_def Q6_def dadd_def fadd.simps frn.simps
    by (subst rn_small [where k = 159]) (simp_all add: rhe_def Let_def)
  have c18: "dadd (Fin Q12) (Fin Q12) = Fin Q24"
    unfolding Q12_def Q24_def dadd_def fadd.simps frn.simps
    by (subst rn_small [where k = 158]) (simp_all add: rhe_def Let_def)
  have c19: "dadd (Fin Q24) (Fin Q) = Fin T0"
    unfolding Q24_def Q_def T0_def dadd_def fadd.simps frn.simps
    by (subst rn_small [where k = 158]) (simp_all add: rhe_def Let_def)
  have c20: "dadd (Fin T0) (Fin Q) = Fin T1"
    unfolding Q_def T0_def T1_def dadd_def fadd.simps frn.simps
    by (subst rn_small [where k = 158]) (simp_all add: rhe_def Let_def)
  have c21: "dadd (Fin T1) (Fin Q) = Fin T2"
    unfolding Q_def T1_def T2_def dadd_def fadd.simps frn.simps
    by (subst rn_small [where k = 158]) (simp_all add: rhe_def Let_def)
  have c22: "dadd (Fin T2) (Fin Q) = Fin T3"
    unfolding Q_def T2_def T3_def dadd_def fadd.simps frn.simps
    by (subst rn_small [where k = 158]) (simp_all add: rhe_def Let_def)
  have c23: "dadd (Fin T3) (Fin Q) = Fin T4"
    unfolding Q_def T3_def T4_def dadd_def fadd.simps frn.simps
    by (subst rn_small [where k = 158]) (simp_all add: rhe_def Let_def)
  have c24: "dadd (Fin T4) (Fin Q) = Fin T5"
    unfolding Q_def T4_def T5_def dadd_def fadd.simps frn.simps
    by (subst rn_small [where k = 158]) (simp_all add: rhe_def Let_def)
  have c25: "ddiv (Fin T5) (Fin 30) = Fin VAR"
    unfolding T5_def VAR_def ddiv_def by (simp, subst rn_small [where k = 162]) (simp_all add: rhe_def Let_def)
  have sum: "pairwise_sum (replicate 30 (Fin X)) = Fin S5"
    unfolding pairwise_sum_replicate_30 replicate_6 tree8_def
    by (simp add: c0 c1 c2 c3 c4 c5 c6 c7 c8 c9 c10)
  have sqs: "pairwise_sum (replicate 30 (Fin Q)) = Fin T5"
    unfolding pairwise_sum_replicate_30 replicate_6 tree8_def
    by (simp add: c14 c15 c16 c17 c18 c19 c20 c21 c22 c23 c24)
  have m: "double_mean (replicate 30 (Fin X)) = Fin AVG"
    unfolding double_mean_def sum by (simp add: c11)
  have "fsqrt (Fin VAR) = Fin DEV"
    unfolding VAR_def DEV_def fsqrt.simps sqrt_pow2_110 by simp
  moreover have "frn (Fin DEV) = Fin DEV"
    unfolding DEV_def frn.simps
    by (subst rn_small [where k = 107]) (simp_all add: rhe_def Let_def)
  ultimately have sq: "dsqrt (Fin VAR) = Fin DEV"
    unfolding dsqrt_def by simp
  have s: "double_std (replicate 30 (Fin X)) = Fin DEV"
    unfolding double_std_def Let_def sum by (simp add: c11 c12 c13 sqs c25 sq)
  show ?thesis
    using m s unfolding X_def AVG_def DEV_def by (intro conjI)
qed


lemma rn_int_facts:
  "rn 4 = 4" "rn 5 = 5" "rn (- 5) = - 5" "rn 16 = 16" "rn 25 = 25" "rn 50 = 50" "rn 75 = 75" "rn 100 = 100" "rn 175 = 175" "rn 200 = 200" "rn 375 = 375" "rn 400 = 400"
  subgoal by (subst rn_small [where k = 50]) (simp_all add: rhe_def Let_def)
  subgoal by (subst rn_small [where k = 50]) (simp_all add: rhe_def Let_def)
  subgoal by (subst rn_small [where k = 50]) (simp_all add: rhe_def Let_def)
  subgoal by (subst rn_small [where k = 48]) (simp_all add: rhe_def Let_def)
  subgoal by (subst rn_small [where k = 48]) (simp_all add: rhe_def Let_def)
  subgoal by (subst rn_small [where k = 47]) (simp_all add: rhe_def Let_def)
  subgoal by (subst rn_small [where k = 46]) (simp_all add: rhe_def Let_def)
  subgoal by (subst rn_small [where k = 46]) (simp_all add: rhe_def Let_def)
  subgoal by (subst rn_small [where k = 45]) (simp_all add: rhe_def Let_def)
  subgoal by (subst rn_small [where k = 45]) (simp_all add: rhe_def Let_def)
  subgoal by (subst rn_small [where k = 44]) (simp_all add: rhe_def Let_def)
  subgoal by (subst rn_small [where k = 44]) (simp_all add: rhe_def Let_def)
  done

lemma rn_zero: "rn 0 = 0"
  by (simp add: rn_def)

lemma sqrt_16: "sqrt 16 = 4"
  by (rule real_sqrt_unique) simp_all

lemma dint:
  "dadd (Fin (- 5)) (Fin 0) = Fin (- 5)" "dadd (Fin (- 5)) (Fin 5) = Fin 0"
  "dadd (Fin 0) (Fin 0) = Fin 0" "dadd (Fin 0) (Fin 5) = Fin 5"
  "dadd (Fin 25) (Fin 0) = Fin 25" "dadd (Fin 25) (Fin 25) = Fin 50"
  "dadd (Fin 50) (Fin 50) = Fin 100" "dadd (Fin 25) (Fin 50) = Fin 75"
  "dadd (Fin 75) (Fin 100) = Fin 175" "dadd (Fin 100) (Fin 100) = Fin 200"
  "dadd (Fin 175) (Fin 200) = Fin 375" "dadd (Fin 375) (Fin 25) = Fin 400"
  "ddiv (Fin 0) (Fin 25) = Fin 0" "ddiv (Fin 400) (Fin 25) = Fin 16"
  "dsub (Fin 0) (Fin (- 5)) = Fin 5" "dsub (Fin 0) (Fin 0) = Fin 0"
  "dsub (Fin 0) (Fin 5) = Fin (- 5)"
  "dmul (Fin 5) (Fin 5) = Fin 25" "dmul (Fin 0) (Fin 0) = Fin 0"
  "dmul (Fin (- 5)) (Fin (- 5)) = Fin 25"
  "dsqrt (Fin 16) = Fin 4"
  by (simp_all add: dadd_def dsub_def fsub_def dmul_def ddiv_def dsqrt_def rn_int_facts rn_zero
      sqrt_16)

lemma double_stepped_series:
  "double_mean (replicate 8 (Fin (- 5)) @ replicate 9 (Fin 0) @ replicate 8 (Fin 5)) = Fin 0
   \<and> double_std (replicate 8 (Fin (- 5)) @ replicate 9 (Fin 0) @ replicate 8 (Fin 5)) = Fin 4"
proof -
  define a where "a = Fin (- 5)"
  define b where "b = Fin 0"
  define c where "c = Fin 5"
  define q where "q = Fin 25"
  have e: "replicate 8 a @ replicate 9 b @ replicate 8 c =
     [a, a, a, a, a, a, a, a, b, b, b, b, b, b, b, b, b, c, c, c, c, c, c, c, c]"
    by (simp add: numeral_eq_Suc)
  have e2: "replicate 8 q @ replicate 9 b @ replicate 8 q =
     [q, q, q, q, q, q, q, q, b, b, b, b, b, b, b, b, b, q, q, q, q, q, q, q, q]"
    by (simp add: numeral_eq_Suc)
  have s1: "pairwise_sum (replicate 8 a @ replicate 9 b @ replicate 8 c) = Fin 0"
    unfolding e
    by (subst pairwise_sum.simps)
       (simp add: block_sum_def Let_def acc8.simps tree8_def a_def b_def c_def dint)
  have s2: "pairwise_sum (replicate 8 q @ replicate 9 b @ replicate 8 q) = Fin 400"
    unfolding e2
    by (subst pairwise_sum.simps)
       (simp add: block_sum_def Let_def acc8.simps tree8_def q_def b_def dint)
  have m: "double_mean (replicate 8 a @ replicate 9 b @ replicate 8 c) = Fin 0"
    unfolding double_mean_def s1 by (simp add: dint)
  have sq: "map (\<lambda>v. dmul (dsub (Fin 0) v) (dsub (Fin 0) v))
      (replicate 8 a @ replicate 9 b @ replicate 8 c) = replicate 8 q @ replicate 9 b @ replicate 8 q"
    by (simp add: a_def b_def c_def q_def dint)
  have avg: "ddiv (Fin 0) (Fin (real (length (replicate 8 a @ replicate 9 b @ replicate 8 c))))
      = Fin 0"
    by (simp add: dint)
  have s: "double_std (replicate 8 a @ replicate 9 b @ replicate 8 c) = Fin 4"
    unfolding double_std_def Let_def s1 avg sq s2 by (simp add: dint)
  from m s show ?thesis unfolding a_def b_def c_def by (intro conjI)
qed


text \<open>
  The claim about the z-score does not hold as written, on two counts. The threshold is
  \<^verbatim>\<open>max(24, window // 4)\<close>, the quotient rounded down: with a window of 101 and 25
  points, 25 is below \<open>max(24, 101 / 4)\<close> and yet the z-score is computed, 1.25, in
  exact arithmetic and in doubles alike. And the undefined value for a zero deviation
  depends on the deviation computed in doubles: for 30 values all equal to the double
  nearest 0.1 the population deviation is 0, but the mean computed in doubles is
  0.10000000000000003, the deviation computed is \<open>2^-55\<close>, which is not 0, and the
  z-score is -1.0.
\<close>

theorem zscore_floor_and_rounding:
  "real (length (dropna (replicate 8 (Fin (- 5)) @ replicate 9 (Fin 0) @ replicate 8 (Fin 5))))
     < max 24 (101 / 4)
   \<and> zscore (exact_pandas False)
         (replicate 8 (Fin (- 5)) @ replicate 9 (Fin 0) @ replicate 8 (Fin 5)) 101 = Fin (5 / 4)
   \<and> zscore (numpy_double False)
         (replicate 8 (Fin (- 5)) @ replicate 9 (Fin 0) @ replicate 8 (Fin 5)) 101 = Fin (5 / 4)
   \<and> pop_std (replicate 30 (3602879701896397 / 2 ^ 55)) = 0
   \<and> zscore (exact_pandas False) (replicate 30 (Fin (3602879701896397 / 2 ^ 55))) 120 = NaN
   \<and> series_mean (numpy_double False) (replicate 30 (Fin (3602879701896397 / 2 ^ 55)))
         = Fin (1801439850948199 / 2 ^ 54)
   \<and> series_std (numpy_double False) (replicate 30 (Fin (3602879701896397 / 2 ^ 55)))
         = Fin (1 / 2 ^ 55)
   \<and> zscore (numpy_double False) (replicate 30 (Fin (3602879701896397 / 2 ^ 55))) 120
         = Fin (- 1)"
proof -
  define s where "s = replicate 8 (Fin (- 5)) @ replicate 9 (Fin 0) @ replicate 8 (Fin 5)"
  define t where "t = replicate 8 (- 5) @ replicate 9 0 @ replicate 8 (5::real)"
  define d :: real where "d = 3602879701896397 / 2 ^ 55"
  define u where "u = replicate 30 (Fin d)"
  have ds: "dropna s = s" by (simp add: s_def dropna_def)
  have st: "s = map Fin t" by (simp add: s_def t_def)
  have ls: "length s = 25" by (simp add: s_def)
  have c1: "real (length (dropna s)) < max 24 (101 / 4)"
    unfolding ds ls by simp
  have long: "\<not> int (length (dropna s)) < max 24 (101 div 4)"
    unfolding ds ls by simp
  have tr: "trailing (nat 101) (dropna s) = s"
    unfolding ds by (simp add: trailing_def ls)
  have m: "pop_mean t = 0"
    by (simp add: t_def pop_mean_def sum_list_replicate)
  have "sum_list (map (\<lambda>x. (x - 0)\<^sup>2) t) / real (length t) = 16"
    by (simp add: t_def sum_list_replicate)
  then have sd: "pop_std t = 4"
    by (simp add: pop_std_def m sqrt_16)
  have lt: "last t = 5" by (simp add: t_def)
  have c2: "zscore (exact_pandas False) s 101 = Fin (5 / 4)"
    using zscore_Fin [of 101 s t False] long tr st by (simp add: m sd lt)
  have ld: "last s = Fin 5" by (simp add: s_def)
  have c3: "zscore (numpy_double False) s 101 = Fin (5 / 4)"
    using zscore_long [of 101 s "numpy_double False"] long double_stepped_series
    unfolding tr Let_def s_def [symmetric] by (simp add: numpy_double_def ld fsub_def)
  have du: "dropna u = u" by (simp add: u_def dropna_def)
  have lu: "length u = 30" by (simp add: u_def)
  have longu: "\<not> int (length (dropna u)) < max 24 (120 div 4)"
    unfolding du lu by simp
  have tru: "trailing (nat 120) (dropna u) = u"
    unfolding du by (simp add: trailing_def lu)
  have ut: "u = map Fin (replicate 30 d)" by (simp add: u_def)
  have mu: "pop_mean (replicate 30 d) = d"
    by (simp add: pop_mean_def sum_list_replicate)
  have c4: "pop_std (replicate 30 d) = 0"
    by (simp add: pop_std_def mu) (simp add: sum_list_replicate)
  have c5: "zscore (exact_pandas False) u 120 = NaN"
    using zscore_Fin [of 120 u "replicate 30 d" False] longu tru ut by (simp add: c4)
  have c6: "series_mean (numpy_double False) u = Fin (1801439850948199 / 2 ^ 54)"
    using double_constant_series unfolding u_def d_def by (simp add: numpy_double_def)
  have c7: "series_std (numpy_double False) u = Fin (1 / 2 ^ 55)"
    using double_constant_series unfolding u_def d_def by (simp add: numpy_double_def)
  have lu': "last u = Fin d" by (simp add: u_def)
  have c8: "zscore (numpy_double False) u 120 = Fin (- 1)"
    using zscore_long [of 120 u "numpy_double False"] longu
    unfolding tru Let_def c6 c7 lu' by (simp add: fsub_def d_def)
  from c1 c2 c3 c4 c5 c6 c7 c8 show ?thesis
    unfolding s_def u_def d_def by (intro conjI)
qed

section \<open>The composite score\<close>

subsection \<open>Clamping and the driver loop\<close>

lemma clamp_range:
  "lo \<le> 0 \<Longrightarrow> 0 \<le> hi \<Longrightarrow> \<exists>r. clamp x (Fin lo) (Fin hi) = Fin r \<and> lo \<le> r \<and> r \<le> hi"
  by (cases x) (auto simp: clamp_def pymax_def pymin_def fgt_def)

lemma clamp_NaN: "clamp NaN lo hi = Fin 0"
  by (simp add: clamp_def)

lemma clamp_Fin:
  "lo \<le> hi \<Longrightarrow> clamp (Fin x) (Fin lo) (Fin hi) = Fin (max lo (min hi x))"
  by (auto simp: clamp_def pymax_def pymin_def fgt_def)

lemma clamp_PInf: "lo \<le> hi \<Longrightarrow> clamp PInf (Fin lo) (Fin hi) = Fin hi"
  by (auto simp: clamp_def pymax_def pymin_def fgt_def)

lemma clamp_NInf: "clamp NInf (Fin lo) (Fin hi) = Fin lo"
  by (auto simp: clamp_def pymax_def pymin_def fgt_def)

lemma make_driver_fields:
  "key (fst (make_driver lb d s)) = spec_key d"
  "name (fst (make_driver lb d s)) = spec_name d"
  "weight (fst (make_driver lb d s)) = spec_weight d"
  "z_adj (fst (make_driver lb d s)) =
     clamp (fmul (Fin (of_int (direction d))) (zscore lb (map snd s) 120)) (Fin (- 3)) (Fin 3)"
  "contribution (fst (make_driver lb d s)) =
     fmul (Fin (spec_weight d)) (z_adj (fst (make_driver lb d s)))"
  "snd (make_driver lb d s) = contribution (fst (make_driver lb d s))"
  by (simp_all add: make_driver_def Let_def)

lemma driver_loop_Inr:
  "driver_loop lb monthly specs (a, b) = Inr (ds, cs) \<Longrightarrow>
     (\<exists>ss. map monthly (map spec_key specs) = map Some ss
        \<and> ds = a @ map (\<lambda>(d, s). fst (make_driver lb d s)) (zip specs ss)
        \<and> cs = b @ map (\<lambda>(d, s). snd (make_driver lb d s)) (zip specs ss))"
proof (induction specs arbitrary: a b)
  case Nil
  then show ?case by simp
next
  case (Cons d specs)
  from Cons.prems obtain s where s: "monthly (spec_key d) = Some s"
    by (cases "monthly (spec_key d)") auto
  with Cons.prems have
    "driver_loop lb monthly specs (a @ [fst (make_driver lb d s)], b @ [snd (make_driver lb d s)])
       = Inr (ds, cs)"
    by (simp add: case_prod_beta)
  from Cons.IH [OF this] obtain ss where
    ss: "map monthly (map spec_key specs) = map Some ss"
    "ds = (a @ [fst (make_driver lb d s)])
            @ map (\<lambda>(d, s). fst (make_driver lb d s)) (zip specs ss)"
    "cs = (b @ [snd (make_driver lb d s)])
            @ map (\<lambda>(d, s). snd (make_driver lb d s)) (zip specs ss)"
    by blast
  show ?case
    by (rule exI [of _ "s # ss"]) (use s ss in simp)
qed

lemma driver_loop_total:
  "map monthly (map spec_key specs) = map Some ss \<Longrightarrow>
   driver_loop lb monthly specs (a, b) =
     Inr (a @ map (\<lambda>(d, s). fst (make_driver lb d s)) (zip specs ss),
          b @ map (\<lambda>(d, s). snd (make_driver lb d s)) (zip specs ss))"
proof (induction specs arbitrary: a b ss)
  case Nil
  then show ?case by simp
next
  case (Cons d specs)
  then obtain s ss' where ss: "ss = s # ss'" by (cases ss) auto
  with Cons.prems have s: "monthly (spec_key d) = Some s"
    and r: "map monthly (map spec_key specs) = map Some ss'" by auto
  show ?case
    using Cons.IH [OF r] s ss by (simp add: case_prod_beta)
qed

lemma contribution_finite:
  "\<exists>a. z_adj (fst (make_driver lb d s)) = Fin a \<and> - 3 \<le> a \<and> a \<le> 3
     \<and> contribution (fst (make_driver lb d s)) = Fin (spec_weight d * a)"
proof -
  obtain a where a: "z_adj (fst (make_driver lb d s)) = Fin a" "- 3 \<le> a" "a \<le> 3"
    using clamp_range [of "- 3" 3 "fmul (Fin (of_int (direction d))) (zscore lb (map snd s) 120)"]
    by (auto simp: make_driver_fields)
  then show ?thesis by (simp add: make_driver_fields(5))
qed

lemma nansum_Fin: "nansum (map Fin xs) = Fin (sum_list xs)"
proof -
  have "map (\<lambda>c. if isnan c then Fin 0 else c) (map Fin xs) = map Fin xs" by simp
  then show ?thesis unfolding nansum_def fsum_def
    by (simp add: fsum_Fin_aux del: map_map)
qed

lemma nansum_no_NaN: "NaN \<notin> set cs \<Longrightarrow> nansum cs = fsum cs"
proof -
  assume n: "NaN \<notin> set cs"
  have "map (\<lambda>c. if isnan c then Fin 0 else c) cs = cs"
  proof (rule map_idI)
    fix c assume "c \<in> set cs"
    with n have "c \<noteq> NaN" by auto
    then show "(if isnan c then Fin 0 else c) = c" by (cases c) auto
  qed
  then show ?thesis by (simp add: nansum_def)
qed

lemma score_and_drivers_Inr:
  assumes "score_and_drivers lb monthly = Inr (sc, ds, ex)"
  shows "\<exists>ss. map monthly (map spec_key driver_specs) = map Some ss
          \<and> ds = map (\<lambda>(d, s). fst (make_driver lb d s)) (zip driver_specs ss)
          \<and> sc = clamp (nansum (map contribution ds)) (Fin (- 2)) (Fin 2)"
proof -
  from assms obtain cs where
    l: "driver_loop lb monthly driver_specs ([], []) = Inr (ds, cs)"
    and sc: "sc = clamp (nansum cs) (Fin (- 2)) (Fin 2)"
    by (auto simp: score_and_drivers_def Let_def split: sum.splits option.splits)
  from driver_loop_Inr [OF l] obtain ss where
    ss: "map monthly (map spec_key driver_specs) = map Some ss"
    "ds = map (\<lambda>(d, s). fst (make_driver lb d s)) (zip driver_specs ss)"
    "cs = map (\<lambda>(d, s). snd (make_driver lb d s)) (zip driver_specs ss)"
    by auto
  have "cs = map contribution ds"
    unfolding ss(2,3) by (simp add: case_prod_beta make_driver_fields(6))
  with sc ss show ?thesis by blast
qed

lemma contributions_Fin:
  "\<exists>cs. map contribution (map (\<lambda>(d, s). fst (make_driver lb d s)) ps) = map Fin cs"
proof (induction ps)
  case Nil
  show ?case by simp
next
  case (Cons p ps)
  then obtain cs where
    cs: "map contribution (map (\<lambda>(d, s). fst (make_driver lb d s)) ps) = map Fin cs"
    by (elim exE)
  obtain d s where p: "p = (d, s)" by (cases p)
  from contribution_finite [of lb d s] obtain a where
    a: "contribution (fst (make_driver lb d s)) = Fin (spec_weight d * a)" by (elim exE conjE)
  show ?case
    by (rule exI [of _ "(spec_weight d * a) # cs"]) (use cs a p in simp)
qed

lemma compute_via_monthly:
  "compute_macro_score_and_drivers w = Inr r \<Longrightarrow>
     \<exists>monthly. score_and_drivers (lib w) monthly = Inr r"
  by (auto simp: compute_macro_score_and_drivers_def split: sum.splits)

lemma score_clamped:
  assumes "score_and_drivers lb monthly = Inr (sc, ds, ex)"
  shows "length ds = 5 \<and> sc = clamp (fsum (map contribution ds)) (Fin (- 2)) (Fin 2)
         \<and> (\<exists>cs. map contribution ds = map Fin cs
               \<and> sc = Fin (max (- 2) (min 2 (sum_list cs))))"
proof -
  from score_and_drivers_Inr [OF assms] obtain ss where
    ss: "map monthly (map spec_key driver_specs) = map Some ss"
    and ds: "ds = map (\<lambda>(d, s). fst (make_driver lb d s)) (zip driver_specs ss)"
    and sc: "sc = clamp (nansum (map contribution ds)) (Fin (- 2)) (Fin 2)"
    by blast
  from ss have "length ss = length driver_specs"
    by (metis length_map)
  with ds have len: "length ds = 5" by (simp add: driver_specs_def)
  from contributions_Fin [of lb "zip driver_specs ss"] obtain cs where
    cs: "map contribution ds = map Fin cs" unfolding ds by (elim exE)
  from sc have sc': "sc = clamp (fsum (map contribution ds)) (Fin (- 2)) (Fin 2)"
    unfolding cs by (simp add: nansum_Fin fsum_Fin)
  from sc have "sc = Fin (max (- 2) (min 2 (sum_list cs)))"
    unfolding cs by (simp add: nansum_Fin clamp_Fin)
  with cs have "\<exists>cs. map contribution ds = map Fin cs
      \<and> sc = Fin (max (- 2) (min 2 (sum_list cs)))" by (intro exI conjI)
  with len sc' show ?thesis by (intro conjI)
qed

text \<open>
  C1. Whenever the score is computed (for a run, and for any monthly series handed to
  the scorer), there are five drivers, their contributions are finite numbers, and the
  score is their sum brought into the interval from -2 to 2: the sum itself when it lies
  in the interval, -2 when it is below and 2 when it is above. The clamp sends a finite
  number to the nearest number of the interval, the infinities to the ends of the
  interval and NaN to 0.
\<close>

theorem composite_score_clamped:
  "(compute_macro_score_and_drivers w = Inr (sc, ds, ex) \<longrightarrow>
      length ds = 5 \<and> sc = clamp (fsum (map contribution ds)) (Fin (- 2)) (Fin 2)
      \<and> (\<exists>cs. map contribution ds = map Fin cs
            \<and> sc = Fin (max (- 2) (min 2 (sum_list cs)))))
   \<and> (score_and_drivers lb monthly = Inr (sc', ds', ex') \<longrightarrow>
      length ds' = 5 \<and> sc' = clamp (fsum (map contribution ds')) (Fin (- 2)) (Fin 2)
      \<and> (\<exists>cs. map contribution ds' = map Fin cs
            \<and> sc' = Fin (max (- 2) (min 2 (sum_list cs)))))
   \<and> clamp (Fin r) (Fin (- 2)) (Fin 2) = Fin (max (- 2) (min 2 r))
   \<and> clamp PInf (Fin (- 2)) (Fin 2) = Fin 2
   \<and> clamp NInf (Fin (- 2)) (Fin 2) = Fin (- 2)
   \<and> clamp NaN (Fin (- 2)) (Fin 2) = Fin 0"
proof (intro conjI impI)
  assume "compute_macro_score_and_drivers w = Inr (sc, ds, ex)"
  then obtain m where m: "score_and_drivers (lib w) m = Inr (sc, ds, ex)"
    using compute_via_monthly by blast
  note s = score_clamped [OF m]
  from s show "length ds = 5" by (elim conjE)
  from s show "sc = clamp (fsum (map contribution ds)) (Fin (- 2)) (Fin 2)" by (elim conjE)
  from s show "\<exists>cs. map contribution ds = map Fin cs
      \<and> sc = Fin (max (- 2) (min 2 (sum_list cs)))" by (elim conjE)
next
  assume m: "score_and_drivers lb monthly = Inr (sc', ds', ex')"
  note s = score_clamped [OF m]
  from s show "length ds' = 5" by (elim conjE)
  from s show "sc' = clamp (fsum (map contribution ds')) (Fin (- 2)) (Fin 2)" by (elim conjE)
  from s show "\<exists>cs. map contribution ds' = map Fin cs
      \<and> sc' = Fin (max (- 2) (min 2 (sum_list cs)))" by (elim conjE)
next
  show "clamp (Fin r) (Fin (- 2)) (Fin 2) = Fin (max (- 2) (min 2 r))"
    by (simp add: clamp_Fin)
  show "clamp PInf (Fin (- 2)) (Fin 2) = Fin 2" by (simp add: clamp_PInf)
  show "clamp NInf (Fin (- 2)) (Fin 2) = Fin (- 2)" by (simp add: clamp_NInf)
  show "clamp NaN (Fin (- 2)) (Fin 2) = Fin 0" by (simp add: clamp_NaN)
qed

lemma driver_nth:
  assumes r: "score_and_drivers lb monthly = Inr (sc, ds, ex)" and i: "i < 5"
  shows "\<exists>s. monthly (spec_key (driver_specs ! i)) = Some s
            \<and> ds ! i = fst (make_driver lb (driver_specs ! i) s)"
proof -
  from score_and_drivers_Inr [OF r] obtain ss where
    ss: "map monthly (map spec_key driver_specs) = map Some ss"
    and ds: "ds = map (\<lambda>(d, s). fst (make_driver lb d s)) (zip driver_specs ss)"
    by blast
  have l5: "length driver_specs = 5" by (simp add: driver_specs_def)
  from ss have len: "length ss = 5" using l5 by (metis length_map)
  from ss have "map monthly (map spec_key driver_specs) ! i = map Some ss ! i" by simp
  with i l5 len have m: "monthly (spec_key (driver_specs ! i)) = Some (ss ! i)" by simp
  from ds i l5 len have "ds ! i = fst (make_driver lb (driver_specs ! i) (ss ! i))" by simp
  with m show ?thesis by blast
qed

lemma driver_weights:
  assumes r: "score_and_drivers lb monthly = Inr (sc, ds, ex)"
  shows "map weight ds = map spec_weight driver_specs"
proof -
  from score_and_drivers_Inr [OF r] obtain ss where
    ss: "map monthly (map spec_key driver_specs) = map Some ss"
    and ds: "ds = map (\<lambda>(d, s). fst (make_driver lb d s)) (zip driver_specs ss)"
    by blast
  from ss have len: "length ss = length driver_specs" by (metis length_map)
  have "map weight ds = map (\<lambda>(d, s). spec_weight d) (zip driver_specs ss)"
    unfolding ds by (simp add: case_prod_beta make_driver_fields(3))
  also have "\<dots> = map spec_weight (map fst (zip driver_specs ss))"
    by (simp add: case_prod_beta)
  also have "\<dots> = map spec_weight driver_specs"
    using len by simp
  finally show ?thesis .
qed

lemma direction_unit:
  "i < 5 \<Longrightarrow> direction (driver_specs ! i) = 1 \<or> direction (driver_specs ! i) = - 1"
proof -
  assume "i < 5"
  then have "i = 0 \<or> i = 1 \<or> i = 2 \<or> i = 3 \<or> i = 4" by arith
  then show ?thesis by (elim disjE) (simp_all add: driver_specs_def)
qed

lemma z_adj_cases:
  assumes p: "p = 1 \<or> p = - 1"
  shows "z = Fin zr \<longrightarrow>
           clamp (fmul (Fin (of_int p)) z) (Fin (- 3)) (Fin 3)
             = Fin (max (- 3) (min 3 (of_int p * zr)))"
    and "z = NaN \<longrightarrow> clamp (fmul (Fin (of_int p)) z) (Fin (- 3)) (Fin 3) = Fin 0"
    and "z = PInf \<longrightarrow> clamp (fmul (Fin (of_int p)) z) (Fin (- 3)) (Fin 3) = Fin (3 * of_int p)"
    and "z = NInf \<longrightarrow>
           clamp (fmul (Fin (of_int p)) z) (Fin (- 3)) (Fin 3) = Fin (- 3 * of_int p)"
  using p by (auto simp: clamp_Fin clamp_NaN clamp_PInf clamp_NInf scale_inf_def)

text \<open>
  C2. For each of the five scored indicators, with \<open>z\<close> the z-score of its monthly
  series over a window of 120: the adjusted z-score is the polarity times \<open>z\<close>
  brought into the interval from -3 to 3 (the product itself inside the interval, the
  nearer end outside, an end of the interval for an infinite \<open>z\<close>), and the contribution
  is the indicator's weight times that adjusted z-score; an undefined \<open>z\<close> gives the
  adjusted z-score 0 and the contribution 0. The weights recorded are the five fixed
  weights 0.30, 0.25, 0.20, 0.15 and 0.10, whatever z-scores are undefined, and the
  polarities are -1, -1, -1, +1 and -1.
\<close>

theorem driver_contributions:
  assumes "score_and_drivers lb monthly = Inr (sc, ds, ex)" and "i < 5"
  shows "(\<exists>s. monthly (spec_key (driver_specs ! i)) = Some s
      \<and> weight (ds ! i) = spec_weight (driver_specs ! i)
      \<and> z_adj (ds ! i) =
          clamp (fmul (Fin (of_int (direction (driver_specs ! i)))) (zscore lb (map snd s) 120))
                (Fin (- 3)) (Fin 3)
      \<and> contribution (ds ! i) = fmul (Fin (spec_weight (driver_specs ! i))) (z_adj (ds ! i))
      \<and> (zscore lb (map snd s) 120 = Fin zr \<longrightarrow>
           z_adj (ds ! i) = Fin (max (- 3) (min 3 (of_int (direction (driver_specs ! i)) * zr)))
           \<and> contribution (ds ! i) =
               Fin (spec_weight (driver_specs ! i)
                    * max (- 3) (min 3 (of_int (direction (driver_specs ! i)) * zr))))
      \<and> (zscore lb (map snd s) 120 = NaN \<longrightarrow>
           z_adj (ds ! i) = Fin 0 \<and> contribution (ds ! i) = Fin 0)
      \<and> (zscore lb (map snd s) 120 = PInf \<longrightarrow>
           z_adj (ds ! i) = Fin (3 * of_int (direction (driver_specs ! i)))
           \<and> contribution (ds ! i) =
               Fin (spec_weight (driver_specs ! i) * (3 * of_int (direction (driver_specs ! i)))))
      \<and> (zscore lb (map snd s) 120 = NInf \<longrightarrow>
           z_adj (ds ! i) = Fin (- 3 * of_int (direction (driver_specs ! i)))
           \<and> contribution (ds ! i) =
               Fin (spec_weight (driver_specs ! i)
                    * (- 3 * of_int (direction (driver_specs ! i))))))
   \<and> map weight ds = [30 / 100, 25 / 100, 20 / 100, 15 / 100, 10 / 100]
   \<and> map direction driver_specs = [- 1, - 1, - 1, 1, - 1]"
proof -
  from driver_nth [OF assms] obtain s where
    m: "monthly (spec_key (driver_specs ! i)) = Some s"
    and d: "ds ! i = fst (make_driver lb (driver_specs ! i) s)" by blast
  define sp where "sp = driver_specs ! i"
  define z where "z = zscore lb (map snd s) 120"
  define p where "p = direction sp"
  define wt where "wt = spec_weight sp"
  have pu: "p = 1 \<or> p = - 1"
    unfolding p_def sp_def by (rule direction_unit [OF assms(2)])
  have w: "weight (ds ! i) = wt"
    unfolding d wt_def sp_def by (rule make_driver_fields(3))
  have za: "z_adj (ds ! i) = clamp (fmul (Fin (of_int p)) z) (Fin (- 3)) (Fin 3)"
    unfolding d p_def z_def sp_def by (rule make_driver_fields(4))
  have c: "contribution (ds ! i) = fmul (Fin wt) (z_adj (ds ! i))"
    unfolding d wt_def sp_def by (rule make_driver_fields(5))
  have f: "z = Fin zr \<longrightarrow> z_adj (ds ! i) = Fin (max (- 3) (min 3 (of_int p * zr)))
      \<and> contribution (ds ! i) = Fin (wt * max (- 3) (min 3 (of_int p * zr)))"
    using z_adj_cases(1) [OF pu, of z zr] c unfolding za by simp
  have n: "z = NaN \<longrightarrow> z_adj (ds ! i) = Fin 0 \<and> contribution (ds ! i) = Fin 0"
    using z_adj_cases(2) [OF pu, of z] c unfolding za by simp
  have pi: "z = PInf \<longrightarrow> z_adj (ds ! i) = Fin (3 * of_int p)
      \<and> contribution (ds ! i) = Fin (wt * (3 * of_int p))"
    using z_adj_cases(3) [OF pu, of z] c unfolding za by simp
  have ni: "z = NInf \<longrightarrow> z_adj (ds ! i) = Fin (- 3 * of_int p)
      \<and> contribution (ds ! i) = Fin (wt * (- 3 * of_int p))"
    using z_adj_cases(4) [OF pu, of z] c unfolding za by simp
  have ws: "map weight ds = [30 / 100, 25 / 100, 20 / 100, 15 / 100, 10 / 100]"
    using driver_weights [OF assms(1)] by (simp add: driver_specs_def)
  have dirs: "map direction driver_specs = [- 1, - 1, - 1, 1, - 1]"
    by (simp add: driver_specs_def)
  have "monthly (spec_key sp) = Some s
      \<and> weight (ds ! i) = wt
      \<and> z_adj (ds ! i) = clamp (fmul (Fin (of_int p)) z) (Fin (- 3)) (Fin 3)
      \<and> contribution (ds ! i) = fmul (Fin wt) (z_adj (ds ! i))
      \<and> (z = Fin zr \<longrightarrow> z_adj (ds ! i) = Fin (max (- 3) (min 3 (of_int p * zr)))
           \<and> contribution (ds ! i) = Fin (wt * max (- 3) (min 3 (of_int p * zr))))
      \<and> (z = NaN \<longrightarrow> z_adj (ds ! i) = Fin 0 \<and> contribution (ds ! i) = Fin 0)
      \<and> (z = PInf \<longrightarrow> z_adj (ds ! i) = Fin (3 * of_int p)
           \<and> contribution (ds ! i) = Fin (wt * (3 * of_int p)))
      \<and> (z = NInf \<longrightarrow> z_adj (ds ! i) = Fin (- 3 * of_int p)
           \<and> contribution (ds ! i) = Fin (wt * (- 3 * of_int p)))"
    using m w za c f n pi ni unfolding sp_def by (intro conjI)
  then have "\<exists>s. monthly (spec_key sp) = Some s
      \<and> weight (ds ! i) = wt
      \<and> z_adj (ds ! i) =
          clamp (fmul (Fin (of_int p)) (zscore lb (map snd s) 120)) (Fin (- 3)) (Fin 3)
      \<and> contribution (ds ! i) = fmul (Fin wt) (z_adj (ds ! i))
      \<and> (zscore lb (map snd s) 120 = Fin zr \<longrightarrow>
           z_adj (ds ! i) = Fin (max (- 3) (min 3 (of_int p * zr)))
           \<and> contribution (ds ! i) = Fin (wt * max (- 3) (min 3 (of_int p * zr))))
      \<and> (zscore lb (map snd s) 120 = NaN \<longrightarrow>
           z_adj (ds ! i) = Fin 0 \<and> contribution (ds ! i) = Fin 0)
      \<and> (zscore lb (map snd s) 120 = PInf \<longrightarrow> z_adj (ds ! i) = Fin (3 * of_int p)
           \<and> contribution (ds ! i) = Fin (wt * (3 * of_int p)))
      \<and> (zscore lb (map snd s) 120 = NInf \<longrightarrow> z_adj (ds ! i) = Fin (- 3 * of_int p)
           \<and> contribution (ds ! i) = Fin (wt * (- 3 * of_int p)))"
    unfolding z_def by (rule exI)
  with ws dirs show ?thesis
    unfolding p_def wt_def sp_def by (intro conjI)
qed

section \<open>Worked instances of the score\<close>

lemma score_and_drivers_total:
  assumes "map monthly (map spec_key driver_specs) = map Some ss" and "monthly ''SP500'' = Some sp"
  shows "\<exists>sc ds ex. score_and_drivers lb monthly = Inr (sc, ds, ex)
           \<and> ds = map (\<lambda>(d, s). fst (make_driver lb d s)) (zip driver_specs ss)"
  using driver_loop_total [OF assms(1), of lb "[]" "[]"] assms(2)
  by (simp add: score_and_drivers_def Let_def)

lemma zscore_example: "zscore (exact_pandas pad) (replicate 36 (Fin 0) @ [Fin 37]) 120 = Fin 6"
proof -
  let ?t = "replicate 36 0 @ [37::real]"
  have d: "dropna (replicate 36 (Fin 0) @ [Fin 37]) = map Fin ?t"
    by (simp add: dropna_def map_replicate)
  have tr: "trailing (nat 120) (map Fin ?t) = map Fin ?t"
    by (simp add: trailing_def)
  have m: "pop_mean ?t = 1"
    by (simp add: pop_mean_def sum_list_replicate)
  have "sqrt 36 = 6"
    using real_sqrt_abs [of 6] by simp
  then have sd: "pop_std ?t = 6"
    by (simp add: pop_std_def m sum_list_replicate map_replicate)
  show ?thesis
    using zscore_Fin [of 120 "replicate 36 (Fin 0) @ [Fin 37]" ?t pad] unfolding d tr m sd
    by simp
qed

lemma zscore_unit:
  "zscore (exact_pandas pad) (replicate 15 (Fin 0) @ replicate 15 (Fin 2)) 120 = Fin 1"
proof -
  let ?t = "replicate 15 0 @ replicate 15 (2::real)"
  have d: "dropna (replicate 15 (Fin 0) @ replicate 15 (Fin 2)) = map Fin ?t"
    by (simp add: dropna_def map_replicate)
  have tr: "trailing (nat 120) (map Fin ?t) = map Fin ?t"
    by (simp add: trailing_def)
  have m: "pop_mean ?t = 1"
    by (simp add: pop_mean_def sum_list_replicate)
  have sd: "pop_std ?t = 1"
    by (simp add: pop_std_def m sum_list_replicate map_replicate)
  show ?thesis
    using zscore_Fin [of 120 "replicate 15 (Fin 0) @ replicate 15 (Fin 2)" ?t pad]
    unfolding d tr m sd by simp
qed

lemma zscore_few: "length s < 24 \<Longrightarrow> zscore lb s 120 = NaN"
proof -
  assume l: "length s < 24"
  have "length (dropna s) \<le> length s" by (simp add: dropna_def)
  with l show ?thesis by (intro zscore_short) simp
qed

lemma make_driver_few:
  "length s < 24 \<Longrightarrow> contribution (fst (make_driver lb d s)) = Fin 0"
  by (simp add: make_driver_fields zscore_few clamp_NaN)

lemma to_monthly_single:
  "to_monthly [(d, v)] ''last'' = [(month_start (month_index d), agg_last (dropna [v]))]"
  by (simp add: to_monthly_def resample_MS_def bucket_def)

lemma fetch_all_const:
  "(\<And>sid. fetch sid = Inr df) \<Longrightarrow>
   \<exists>raw. fetch_all fetch sids acc = Inr raw
     \<and> (\<forall>k. raw k = (if k \<in> set sids then Some df else acc k))"
proof (induction sids arbitrary: acc)
  case Nil
  then show ?case by simp
next
  case (Cons sid sids)
  from Cons.IH [OF Cons.prems, of "acc(sid \<mapsto> df)"] obtain raw where
    r: "fetch_all fetch sids (acc(sid \<mapsto> df)) = Inr raw"
    "\<forall>k. raw k = (if k \<in> set sids then Some df else (acc(sid \<mapsto> df)) k)"
    by (elim exE conjE)
  have "fetch_all fetch (sid # sids) acc = Inr raw"
    using r(1) Cons.prems by simp
  moreover have "\<forall>k. raw k = (if k \<in> set (sid # sids) then Some df else acc k)"
    using r(2) by simp
  ultimately show ?case by (intro exI conjI)
qed

lemma monthly_loop_total:
  "\<forall>sid \<in> set sids. \<exists>m. monthly_of raw sid = Inr m \<and> length m < 24 \<Longrightarrow>
   \<exists>monthly'. monthly_loop raw sids monthly = Inr monthly'
     \<and> (\<forall>k. k \<in> set sids \<or> (\<exists>m. monthly k = Some m \<and> length m < 24)
            \<longrightarrow> (\<exists>m. monthly' k = Some m \<and> length m < 24))"
proof (induction sids arbitrary: monthly)
  case Nil
  then show ?case by simp
next
  case (Cons sid sids)
  from Cons.prems obtain m where m: "monthly_of raw sid = Inr m" "length m < 24" by auto
  from Cons.prems have
    rest: "\<forall>x \<in> set sids. \<exists>m. monthly_of raw x = Inr m \<and> length m < 24" by simp
  from Cons.IH [where monthly = "monthly(sid \<mapsto> m)", OF rest] obtain monthly' where
    r: "monthly_loop raw sids (monthly(sid \<mapsto> m)) = Inr monthly'"
    "\<forall>k. k \<in> set sids \<or> (\<exists>m'. (monthly(sid \<mapsto> m)) k = Some m' \<and> length m' < 24)
        \<longrightarrow> (\<exists>m'. monthly' k = Some m' \<and> length m' < 24)"
    by (elim exE conjE)
  have "monthly_loop raw (sid # sids) monthly = Inr monthly'"
    using r(1) m by simp
  moreover have "\<forall>k. k \<in> set (sid # sids) \<or> (\<exists>m. monthly k = Some m \<and> length m < 24)
      \<longrightarrow> (\<exists>m. monthly' k = Some m \<and> length m < 24)"
  proof (intro allI impI)
    fix k
    assume h: "k \<in> set (sid # sids) \<or> (\<exists>m. monthly k = Some m \<and> length m < 24)"
    have "k \<in> set sids \<or> (\<exists>m'. (monthly(sid \<mapsto> m)) k = Some m' \<and> length m' < 24)"
    proof (cases "k = sid")
      case True
      then show ?thesis using m(2) by simp
    next
      case False
      then show ?thesis using h by simp
    qed
    with r(2) show "\<exists>m. monthly' k = Some m \<and> length m < 24" by (elim allE impE)
  qed
  ultimately show ?case by (intro exI conjI)
qed

lemma monthly_of_single:
  "raw sid = Some [(d, v)] \<Longrightarrow> \<exists>m. monthly_of raw sid = Inr m \<and> length m < 24"
  by (simp add: monthly_of_def to_monthly_single)

lemma yoy_from_level_length:
  "length (yoy_from_level lb df) \<le> length (sort_values lb df)"
proof -
  have "length (yoy_from_level lb df)
      \<le> length (zip (map fst (sort_values lb df))
           (map (\<lambda>p. fmul p (Fin 100)) (pct_change (pct_pad lb) 12 (map snd (sort_values lb df)))))"
    unfolding yoy_from_level_def Let_def by (rule length_filter_le)
  also have "\<dots> \<le> length (sort_values lb df)" by simp
  finally show ?thesis .
qed

lemma build_monthly_single:
  assumes raw: "\<forall>k \<in> set SERIES_keys. raw k = Some [(d, v)]"
    and sl: "\<And>df. length (sort_values lb df) \<le> length df"
  shows "\<exists>monthly. build_monthly lb raw = Inr monthly
           \<and> (\<forall>k \<in> set (map spec_key driver_specs).
                 \<exists>m. monthly k = Some m \<and> length m < 24)
           \<and> monthly ''SP500'' \<noteq> None"
proof -
  have mo: "\<And>sid. sid \<in> set SERIES_keys \<Longrightarrow>
      \<exists>m. monthly_of raw sid = Inr m \<and> length m < 24"
    using raw monthly_of_single by blast
  have e1: "\<exists>m. monthly_of raw ''UNRATE'' = Inr m \<and> length m < 24"
    by (rule mo) (simp add: SERIES_keys_def)
  have e2: "\<exists>m. monthly_of raw ''FEDFUNDS'' = Inr m \<and> length m < 24"
    by (rule mo) (simp add: SERIES_keys_def)
  have e3: "\<exists>m. monthly_of raw ''T10Y2Y'' = Inr m \<and> length m < 24"
    by (rule mo) (simp add: SERIES_keys_def)
  have e4: "\<exists>m. monthly_of raw ''BAMLH0A0HYM2'' = Inr m \<and> length m < 24"
    by (rule mo) (simp add: SERIES_keys_def)
  have e5: "\<exists>m. monthly_of raw ''SP500'' = Inr m \<and> length m < 24"
    by (rule mo) (simp add: SERIES_keys_def)
  have r0: "raw ''CPIAUCSL'' = Some [(d, v)]"
    using raw by (simp add: SERIES_keys_def)
  define cpi_m where "cpi_m = to_monthly [(d, v)] ''last''"
  have lc: "length cpi_m = 1" by (simp add: cpi_m_def to_monthly_single)
  then have ne: "cpi_m \<noteq> []" by auto
  define y where "y = yoy_from_level lb cpi_m"
  have cpi: "cpi_yoy_of lb raw = Inr y"
    using ne by (simp add: cpi_yoy_of_def r0 Let_def cpi_m_def [symmetric] y_def)
  have "length y \<le> length (sort_values lb cpi_m)"
    unfolding y_def by (rule yoy_from_level_length)
  also have "\<dots> \<le> length cpi_m" by (rule sl)
  finally have ly: "length y < 24" using lc by simp
  define m0 where "m0 = Map.empty(''CPI_YOY'' \<mapsto> y)"
  have l1: "\<forall>sid \<in> set [''UNRATE'', ''FEDFUNDS''].
      \<exists>m. monthly_of raw sid = Inr m \<and> length m < 24"
    using e1 e2 by simp
  from monthly_loop_total [where monthly = m0, OF l1] obtain m1 where
    m1: "monthly_loop raw [''UNRATE'', ''FEDFUNDS''] m0 = Inr m1"
    "\<forall>k. k \<in> set [''UNRATE'', ''FEDFUNDS''] \<or> (\<exists>m. m0 k = Some m \<and> length m < 24)
        \<longrightarrow> (\<exists>m. m1 k = Some m \<and> length m < 24)"
    by (elim exE conjE)
  have l2: "\<forall>sid \<in> set [''T10Y2Y'', ''BAMLH0A0HYM2'', ''SP500''].
      \<exists>m. monthly_of raw sid = Inr m \<and> length m < 24"
    using e3 e4 e5 by simp
  from monthly_loop_total [where monthly = m1, OF l2] obtain m2 where
    m2: "monthly_loop raw [''T10Y2Y'', ''BAMLH0A0HYM2'', ''SP500''] m1 = Inr m2"
    "\<forall>k. k \<in> set [''T10Y2Y'', ''BAMLH0A0HYM2'', ''SP500'']
          \<or> (\<exists>m. m1 k = Some m \<and> length m < 24)
        \<longrightarrow> (\<exists>m. m2 k = Some m \<and> length m < 24)"
    by (elim exE conjE)
  have b: "build_monthly lb raw = Inr m2"
    using cpi m1(1) m2(1) by (simp add: build_monthly_def m0_def)
  have c: "\<exists>m. m0 ''CPI_YOY'' = Some m \<and> length m < 24" by (simp add: m0_def ly)
  have k1: "\<exists>m. m1 ''CPI_YOY'' = Some m \<and> length m < 24"
    "\<exists>m. m1 ''UNRATE'' = Some m \<and> length m < 24"
    "\<exists>m. m1 ''FEDFUNDS'' = Some m \<and> length m < 24"
    using m1(2) c by simp_all
  have k2: "\<exists>m. m2 ''CPI_YOY'' = Some m \<and> length m < 24"
    "\<exists>m. m2 ''UNRATE'' = Some m \<and> length m < 24"
    "\<exists>m. m2 ''FEDFUNDS'' = Some m \<and> length m < 24"
    "\<exists>m. m2 ''T10Y2Y'' = Some m \<and> length m < 24"
    "\<exists>m. m2 ''BAMLH0A0HYM2'' = Some m \<and> length m < 24"
    "\<exists>m. m2 ''SP500'' = Some m \<and> length m < 24"
    using m2(2) k1 by simp_all
  have a: "\<forall>k \<in> set (map spec_key driver_specs). \<exists>m. m2 k = Some m \<and> length m < 24"
    using k2 by (simp add: driver_specs_def)
  from k2(6) have s: "m2 ''SP500'' \<noteq> None" by (elim exE conjE) simp
  from b a s show ?thesis by (intro exI conjI)
qed

lemma map_Some_few:
  "\<forall>k \<in> set ks. \<exists>m. monthly k = Some m \<and> length m < (24::nat) \<Longrightarrow>
   \<exists>ss. map monthly ks = map Some ss \<and> (\<forall>s \<in> set ss. length s < 24)"
proof (induction ks)
  case Nil
  show ?case by simp
next
  case (Cons k ks)
  from Cons.prems obtain m where m: "monthly k = Some m" "length m < 24" by auto
  from Cons.prems have "\<forall>k \<in> set ks. \<exists>m. monthly k = Some m \<and> length m < 24" by simp
  from Cons.IH [OF this] obtain ss where
    ss: "map monthly ks = map Some ss" "\<forall>s \<in> set ss. length s < 24" by (elim exE conjE)
  show ?case
    by (rule exI [of _ "m # ss"]) (use m ss in simp)
qed

lemma contributions_few:
  "\<forall>s \<in> set ss. length s < 24 \<Longrightarrow>
   map contribution (map (\<lambda>(d, s). fst (make_driver lb d s)) (zip specs ss))
     = replicate (min (length specs) (length ss)) (Fin 0)"
proof (induction specs arbitrary: ss)
  case Nil
  show ?case by simp
next
  case (Cons d specs)
  show ?case
  proof (cases ss)
    case Nil
    then show ?thesis by simp
  next
    case (Cons s ss')
    with Cons.prems have "length s < 24" and "\<forall>s \<in> set ss'. length s < 24" by simp_all
    with Cons.IH [of ss'] Cons show ?thesis by (simp add: make_driver_few)
  qed
qed

lemma compute_single:
  assumes "\<And>sid. fred_observations w sid = Inr [(d, v)]"
    and sl: "\<And>df. length (sort_values (lib w) df) \<le> length df"
  shows "\<exists>sc ds ex. compute_macro_score_and_drivers w = Inr (sc, ds, ex)
           \<and> map contribution ds = replicate 5 (Fin 0)"
proof -
  from fetch_all_const [of "fred_observations w" "[(d, v)]" SERIES_keys Map.empty, OF assms(1)]
  obtain raw where
    raw: "fetch_all (fred_observations w) SERIES_keys Map.empty = Inr raw"
    "\<forall>k. raw k = (if k \<in> set SERIES_keys then Some [(d, v)] else Map.empty k)"
    by (elim exE conjE)
  from raw(2) have rk: "\<forall>k \<in> set SERIES_keys. raw k = Some [(d, v)]" by simp
  from build_monthly_single [where raw = raw and d = d and v = v and lb = "lib w", OF rk sl]
  obtain monthly where
    m: "build_monthly (lib w) raw = Inr monthly"
    "\<forall>k \<in> set (map spec_key driver_specs). \<exists>m. monthly k = Some m \<and> length m < 24"
    "monthly ''SP500'' \<noteq> None"
    by (elim exE conjE)
  from map_Some_few [OF m(2)] obtain ss where
    keys: "map monthly (map spec_key driver_specs) = map Some ss"
    and fw: "\<forall>s \<in> set ss. length s < 24" by (elim exE conjE)
  from keys have "length ss = length driver_specs" by (metis length_map)
  then have len: "min (length driver_specs) (length ss) = 5" by (simp add: driver_specs_def)
  from m(3) obtain sp where sp: "monthly ''SP500'' = Some sp"
    by (cases "monthly ''SP500''") simp_all
  from score_and_drivers_total [OF keys sp, of "lib w"] obtain sc ds ex where
    r: "score_and_drivers (lib w) monthly = Inr (sc, ds, ex)"
    and ds: "ds = map (\<lambda>(d, s). fst (make_driver (lib w) d s)) (zip driver_specs ss)"
    by (elim exE conjE)
  have c: "compute_macro_score_and_drivers w = Inr (sc, ds, ex)"
    using raw(1) m(1) r by (simp add: compute_macro_score_and_drivers_def)
  have z: "map contribution ds = replicate 5 (Fin 0)"
    unfolding ds contributions_few [OF fw] len ..
  from c z show ?thesis by (intro exI conjI)
qed

lemma sort_key_length: "length (sort_values (exact_pandas pad) df) \<le> length df"
  by (simp add: exact_pandas_def)

lemma map_Fin_inj: "map Fin xs = map Fin ys \<Longrightarrow> xs = ys"
  by (simp add: inj_def)

theorem composite_score_clamped_witness:
  "(\<exists>ds ex.
      compute_macro_score_and_drivers
        \<lparr>fred_observations = (\<lambda>sid. Inr [(Date 2025 3 2, Fin 1)]), lib = exact_pandas False,
         store_raises = (\<lambda>n. None), utcnow = (\<lambda>n. [])\<rparr> = Inr (Fin 0, ds, ex)
      \<and> length ds = 5 \<and> map contribution ds = replicate 5 (Fin 0))
   \<and> (\<exists>ds ex.
      score_and_drivers (exact_pandas False)
        (\<lambda>k. Some (map (Pair (Date 2025 3 1)) (replicate 36 (Fin 0) @ [Fin 37])))
        = Inr (Fin (- 2), ds, ex)
      \<and> length ds = 5
      \<and> map contribution ds
          = [Fin (- (9 / 10)), Fin (- (3 / 4)), Fin (- (6 / 10)), Fin (45 / 100), Fin (- (3 / 10))])
   \<and> (\<exists>ds ex.
      score_and_drivers (exact_pandas False)
        (\<lambda>k. Some (map (Pair (Date 2025 3 1)) (replicate 15 (Fin 0) @ replicate 15 (Fin 2))))
        = Inr (Fin (- (7 / 10)), ds, ex)
      \<and> length ds = 5
      \<and> map contribution ds
          = [Fin (- (3 / 10)), Fin (- (1 / 4)), Fin (- (2 / 10)), Fin (15 / 100), Fin (- (1 / 10))])
   \<and> clamp (Fin 5) (Fin (- 2)) (Fin 2) = Fin 2
   \<and> clamp (Fin (1 / 2)) (Fin (- 2)) (Fin 2) = Fin (1 / 2)
   \<and> clamp (Fin (- 5)) (Fin (- 2)) (Fin 2) = Fin (- 2)"
proof -
  define lb where "lb = exact_pandas False"
  define W where "W = \<lparr>fred_observations = (\<lambda>sid. Inr [(Date 2025 3 2, Fin 1)]),
         lib = lb, store_raises = (\<lambda>n. None), utcnow = (\<lambda>n. [])\<rparr>"
  define S where "S = map (Pair (Date 2025 3 1)) (replicate 36 (Fin 0) @ [Fin 37])"
  define M where "M = (\<lambda>k::string. Some S)"
  define T where "T = map (Pair (Date 2025 3 1)) (replicate 15 (Fin 0) @ replicate 15 (Fin 2))"
  define N where "N = (\<lambda>k::string. Some T)"
  have f: "\<And>sid. fred_observations W sid = Inr [(Date 2025 3 2, Fin 1)]"
    by (simp add: W_def)
  have sl: "\<And>df. length (sort_values (lib W) df) \<le> length df"
    by (simp add: W_def lb_def sort_key_length)
  from compute_single [OF f sl] obtain sc ds ex where
    c: "compute_macro_score_and_drivers W = Inr (sc, ds, ex)"
    and z: "map contribution ds = replicate 5 (Fin 0)" by (elim exE conjE)
  note t1 = composite_score_clamped [of W sc ds ex lb M sc ds ex 5,
      THEN conjunct1, THEN mp, OF c]
  from t1 have l1: "length ds = 5" by (elim conjE)
  from t1 obtain cs where cs: "map contribution ds = map Fin cs"
    "sc = Fin (max (- 2) (min 2 (sum_list cs)))" by (elim conjE exE)
  from cs(1) z have "map Fin cs = map Fin (replicate 5 0)" by (simp add: map_replicate)
  then have "cs = replicate 5 0" by (rule map_Fin_inj)
  with cs(2) have s1: "sc = Fin 0" by (simp add: sum_list_replicate)
  have a: "\<exists>ds ex. compute_macro_score_and_drivers W = Inr (Fin 0, ds, ex)
      \<and> length ds = 5 \<and> map contribution ds = replicate 5 (Fin 0)"
    using c l1 z unfolding s1 by (intro exI conjI)
  have vs: "map snd S = replicate 36 (Fin 0) @ [Fin 37]"
    by (simp add: S_def map_replicate)
  have keys: "map M (map spec_key driver_specs) = map Some [S, S, S, S, S]"
    by (simp add: driver_specs_def M_def)
  have sp: "M ''SP500'' = Some S" by (simp add: M_def)
  from score_and_drivers_total [OF keys sp, of lb] obtain sc' ds' ex' where
    r: "score_and_drivers lb M = Inr (sc', ds', ex')"
    and d: "ds' = map (\<lambda>(d, s). fst (make_driver lb d s)) (zip driver_specs [S, S, S, S, S])"
    by (elim exE conjE)
  have z6: "zscore lb (map snd S) 120 = Fin 6"
    unfolding vs lb_def by (rule zscore_example)
  have c2: "map contribution ds'
      = [Fin (- (9 / 10)), Fin (- (3 / 4)), Fin (- (6 / 10)), Fin (45 / 100), Fin (- (3 / 10))]"
    unfolding d by (simp add: driver_specs_def make_driver_fields z6 clamp_Fin)
  note t2 = composite_score_clamped [of W sc ds ex lb M sc' ds' ex' 5,
      THEN conjunct2, THEN conjunct1, THEN mp, OF r]
  from t2 have l2: "length ds' = 5" by (elim conjE)
  from t2 obtain cs' where cs': "map contribution ds' = map Fin cs'"
    "sc' = Fin (max (- 2) (min 2 (sum_list cs')))" by (elim conjE exE)
  from cs'(1) c2 have
    "map Fin cs' = map Fin [- (9 / 10), - (3 / 4), - (6 / 10), 45 / 100, - (3 / 10)]" by simp
  then have "cs' = [- (9 / 10), - (3 / 4), - (6 / 10), 45 / 100, - (3 / 10)]"
    by (rule map_Fin_inj)
  with cs'(2) have s2: "sc' = Fin (- 2)" by simp
  have b: "\<exists>ds ex. score_and_drivers lb M = Inr (Fin (- 2), ds, ex) \<and> length ds = 5
      \<and> map contribution ds
          = [Fin (- (9 / 10)), Fin (- (3 / 4)), Fin (- (6 / 10)), Fin (45 / 100), Fin (- (3 / 10))]"
    using r l2 c2 unfolding s2 by (intro exI conjI)
  have vt: "map snd T = replicate 15 (Fin 0) @ replicate 15 (Fin 2)"
    by (simp add: T_def map_replicate)
  have keyt: "map N (map spec_key driver_specs) = map Some [T, T, T, T, T]"
    by (simp add: driver_specs_def N_def)
  have spt: "N ''SP500'' = Some T" by (simp add: N_def)
  from score_and_drivers_total [OF keyt spt, of lb] obtain sc3 ds3 ex3 where
    r3: "score_and_drivers lb N = Inr (sc3, ds3, ex3)"
    and d3: "ds3 = map (\<lambda>(d, s). fst (make_driver lb d s)) (zip driver_specs [T, T, T, T, T])"
    by (elim exE conjE)
  have z1: "zscore lb (map snd T) 120 = Fin 1"
    unfolding vt lb_def by (rule zscore_unit)
  have c3: "map contribution ds3
      = [Fin (- (3 / 10)), Fin (- (1 / 4)), Fin (- (2 / 10)), Fin (15 / 100), Fin (- (1 / 10))]"
    unfolding d3 by (simp add: driver_specs_def make_driver_fields z1 clamp_Fin)
  note t3 = composite_score_clamped [of W sc ds ex lb N sc3 ds3 ex3 "1 / 2",
      THEN conjunct2, THEN conjunct1, THEN mp, OF r3]
  from t3 have l3: "length ds3 = 5" by (elim conjE)
  from t3 obtain cs3 where cs3: "map contribution ds3 = map Fin cs3"
    "sc3 = Fin (max (- 2) (min 2 (sum_list cs3)))" by (elim conjE exE)
  from cs3(1) c3 have
    "map Fin cs3 = map Fin [- (3 / 10), - (1 / 4), - (2 / 10), 15 / 100, - (1 / 10)]" by simp
  then have "cs3 = [- (3 / 10), - (1 / 4), - (2 / 10), 15 / 100, - (1 / 10)]"
    by (rule map_Fin_inj)
  with cs3(2) have s3: "sc3 = Fin (- (7 / 10))" by simp
  have e: "\<exists>ds ex. score_and_drivers lb N = Inr (Fin (- (7 / 10)), ds, ex) \<and> length ds = 5
      \<and> map contribution ds
          = [Fin (- (3 / 10)), Fin (- (1 / 4)), Fin (- (2 / 10)), Fin (15 / 100), Fin (- (1 / 10))]"
    using r3 l3 c3 unfolding s3 by (intro exI conjI)
  have g1: "clamp (Fin 5) (Fin (- 2)) (Fin 2) = Fin 2"
    using composite_score_clamped [of W sc ds ex lb M sc' ds' ex' 5,
      THEN conjunct2, THEN conjunct2, THEN conjunct1] by simp
  have g2: "clamp (Fin (1 / 2)) (Fin (- 2)) (Fin 2) = Fin (1 / 2)"
    using composite_score_clamped [of W sc ds ex lb M sc' ds' ex' "1 / 2",
      THEN conjunct2, THEN conjunct2, THEN conjunct1] by simp
  have g3: "clamp (Fin (- 5)) (Fin (- 2)) (Fin 2) = Fin (- 2)"
    using composite_score_clamped [of W sc ds ex lb M sc' ds' ex' "- 5",
      THEN conjunct2, THEN conjunct2, THEN conjunct1] by simp
  from a b e g1 g2 g3 show ?thesis
    unfolding W_def M_def N_def S_def T_def lb_def by (intro conjI)
qed

theorem driver_contributions_witness:
  "\<exists>sc ds ex.
     score_and_drivers (exact_pandas False)
       (\<lambda>k. if k = ''CPI_YOY'' then Some []
            else if k = ''UNRATE''
              then Some (map (Pair (Date 2025 3 1)) (replicate 15 (Fin 0) @ replicate 15 (Fin 2)))
              else Some (map (Pair (Date 2025 3 1)) (replicate 36 (Fin 0) @ [Fin 37])))
       = Inr (sc, ds, ex)
     \<and> z_adj (ds ! 0) = Fin 0 \<and> contribution (ds ! 0) = Fin 0 \<and> weight (ds ! 0) = 30 / 100
     \<and> z_adj (ds ! 1) = Fin (- 1) \<and> contribution (ds ! 1) = Fin (- (1 / 4))
     \<and> z_adj (ds ! 2) = Fin (- 3) \<and> contribution (ds ! 2) = Fin (- (6 / 10))
     \<and> z_adj (ds ! 3) = Fin 3 \<and> contribution (ds ! 3) = Fin (45 / 100)
     \<and> map weight ds = [30 / 100, 25 / 100, 20 / 100, 15 / 100, 10 / 100]"
proof -
  define lb where "lb = exact_pandas False"
  define S where "S = map (Pair (Date 2025 3 1)) (replicate 36 (Fin 0) @ [Fin 37])"
  define T where "T = map (Pair (Date 2025 3 1)) (replicate 15 (Fin 0) @ replicate 15 (Fin 2))"
  define M where "M = (\<lambda>k. if k = ''CPI_YOY'' then Some []
      else if k = ''UNRATE'' then Some T else Some S)"
  have vs: "map snd S = replicate 36 (Fin 0) @ [Fin 37]"
    by (simp add: S_def map_replicate)
  have vt: "map snd T = replicate 15 (Fin 0) @ replicate 15 (Fin 2)"
    by (simp add: T_def map_replicate)
  have keys: "map M (map spec_key driver_specs) = map Some [[], T, S, S, S]"
    by (simp add: driver_specs_def M_def)
  have sp: "M ''SP500'' = Some S" by (simp add: M_def)
  from score_and_drivers_total [OF keys sp, of lb]
  obtain sc ds ex where r: "score_and_drivers lb M = Inr (sc, ds, ex)"
    by (elim exE conjE)
  have k0: "M (spec_key (driver_specs ! 0)) = Some []"
    and w0: "spec_weight (driver_specs ! 0) = 30 / 100"
    and k1: "M (spec_key (driver_specs ! 1)) = Some T"
    and w1: "spec_weight (driver_specs ! 1) = 25 / 100"
    and d1: "direction (driver_specs ! 1) = - 1"
    and k2: "M (spec_key (driver_specs ! 2)) = Some S"
    and w2: "spec_weight (driver_specs ! 2) = 20 / 100"
    and d2: "direction (driver_specs ! 2) = - 1"
    and k3: "M (spec_key (driver_specs ! 3)) = Some S"
    and w3: "spec_weight (driver_specs ! 3) = 15 / 100"
    and d3: "direction (driver_specs ! 3) = 1"
    by (simp_all add: driver_specs_def M_def)
  have i0: "(0::nat) < 5" and i1: "(1::nat) < 5" and i2: "(2::nat) < 5" and i3: "(3::nat) < 5"
    by simp_all
  from driver_contributions [OF r i0, of 0] obtain s0 where
    h0: "M (spec_key (driver_specs ! 0)) = Some s0"
    "weight (ds ! 0) = spec_weight (driver_specs ! 0)"
    "zscore lb (map snd s0) 120 = NaN \<longrightarrow> z_adj (ds ! 0) = Fin 0 \<and> contribution (ds ! 0) = Fin 0"
    and ws: "map weight ds = [30 / 100, 25 / 100, 20 / 100, 15 / 100, 10 / 100]"
    by (elim exE conjE)
  from h0(1) k0 have "s0 = []" by simp
  then have "zscore lb (map snd s0) 120 = NaN" by (simp add: zscore_few)
  with h0(3) have c0: "z_adj (ds ! 0) = Fin 0" "contribution (ds ! 0) = Fin 0" by simp_all
  from h0(2) have wt0: "weight (ds ! 0) = 30 / 100" unfolding w0 .
  from driver_contributions [OF r i1, of 1] obtain s1 where
    h1: "M (spec_key (driver_specs ! 1)) = Some s1"
    "zscore lb (map snd s1) 120 = Fin 1 \<longrightarrow>
       z_adj (ds ! 1) = Fin (max (- 3) (min 3 (of_int (direction (driver_specs ! 1)) * 1)))
       \<and> contribution (ds ! 1) =
           Fin (spec_weight (driver_specs ! 1)
                * max (- 3) (min 3 (of_int (direction (driver_specs ! 1)) * 1)))"
    by (elim exE conjE)
  from h1(1) k1 have "s1 = T" by simp
  then have "zscore lb (map snd s1) 120 = Fin 1"
    unfolding vt lb_def by (simp add: vt zscore_unit)
  with h1(2) have c1: "z_adj (ds ! 1) = Fin (- 1)" "contribution (ds ! 1) = Fin (- (1 / 4))"
    unfolding d1 w1 by simp_all
  from driver_contributions [OF r i2, of 6] obtain s2 where
    h2: "M (spec_key (driver_specs ! 2)) = Some s2"
    "zscore lb (map snd s2) 120 = Fin 6 \<longrightarrow>
       z_adj (ds ! 2) = Fin (max (- 3) (min 3 (of_int (direction (driver_specs ! 2)) * 6)))
       \<and> contribution (ds ! 2) =
           Fin (spec_weight (driver_specs ! 2)
                * max (- 3) (min 3 (of_int (direction (driver_specs ! 2)) * 6)))"
    by (elim exE conjE)
  from h2(1) k2 have "s2 = S" by simp
  then have "zscore lb (map snd s2) 120 = Fin 6"
    unfolding lb_def by (simp add: vs zscore_example)
  with h2(2) have c2: "z_adj (ds ! 2) = Fin (- 3)" "contribution (ds ! 2) = Fin (- (6 / 10))"
    unfolding d2 w2 by simp_all
  from driver_contributions [OF r i3, of 6] obtain s3 where
    h3: "M (spec_key (driver_specs ! 3)) = Some s3"
    "zscore lb (map snd s3) 120 = Fin 6 \<longrightarrow>
       z_adj (ds ! 3) = Fin (max (- 3) (min 3 (of_int (direction (driver_specs ! 3)) * 6)))
       \<and> contribution (ds ! 3) =
           Fin (spec_weight (driver_specs ! 3)
                * max (- 3) (min 3 (of_int (direction (driver_specs ! 3)) * 6)))"
    by (elim exE conjE)
  from h3(1) k3 have "s3 = S" by simp
  then have "zscore lb (map snd s3) 120 = Fin 6"
    unfolding lb_def by (simp add: vs zscore_example)
  with h3(2) have c3: "z_adj (ds ! 3) = Fin 3" "contribution (ds ! 3) = Fin (45 / 100)"
    unfolding d3 w3 by simp_all
  have "score_and_drivers lb M = Inr (sc, ds, ex)
     \<and> z_adj (ds ! 0) = Fin 0 \<and> contribution (ds ! 0) = Fin 0 \<and> weight (ds ! 0) = 30 / 100
     \<and> z_adj (ds ! 1) = Fin (- 1) \<and> contribution (ds ! 1) = Fin (- (1 / 4))
     \<and> z_adj (ds ! 2) = Fin (- 3) \<and> contribution (ds ! 2) = Fin (- (6 / 10))
     \<and> z_adj (ds ! 3) = Fin 3 \<and> contribution (ds ! 3) = Fin (45 / 100)
     \<and> map weight ds = [30 / 100, 25 / 100, 20 / 100, 15 / 100, 10 / 100]"
    using r c0 wt0 c1 c2 c3 ws by (intro conjI)
  then show ?thesis unfolding M_def S_def T_def lb_def by (intro exI)
qed

section \<open>The projected curve\<close>

subsection \<open>Bounds on the exponential\<close>

lemma exp_taylor_even:
  fixes x :: real
  assumes x: "\<bar>x\<bar> \<le> 1 / 2" and n: "even n"
  shows "(\<Sum>m<n. x ^ m / fact m) \<le> exp x"
    and "exp x \<le> (\<Sum>m<n. x ^ m / fact m) + 2 * x ^ n / fact n"
proof -
  from Maclaurin_exp_le [of x n] obtain t where
    t: "\<bar>t\<bar> \<le> \<bar>x\<bar>" and e: "exp x = (\<Sum>m<n. x ^ m / fact m) + (exp t / fact n) * x ^ n"
    by blast
  from n have p: "0 \<le> x ^ n" by (rule zero_le_even_power)
  have "t \<le> 1 / 2" using t x by linarith
  then have "exp t \<le> exp (1 / 2)" by simp
  also have "\<dots> \<le> 2" by (rule exp_half_le2)
  finally have u: "exp t \<le> 2" .
  have l: "0 \<le> exp t" by simp
  have r0: "0 \<le> (exp t / fact n) * x ^ n"
    using l p by simp
  have "(exp t / fact n) * x ^ n \<le> (2 / fact n) * x ^ n"
    by (intro mult_right_mono divide_right_mono u p) simp
  then have r1: "(exp t / fact n) * x ^ n \<le> 2 * x ^ n / fact n" by simp
  from e r0 show "(\<Sum>m<n. x ^ m / fact m) \<le> exp x" by linarith
  from e r1 show "exp x \<le> (\<Sum>m<n. x ^ m / fact m) + 2 * x ^ n / fact n" by linarith
qed

lemma sum6: "(\<Sum>m<6. (x::real) ^ m / fact m)
    = 1 + x + x^2 / 2 + x^3 / 6 + x^4 / 24 + x^5 / 120"
  by (simp add: eval_nat_numeral lessThan_Suc fact_numeral algebra_simps)

lemma sum8: "(\<Sum>m<8. (x::real) ^ m / fact m)
    = 1 + x + x^2 / 2 + x^3 / 6 + x^4 / 24 + x^5 / 120 + x^6 / 720 + x^7 / 5040"
  by (simp add: eval_nat_numeral lessThan_Suc fact_numeral algebra_simps)

lemma exp_022: "\<bar>exp (- (22 / 100)) - 8025 / 10000\<bar> < (5 / 100000 :: real)"
proof -
  have a: "\<bar>- (22 / 100 :: real)\<bar> \<le> 1 / 2" by simp
  have f: "fact 6 = (720::real)" by (simp add: fact_numeral)
  from exp_taylor_even(1) [OF a, of 6] have l: "80245 / 100000 < exp (- (22 / 100 :: real))"
    unfolding sum6 by (simp add: power_divide)
  from exp_taylor_even(2) [OF a, of 6] have u: "exp (- (22 / 100 :: real)) < 80255 / 100000"
    unfolding sum6 f by (simp add: power_divide)
  from l u show ?thesis by linarith
qed

lemma exp_044: "\<bar>exp (- (44 / 100)) - 6440 / 10000\<bar> < (5 / 100000 :: real)"
proof -
  have a: "\<bar>- (44 / 100 :: real)\<bar> \<le> 1 / 2" by simp
  have f: "fact 8 = (40320::real)" by (simp add: fact_numeral)
  from exp_taylor_even(1) [OF a, of 8] have l: "64395 / 100000 < exp (- (44 / 100 :: real))"
    unfolding sum8 by (simp add: power_divide)
  from exp_taylor_even(2) [OF a, of 8] have u: "exp (- (44 / 100 :: real)) < 64405 / 100000"
    unfolding sum8 f by (simp add: power_divide)
  from l u show ?thesis by linarith
qed

subsection \<open>Values of the curve\<close>

lemma exp_decay_curve_Fin:
  "exp_decay_curve (Fin s) months (Fin k)
     = map (\<lambda>m. Fin (s * exp (- k * real m))) [0 ..< nat months]"
  by (simp add: exp_decay_curve_def)

lemma exp_decay_curve_nth:
  "i < nat months \<Longrightarrow> exp_decay_curve (Fin s) months (Fin k) ! i = Fin (s * exp (- k * real i))"
  by (simp add: exp_decay_curve_Fin)

lemma exp_decay_curve_length: "length (exp_decay_curve sc months k) = nat months"
  by (simp add: exp_decay_curve_def)

text \<open>
  C5. For a finite score and a finite decay constant, the curve has exactly
  \<open>months\<close> values (for a horizon that is not negative), the value at position \<open>i\<close>
  is the score times \<open>exp (- k * i)\<close>, the first value is the score itself, and for
  the score 1, the horizon 3 and the constant 0.22 the values are 1, 0.8025 and 0.6440
  to four decimal places.
\<close>

theorem exp_decay_curve_values:
  "(0 \<le> months \<longrightarrow> int (length (exp_decay_curve (Fin s) months (Fin k))) = months)
   \<and> (\<forall>i. i < nat months \<longrightarrow>
         exp_decay_curve (Fin s) months (Fin k) ! i = Fin (s * exp (- k * real i)))
   \<and> (0 < months \<longrightarrow> exp_decay_curve (Fin s) months (Fin k) ! 0 = Fin s)
   \<and> (\<exists>b c. exp_decay_curve (Fin 1) 3 (Fin (22 / 100)) = [Fin 1, Fin b, Fin c]
         \<and> \<bar>b - 8025 / 10000\<bar> < 5 / 100000 \<and> \<bar>c - 6440 / 10000\<bar> < 5 / 100000)"
proof -
  have a: "0 \<le> months \<longrightarrow> int (length (exp_decay_curve (Fin s) months (Fin k))) = months"
    by (simp add: exp_decay_curve_length)
  have b: "\<forall>i. i < nat months \<longrightarrow>
         exp_decay_curve (Fin s) months (Fin k) ! i = Fin (s * exp (- k * real i))"
    by (simp add: exp_decay_curve_nth)
  have c: "0 < months \<longrightarrow> exp_decay_curve (Fin s) months (Fin k) ! 0 = Fin s"
    by (simp add: exp_decay_curve_nth)
  have l: "[0 ..< nat 3] = [0, 1, 2]" by (simp add: eval_nat_numeral upt_rec)
  have e: "exp_decay_curve (Fin 1) 3 (Fin (22 / 100))
      = [Fin 1, Fin (exp (- (22 / 100))), Fin (exp (- (44 / 100)))]"
    unfolding exp_decay_curve_Fin l by simp
  have d: "\<exists>b c. exp_decay_curve (Fin 1) 3 (Fin (22 / 100)) = [Fin 1, Fin b, Fin c]
         \<and> \<bar>b - 8025 / 10000\<bar> < 5 / 100000 \<and> \<bar>c - 6440 / 10000\<bar> < 5 / 100000"
    using e exp_022 exp_044 by blast
  from a b c d show ?thesis by (intro conjI)
qed

theorem exp_decay_curve_values_witness:
  "int (length (exp_decay_curve (Fin 1) 12 (Fin (22 / 100)))) = 12
   \<and> exp_decay_curve (Fin (3 / 2)) 12 (Fin (22 / 100)) ! 0 = Fin (3 / 2)
   \<and> exp_decay_curve (Fin (3 / 2)) 12 (Fin (22 / 100)) ! 5 = Fin (3 / 2 * exp (- (22 / 100) * 5))
   \<and> exp_decay_curve (Fin 1) (- 4) (Fin (22 / 100)) = []"
proof -
  note t = exp_decay_curve_values [of 12 "3 / 2" "22 / 100"]
  note u = exp_decay_curve_values [of 12 1 "22 / 100"]
  have a: "int (length (exp_decay_curve (Fin 1) 12 (Fin (22 / 100)))) = 12"
    using u by simp
  have b: "exp_decay_curve (Fin (3 / 2)) 12 (Fin (22 / 100)) ! 0 = Fin (3 / 2)"
    using t by simp
  have "(5::nat) < nat 12" by simp
  with t have c: "exp_decay_curve (Fin (3 / 2)) 12 (Fin (22 / 100)) ! 5
      = Fin (3 / 2 * exp (- (22 / 100) * real (5::nat)))"
    by blast
  have d: "exp_decay_curve (Fin 1) (- 4) (Fin (22 / 100)) = []"
    by (simp add: exp_decay_curve_def)
  from a b c d show ?thesis by simp
qed

lemma decay_factor: "0 \<le> k \<Longrightarrow> 0 < exp (- k * real i) \<and> exp (- k * real i) \<le> 1"
  by (simp add: mult_nonneg_nonneg)

lemma decay_step: "0 \<le> k \<Longrightarrow> exp (- k * real (Suc i)) \<le> exp (- k * real i)"
  by (simp add: algebra_simps)

text \<open>
  C10. For a decay constant that is not negative, every value of the curve has the
  sign of the score or is zero, is at most the score in absolute value, and lies
  between -2 and 2 when the score does; and each value is at most its predecessor in
  absolute value.
\<close>

theorem exp_decay_monotone:
  assumes k: "0 \<le> k"
  shows "(\<forall>i. i < nat months \<longrightarrow>
           (\<exists>v. exp_decay_curve (Fin s) months (Fin k) ! i = Fin v
              \<and> (v = 0 \<or> sgn v = sgn s) \<and> \<bar>v\<bar> \<le> \<bar>s\<bar>
              \<and> (- 2 \<le> s \<and> s \<le> 2 \<longrightarrow> - 2 \<le> v \<and> v \<le> 2)))
     \<and> (\<forall>i. Suc i < nat months \<longrightarrow>
           (\<exists>v v'. exp_decay_curve (Fin s) months (Fin k) ! i = Fin v
              \<and> exp_decay_curve (Fin s) months (Fin k) ! Suc i = Fin v'
              \<and> \<bar>v'\<bar> \<le> \<bar>v\<bar>))"
proof (intro conjI allI impI)
  fix i assume i: "i < nat months"
  let ?v = "s * exp (- k * real i)"
  from decay_factor [OF k, of i] have f: "0 < exp (- k * real i)" "exp (- k * real i) \<le> 1"
    by simp_all
  have sg: "sgn ?v = sgn s" using f(1) by (simp add: sgn_mult)
  have ab: "\<bar>?v\<bar> \<le> \<bar>s\<bar>"
    using f mult_left_le [of "exp (- k * real i)" "\<bar>s\<bar>"] by (simp add: abs_mult)
  then have rg: "- 2 \<le> s \<and> s \<le> 2 \<longrightarrow> - 2 \<le> ?v \<and> ?v \<le> 2" by linarith
  show "\<exists>v. exp_decay_curve (Fin s) months (Fin k) ! i = Fin v
              \<and> (v = 0 \<or> sgn v = sgn s) \<and> \<bar>v\<bar> \<le> \<bar>s\<bar>
              \<and> (- 2 \<le> s \<and> s \<le> 2 \<longrightarrow> - 2 \<le> v \<and> v \<le> 2)"
    using exp_decay_curve_nth [OF i, of s k] sg ab rg by blast
next
  fix i assume i: "Suc i < nat months"
  then have i': "i < nat months" by simp
  let ?v = "s * exp (- k * real i)" and ?v' = "s * exp (- k * real (Suc i))"
  have "\<bar>?v'\<bar> = \<bar>s\<bar> * exp (- k * real (Suc i))" by (simp add: abs_mult)
  also have "\<dots> \<le> \<bar>s\<bar> * exp (- k * real i)"
    by (intro mult_left_mono decay_step [OF k]) simp
  also have "\<dots> = \<bar>?v\<bar>" by (simp add: abs_mult)
  finally have le: "\<bar>?v'\<bar> \<le> \<bar>?v\<bar>" .
  show "\<exists>v v'. exp_decay_curve (Fin s) months (Fin k) ! i = Fin v
              \<and> exp_decay_curve (Fin s) months (Fin k) ! Suc i = Fin v'
              \<and> \<bar>v'\<bar> \<le> \<bar>v\<bar>"
    using exp_decay_curve_nth [OF i', of s k] exp_decay_curve_nth [OF i, of s k] le by blast
qed

theorem exp_decay_monotone_witness:
  "(\<exists>v. exp_decay_curve (Fin (- 2)) 12 (Fin (22 / 100)) ! 11 = Fin v
        \<and> (v = 0 \<or> sgn v = sgn (- 2 :: real)) \<and> \<bar>v\<bar> \<le> \<bar>- 2\<bar> \<and> - 2 \<le> v \<and> v \<le> 2)
   \<and> (\<exists>v v'. exp_decay_curve (Fin (- 2)) 12 (Fin (22 / 100)) ! 10 = Fin v
        \<and> exp_decay_curve (Fin (- 2)) 12 (Fin (22 / 100)) ! Suc 10 = Fin v'
        \<and> \<bar>v'\<bar> \<le> \<bar>v\<bar>)"
proof -
  have k: "(0::real) \<le> 22 / 100" by simp
  note t = exp_decay_monotone [OF k, of 12 "- 2"]
  have i: "(11::nat) < nat 12" and j: "Suc 10 < nat 12" by simp_all
  from t [THEN conjunct1, THEN spec, THEN mp, OF i]
  have a: "\<exists>v. exp_decay_curve (Fin (- 2)) 12 (Fin (22 / 100)) ! 11 = Fin v
        \<and> (v = 0 \<or> sgn v = sgn (- 2 :: real)) \<and> \<bar>v\<bar> \<le> \<bar>- 2\<bar> \<and> - 2 \<le> v \<and> v \<le> 2"
    by auto
  note b = t [THEN conjunct2, THEN spec, THEN mp, OF j]
  from a b show ?thesis by (intro conjI)
qed

section \<open>The run: failure handling\<close>

lemma store_call_cases:
  "store_call w f st = (r, st') \<Longrightarrow>
     (r = None \<and> store_raises w (calls st) = None \<and> st' = (f st)\<lparr>calls := Suc (calls st)\<rparr>)
     \<or> (\<exists>e. r = Some e \<and> store_raises w (calls st) = Some e \<and> st' = st\<lparr>calls := Suc (calls st)\<rparr>)"
  by (auto simp: store_call_def split: option.splits)

lemma upsert_log [simp]: "macro_regime_run_log (upsert row st) = macro_regime_run_log st"
  by (simp add: upsert_def)

lemma upsert_calls [simp]: "calls (upsert row st) = calls st"
  by (simp add: upsert_def)

lemma insert_log_calls [simp]: "calls (insert_log entry st) = calls st"
  by (simp add: insert_log_def)

lemma insert_log_table [simp]:
  "macro_regime_monthly_us (insert_log entry st) = macro_regime_monthly_us st"
  by (simp add: insert_log_def)

lemma store_call_upsert_log:
  "store_call w (upsert row) st = (r, st') \<Longrightarrow> macro_regime_run_log st' = macro_regime_run_log st"
  by (drule store_call_cases) auto

lemma upsert_all_log:
  "upsert_all w rows st = (r, st') \<Longrightarrow> macro_regime_run_log st' = macro_regime_run_log st"
proof (induction rows arbitrary: st)
  case Nil
  then show ?case by simp
next
  case (Cons row rows)
  obtain r1 st1 where c: "store_call w (upsert row) st = (r1, st1)" by (cases "store_call w (upsert row) st")
  from store_call_upsert_log [OF c] have l: "macro_regime_run_log st1 = macro_regime_run_log st" .
  show ?case
  proof (cases r1)
    case None
    with Cons.prems c have "upsert_all w rows st1 = (r, st')" by simp
    from Cons.IH [OF this] l show ?thesis by simp
  next
    case (Some e)
    with Cons.prems c have "st' = st1" by simp
    with l show ?thesis by simp
  qed
qed

lemma store_call_insert_fail:
  "store_call w (insert_log entry) st = (Some e, st') \<Longrightarrow>
     macro_regime_run_log st' = macro_regime_run_log st"
  by (drule store_call_cases) auto

lemma try_block_Inl_log:
  assumes "try_block w st = (Inl e, st1)"
  shows "macro_regime_run_log st1 = macro_regime_run_log st"
proof (cases "compute_macro_score_and_drivers w")
  case (Inl e0)
  with assms show ?thesis by (simp add: try_block_def)
next
  case (Inr r)
  obtain sc ds ex where r: "r = (sc, ds, ex)" by (cases r)
  define rows where "rows = build_rows w (exp_decay_curve sc 12 (Fin (22 / 100))) ds"
  obtain u st2 where u: "upsert_all w rows st = (u, st2)" by (cases "upsert_all w rows st")
  from upsert_all_log [OF u] have l2: "macro_regime_run_log st2 = macro_regime_run_log st" .
  show ?thesis
  proof (cases u)
    case (Some e1)
    with assms Inr r u have "st1 = st2" by (simp add: try_block_def Let_def rows_def)
    with l2 show ?thesis by simp
  next
    case None
    show ?thesis
    proof (cases "sorted_by_contribution ds = []")
      case True
      with assms Inr r u None have "st1 = st2" by (simp add: try_block_def Let_def rows_def)
      with l2 show ?thesis by simp
    next
      case False
      define entry where "entry = \<lparr>status = ''success'',
          log_summary = Some \<lparr>score_now = sc,
                                   best_driver = ref_of (last (sorted_by_contribution ds)),
                                   worst_driver = ref_of (hd (sorted_by_contribution ds)),
                                   sum_sp500_latest = sp500_latest ex,
                                   sum_sp500_month = sp500_month ex,
                                   generated_at_utc = utcnow w 0 @ ''Z''\<rparr>,
          error = None\<rparr>"
      obtain v st3 where v: "store_call w (insert_log entry) st2 = (v, st3)"
        by (cases "store_call w (insert_log entry) st2")
      show ?thesis
      proof (cases v)
        case None': None
        with assms Inr r u None False v show ?thesis
          by (simp add: try_block_def Let_def rows_def entry_def)
      next
        case (Some e2)
        with assms Inr r u None False v have "st1 = st3"
          by (simp add: try_block_def Let_def rows_def entry_def)
        with store_call_insert_fail v Some l2 show ?thesis by simp
      qed
    qed
  qed
qed


lemma main_Inr: "main w st = (Inr out, st') \<Longrightarrow> try_block w st = (Inr out, st')"
  by (auto simp: main_def split: prod.splits sum.splits option.splits)

lemma main_failure:
  assumes t: "try_block w st = (Inl e, st1)"
  shows "(store_raises w (calls st1) = None \<longrightarrow>
        (\<exists>st'. main w st = (Inl e, st')
           \<and> macro_regime_run_log st' = macro_regime_run_log st
                @ [\<lparr>status = ''error'', log_summary = None, error = Some (str_of e)\<rparr>]))
   \<and> (\<forall>e'. store_raises w (calls st1) = Some e' \<longrightarrow>
        (\<exists>st'. main w st = (Inl e', st')
           \<and> macro_regime_run_log st' = macro_regime_run_log st))"
proof -
  note l = try_block_Inl_log [OF t]
  define entry where "entry = \<lparr>status = ''error'', log_summary = None, error = Some (str_of e)\<rparr>"
  have m: "main w st = (case store_call w (insert_log entry) st1 of
             (Some e', st2) \<Rightarrow> (Inl e', st2) | (None, st2) \<Rightarrow> (Inl e, st2))"
    using t by (simp add: main_def entry_def)
  have a: "store_raises w (calls st1) = None \<longrightarrow>
        (\<exists>st'. main w st = (Inl e, st')
           \<and> macro_regime_run_log st' = macro_regime_run_log st @ [entry])"
    unfolding m by (simp add: store_call_def insert_log_def l)
  have b: "\<forall>e'. store_raises w (calls st1) = Some e' \<longrightarrow>
        (\<exists>st'. main w st = (Inl e', st')
           \<and> macro_regime_run_log st' = macro_regime_run_log st)"
    unfolding m by (simp add: store_call_def l)
  from a b show ?thesis unfolding entry_def by (intro conjI)
qed

text \<open>
  C8 (as amended). When a step of the \<^verbatim>\<open>try\<close> block fails with an exception \<open>e\<close>, the
  handler inserts one run-log entry with status "error", the empty summary and the
  message of \<open>e\<close>. If that insert returns, exactly this entry has been added to the
  log and \<open>main\<close> raises \<open>e\<close>; if the insert itself raises \<open>e'\<close>, \<open>main\<close> raises
  \<open>e'\<close> in place of \<open>e\<close> and the log is as it was.
\<close>

theorem main_failure_logged:
  "try_block w st = (Inl e, st1) \<Longrightarrow>
   (store_raises w (calls st1) = None \<longrightarrow>
        (\<exists>st'. main w st = (Inl e, st')
           \<and> macro_regime_run_log st' = macro_regime_run_log st
                @ [\<lparr>status = ''error'', log_summary = None, error = Some (str_of e)\<rparr>]))
   \<and> (\<forall>e'. store_raises w (calls st1) = Some e' \<longrightarrow>
        (\<exists>st'. main w st = (Inl e', st')
           \<and> macro_regime_run_log st' = macro_regime_run_log st))"
  by (rule main_failure)

lemma try_block_fetch_fails:
  "fred_observations w ''CPIAUCSL'' = Inl e \<Longrightarrow> try_block w st = (Inl e, st)"
  by (simp add: try_block_def compute_macro_score_and_drivers_def SERIES_keys_def)

theorem main_failure_logged_witness:
  "(\<exists>st'. main \<lparr>fred_observations = (\<lambda>sid. Inl (Exn ''HTTPError'' ''503'')), lib = exact_pandas False,
               store_raises = (\<lambda>n. None), utcnow = (\<lambda>n. [])\<rparr>
              \<lparr>macro_regime_monthly_us = Map.empty, macro_regime_run_log = [], calls = 0\<rparr>
          = (Inl (Exn ''HTTPError'' ''503''), st')
        \<and> macro_regime_run_log st'
            = [\<lparr>status = ''error'', log_summary = None, error = Some ''503''\<rparr>])
   \<and> (\<exists>st'. main \<lparr>fred_observations = (\<lambda>sid. Inl (Exn ''HTTPError'' ''503'')), lib = exact_pandas False,
               store_raises = (\<lambda>n. Some (Exn ''APIError'' ''down'')), utcnow = (\<lambda>n. [])\<rparr>
              \<lparr>macro_regime_monthly_us = Map.empty, macro_regime_run_log = [], calls = 0\<rparr>
          = (Inl (Exn ''APIError'' ''down''), st')
        \<and> macro_regime_run_log st' = [])"
proof -
  define e where "e = Exn ''HTTPError'' ''503''"
  define e' where "e' = Exn ''APIError'' ''down''"
  define W1 where "W1 = \<lparr>fred_observations = (\<lambda>sid. Inl e), lib = exact_pandas False,
               store_raises = (\<lambda>n. None), utcnow = (\<lambda>n. [])\<rparr>"
  define W2 where "W2 = \<lparr>fred_observations = (\<lambda>sid. Inl e), lib = exact_pandas False,
               store_raises = (\<lambda>n. Some e'), utcnow = (\<lambda>n. [])\<rparr>"
  define st0 where "st0 = \<lparr>macro_regime_monthly_us = Map.empty,
      macro_regime_run_log = ([] :: log_entry list), calls = 0\<rparr>"
  have t1: "try_block W1 st0 = (Inl e, st0)"
    by (rule try_block_fetch_fails) (simp add: W1_def)
  have t2: "try_block W2 st0 = (Inl e, st0)"
    by (rule try_block_fetch_fails) (simp add: W2_def)
  have s1: "store_raises W1 (calls st0) = None" by (simp add: W1_def)
  have s2: "store_raises W2 (calls st0) = Some e'" by (simp add: W2_def)
  have l0: "macro_regime_run_log st0 = []" by (simp add: st0_def)
  have se: "str_of e = ''503''" by (simp add: e_def)
  from main_failure_logged [OF t1, THEN conjunct1, THEN mp, OF s1]
  have a: "\<exists>st'. main W1 st0 = (Inl e, st')
        \<and> macro_regime_run_log st' = [\<lparr>status = ''error'', log_summary = None, error = Some ''503''\<rparr>]"
    unfolding l0 se by simp
  from main_failure_logged [OF t2, THEN conjunct2, THEN spec, THEN mp, OF s2]
  have b: "\<exists>st'. main W2 st0 = (Inl e', st') \<and> macro_regime_run_log st' = []"
    unfolding l0 .
  from a b show ?thesis
    unfolding W1_def W2_def st0_def e_def e'_def by (intro conjI)
qed

text \<open>
  The claim as stated fails where the handler's insert raises: the request for the first
  series fails with an HTTP error and the store is down; \<open>main\<close> then leaves with the
  store's exception, not with the HTTP error, and no entry is recorded.
\<close>

theorem logging_failure_replaces_original:
  "fst (main \<lparr>fred_observations = (\<lambda>sid. Inl (Exn ''HTTPError'' ''503'')), lib = exact_pandas False,
               store_raises = (\<lambda>n. Some (Exn ''APIError'' ''down'')), utcnow = (\<lambda>n. [])\<rparr>
              \<lparr>macro_regime_monthly_us = Map.empty, macro_regime_run_log = [], calls = 0\<rparr>)
     = Inl (Exn ''APIError'' ''down'')
   \<and> fst (main \<lparr>fred_observations = (\<lambda>sid. Inl (Exn ''HTTPError'' ''503'')), lib = exact_pandas False,
               store_raises = (\<lambda>n. Some (Exn ''APIError'' ''down'')), utcnow = (\<lambda>n. [])\<rparr>
              \<lparr>macro_regime_monthly_us = Map.empty, macro_regime_run_log = [], calls = 0\<rparr>)
     \<noteq> Inl (Exn ''HTTPError'' ''503'')
   \<and> macro_regime_run_log
       (snd (main \<lparr>fred_observations = (\<lambda>sid. Inl (Exn ''HTTPError'' ''503'')), lib = exact_pandas False,
               store_raises = (\<lambda>n. Some (Exn ''APIError'' ''down'')), utcnow = (\<lambda>n. [])\<rparr>
              \<lparr>macro_regime_monthly_us = Map.empty, macro_regime_run_log = [], calls = 0\<rparr>))
     = []"
  by (simp add: main_def try_block_def compute_macro_score_and_drivers_def SERIES_keys_def
      store_call_def)

section \<open>The run: projected rows\<close>

lemma build_rows_length: "length (build_rows w curve ds) = length curve"
  by (simp add: build_rows_def)

lemma build_rows_mes: "map mes (build_rows w curve ds) = [1 ..< 1 + length curve]"
proof -
  have "(\<lambda>p. mes (case p of (i, sc) \<Rightarrow> \<lparr>anio = TARGET_YEAR, mes = i, score = sc,
          regime = regime_from_score sc, drivers = ds, updated_at = utcnow w i\<rparr>)) = fst"
    by (auto simp: fun_eq_iff)
  then have "map mes (build_rows w curve ds) = map fst (enumerate 1 curve)"
    unfolding build_rows_def map_map comp_def by (rule arg_cong2 [where f = map, OF _ refl])
  then show ?thesis unfolding map_fst_enumerate .
qed

lemma build_rows_fields:
  "r \<in> set (build_rows w curve ds) \<Longrightarrow>
     drivers r = ds \<and> anio r = TARGET_YEAR \<and> regime r = regime_from_score (score r)"
  by (auto simp: build_rows_def)

lemma build_rows_score: "map score (build_rows w curve ds) = curve"
proof -
  have "(\<lambda>p. score (case p of (i, sc) \<Rightarrow> \<lparr>anio = TARGET_YEAR, mes = i, score = sc,
          regime = regime_from_score sc, drivers = ds, updated_at = utcnow w i\<rparr>)) = snd"
    by (auto simp: fun_eq_iff)
  then have "map score (build_rows w curve ds) = map snd (enumerate 1 curve)"
    unfolding build_rows_def map_map comp_def by (rule arg_cong2 [where f = map, OF _ refl])
  then show ?thesis unfolding map_snd_enumerate .
qed

lemma store_call_upsert_ok:
  "store_call w (upsert row) st = (None, st') \<Longrightarrow>
     macro_regime_monthly_us st' = put_row (macro_regime_monthly_us st) row"
  by (drule store_call_cases) (auto simp: upsert_def put_row_def)

lemma upsert_all_table:
  "upsert_all w rows st = (None, st') \<Longrightarrow>
     macro_regime_monthly_us st' = foldl put_row (macro_regime_monthly_us st) rows"
proof (induction rows arbitrary: st)
  case Nil
  then show ?case by simp
next
  case (Cons row rows)
  obtain r1 st1 where c: "store_call w (upsert row) st = (r1, st1)"
    by (cases "store_call w (upsert row) st")
  show ?case
  proof (cases r1)
    case None
    with Cons.prems c have u: "upsert_all w rows st1 = (None, st')" by simp
    from c None have "macro_regime_monthly_us st1 = put_row (macro_regime_monthly_us st) row"
      by (simp add: store_call_upsert_ok)
    with Cons.IH [OF u] show ?thesis by simp
  next
    case (Some e)
    with Cons.prems c show ?thesis by simp
  qed
qed

lemma foldl_put_row_other:
  "(a, m) \<notin> set (map (\<lambda>r. (anio r, mes r)) rows) \<Longrightarrow> foldl put_row t rows (a, m) = t (a, m)"
  by (induction rows arbitrary: t) (auto simp: put_row_def)

lemma foldl_put_row_lookup:
  "distinct (map (\<lambda>r. (anio r, mes r)) rows) \<Longrightarrow> r \<in> set rows \<Longrightarrow>
     foldl put_row t rows (anio r, mes r) = Some r"
proof (induction rows arbitrary: t)
  case Nil
  then show ?case by simp
next
  case (Cons x rows)
  show ?case
  proof (cases "r \<in> set rows")
    case True
    with Cons show ?thesis by simp
  next
    case False
    with Cons.prems have rx: "r = x" by simp
    from Cons.prems have "(anio x, mes x) \<notin> set (map (\<lambda>r. (anio r, mes r)) rows)" by simp
    from foldl_put_row_other [OF this, of "put_row t x"]
    have "foldl put_row (put_row t x) rows (anio x, mes x) = put_row t x (anio x, mes x)" .
    also have "\<dots> = Some x" by (simp add: put_row_def)
    finally show ?thesis using rx by simp
  qed
qed

lemma build_rows_distinct: "distinct (map (\<lambda>r. (anio r, mes r)) (build_rows w curve ds))"
proof -
  have "distinct (map mes (build_rows w curve ds))"
    unfolding build_rows_mes by simp
  then have d: "distinct (build_rows w curve ds)"
    and i: "inj_on mes (set (build_rows w curve ds))"
    by (simp_all add: distinct_map)
  from i have "inj_on (\<lambda>r. (anio r, mes r)) (set (build_rows w curve ds))"
    by (auto simp: inj_on_def)
  with d show ?thesis by (simp add: distinct_map)
qed

lemma try_block_Inr:
  assumes "try_block w st = (Inr out, st')"
  shows "\<exists>sc ds ex st2. compute_macro_score_and_drivers w = Inr (sc, ds, ex)
           \<and> upsert_all w (build_rows w (exp_decay_curve sc 12 (Fin (22 / 100))) ds) st = (None, st2)
           \<and> macro_regime_monthly_us st' = macro_regime_monthly_us st2"
proof (cases "compute_macro_score_and_drivers w")
  case (Inl e0)
  with assms show ?thesis by (simp add: try_block_def)
next
  case (Inr r)
  obtain sc ds ex where r: "r = (sc, ds, ex)" by (cases r)
  define rows where "rows = build_rows w (exp_decay_curve sc 12 (Fin (22 / 100))) ds"
  obtain u st2 where u: "upsert_all w rows st = (u, st2)" by (cases "upsert_all w rows st")
  show ?thesis
  proof (cases u)
    case (Some e1)
    with assms Inr r u show ?thesis by (simp add: try_block_def Let_def rows_def)
  next
    case None
    show ?thesis
    proof (cases "sorted_by_contribution ds = []")
      case True
      with assms Inr r u None show ?thesis by (simp add: try_block_def Let_def rows_def)
    next
      case False
      define entry where "entry = \<lparr>status = ''success'',
          log_summary = Some \<lparr>score_now = sc,
                                   best_driver = ref_of (last (sorted_by_contribution ds)),
                                   worst_driver = ref_of (hd (sorted_by_contribution ds)),
                                   sum_sp500_latest = sp500_latest ex,
                                   sum_sp500_month = sp500_month ex,
                                   generated_at_utc = utcnow w 0 @ ''Z''\<rparr>,
          error = None\<rparr>"
      obtain v st3 where v: "store_call w (insert_log entry) st2 = (v, st3)"
        by (cases "store_call w (insert_log entry) st2")
      show ?thesis
      proof (cases v)
        case (Some e2)
        with assms Inr r u None False v show ?thesis
          by (simp add: try_block_def Let_def rows_def entry_def)
      next
        case None': None
        with assms Inr r u None False v have "st' = st3"
          by (simp add: try_block_def Let_def rows_def entry_def)
        moreover from store_call_cases [OF v] None'
        have "macro_regime_monthly_us st3 = macro_regime_monthly_us st2" by auto
        ultimately have e: "macro_regime_monthly_us st' = macro_regime_monthly_us st2" by simp
        from Inr r have c: "compute_macro_score_and_drivers w = Inr (sc, ds, ex)" by simp
        from u None have u': "upsert_all w
            (build_rows w (exp_decay_curve sc 12 (Fin (22 / 100))) ds) st = (None, st2)"
          by (simp add: rows_def)
        from c u' e show ?thesis by blast
      qed
    qed
  qed
qed

lemma curve12: "length (exp_decay_curve sc 12 k) = 12"
  by (simp add: exp_decay_curve_length)

lemma upt_1_13: "[1 ..< 1 + (12::nat)] = [1, 2, 3, 4, 5, 6, 7, 8, 9, 10, 11, 12]"
  by (simp add: upt_rec)

lemma projected_rows_aux:
  assumes "main w st = (Inr out, st')"
  shows "\<exists>sc ds ex rows. compute_macro_score_and_drivers w = Inr (sc, ds, ex)
     \<and> rows = build_rows w (exp_decay_curve sc 12 (Fin (22 / 100))) ds
     \<and> length rows = 12
     \<and> map mes rows = [1, 2, 3, 4, 5, 6, 7, 8, 9, 10, 11, 12]
     \<and> (\<forall>r \<in> set rows. drivers r = ds \<and> anio r = 2026
           \<and> macro_regime_monthly_us st' (2026, mes r) = Some r)"
proof -
  from try_block_Inr [OF main_Inr [OF assms]] obtain sc ds ex st2 where
    c: "compute_macro_score_and_drivers w = Inr (sc, ds, ex)"
    and u: "upsert_all w (build_rows w (exp_decay_curve sc 12 (Fin (22 / 100))) ds) st = (None, st2)"
    and t: "macro_regime_monthly_us st' = macro_regime_monthly_us st2"
    by (elim exE conjE)
  define rows where "rows = build_rows w (exp_decay_curve sc 12 (Fin (22 / 100))) ds"
  have len: "length rows = 12"
    by (simp add: rows_def build_rows_length curve12)
  have ms: "map mes rows = [1, 2, 3, 4, 5, 6, 7, 8, 9, 10, 11, 12]"
    unfolding rows_def build_rows_mes curve12 by (rule upt_1_13)
  have tb: "macro_regime_monthly_us st' = foldl put_row (macro_regime_monthly_us st) rows"
    unfolding t rows_def by (rule upsert_all_table [OF u])
  have d: "distinct (map (\<lambda>r. (anio r, mes r)) rows)"
    unfolding rows_def by (rule build_rows_distinct)
  have "\<forall>r \<in> set rows. drivers r = ds \<and> anio r = 2026
           \<and> macro_regime_monthly_us st' (2026, mes r) = Some r"
  proof
    fix r assume r: "r \<in> set rows"
    then have f: "drivers r = ds" "anio r = 2026"
      using build_rows_fields [of r w _ ds] by (simp_all add: rows_def TARGET_YEAR_def)
    from foldl_put_row_lookup [OF d r] have "macro_regime_monthly_us st' (anio r, mes r) = Some r"
      unfolding tb .
    with f show "drivers r = ds \<and> anio r = 2026
           \<and> macro_regime_monthly_us st' (2026, mes r) = Some r" by simp
  qed
  with c len ms show ?thesis unfolding rows_def by (intro exI conjI) simp_all
qed

text \<open>
  C9. A run that succeeds has computed a score and a driver list and has built, from
  the 12 values of the curve, exactly 12 rows with the months 1 to 12 in order, each
  for the target year and each carrying that one driver list; after the run the table
  holds each of these rows under its year and month.
\<close>

theorem projected_rows:
  "main w st = (Inr out, st') \<Longrightarrow>
   \<exists>sc ds ex rows. compute_macro_score_and_drivers w = Inr (sc, ds, ex)
     \<and> rows = build_rows w (exp_decay_curve sc 12 (Fin (22 / 100))) ds
     \<and> length rows = 12
     \<and> map mes rows = [1, 2, 3, 4, 5, 6, 7, 8, 9, 10, 11, 12]
     \<and> (\<forall>r \<in> set rows. drivers r = ds \<and> anio r = 2026
           \<and> macro_regime_monthly_us st' (2026, mes r) = Some r)"
  by (rule projected_rows_aux)

lemma upsert_all_ok:
  "(\<And>n. store_raises w n = None) \<Longrightarrow> \<exists>st'. upsert_all w rows st = (None, st')"
  by (induction rows arbitrary: st) (simp_all add: store_call_def)

lemma insert_driver_nonempty: "insert_driver d xs \<noteq> []"
  by (cases xs) auto

lemma sorted_by_contribution_nonempty: "ds \<noteq> [] \<Longrightarrow> sorted_by_contribution ds \<noteq> []"
proof -
  assume "ds \<noteq> []"
  then obtain ys y where "ds = ys @ [y]" by (metis rev_exhaust)
  then show ?thesis by (simp add: sorted_by_contribution_def insert_driver_nonempty)
qed

lemma main_total:
  assumes c: "compute_macro_score_and_drivers w = Inr (sc, ds, ex)"
    and s: "\<And>n. store_raises w n = None"
  shows "\<exists>out st'. main w st = (Inr out, st')"
proof -
  from compute_via_monthly [OF c] obtain m where
    "score_and_drivers (lib w) m = Inr (sc, ds, ex)"
    by (elim exE)
  from score_clamped [OF this] have "length ds = 5" by simp
  then have "ds \<noteq> []" by auto
  then have ne: "sorted_by_contribution ds \<noteq> []" by (rule sorted_by_contribution_nonempty)
  from upsert_all_ok [of w "build_rows w (exp_decay_curve sc 12 (Fin (22 / 100))) ds" st, OF s]
  obtain st2 where
    u: "upsert_all w (build_rows w (exp_decay_curve sc 12 (Fin (22 / 100))) ds) st = (None, st2)"
    by (elim exE)
  have "\<exists>out st'. try_block w st = (Inr out, st')"
    using c u ne s by (simp add: try_block_def Let_def store_call_def)
  then obtain out st' where "try_block w st = (Inr out, st')" by (elim exE)
  then have "main w st = (Inr out, st')" by (simp add: main_def)
  then show ?thesis by (intro exI)
qed

theorem projected_rows_witness:
  "\<exists>out st' ds r.
     main \<lparr>fred_observations = (\<lambda>sid. Inr [(Date 2025 3 2, Fin 1)]), lib = exact_pandas False,
           store_raises = (\<lambda>n. None), utcnow = (\<lambda>n. [])\<rparr>
          \<lparr>macro_regime_monthly_us = Map.empty, macro_regime_run_log = [], calls = 0\<rparr>
       = (Inr out, st')
     \<and> macro_regime_monthly_us st' (2026, 12) = Some r
     \<and> drivers r = ds \<and> mes r = 12 \<and> anio r = 2026"
proof -
  define W where "W = \<lparr>fred_observations = (\<lambda>sid. Inr [(Date 2025 3 2, Fin 1)]),
         lib = exact_pandas False, store_raises = (\<lambda>n. None), utcnow = (\<lambda>n. [])\<rparr>"
  define st0 where "st0 = \<lparr>macro_regime_monthly_us = (Map.empty :: (int \<times> nat) \<rightharpoonup> month_row),
      macro_regime_run_log = [], calls = 0\<rparr>"
  have f: "\<And>sid. fred_observations W sid = Inr [(Date 2025 3 2, Fin 1)]"
    by (simp add: W_def)
  have s: "\<And>n. store_raises W n = None" by (simp add: W_def)
  have sl: "\<And>df. length (sort_values (lib W) df) \<le> length df"
    by (simp add: W_def sort_key_length)
  from compute_single [OF f sl] obtain sc0 ds0 ex0 where
    c0: "compute_macro_score_and_drivers W = Inr (sc0, ds0, ex0)" by (elim exE conjE)
  from main_total [OF c0 s, of st0] obtain out st' where
    m: "main W st0 = (Inr out, st')" by (elim exE)
  from projected_rows [OF m] obtain sc ds ex rows where
    len: "length rows = 12"
    and ms: "map mes rows = [1, 2, 3, 4, 5, 6, 7, 8, 9, 10, 11, 12]"
    and al: "\<forall>r \<in> set rows. drivers r = ds \<and> anio r = 2026
           \<and> macro_regime_monthly_us st' (2026, mes r) = Some r"
    by (elim exE conjE)
  define r where "r = rows ! 11"
  from len have rin: "r \<in> set rows" by (simp add: r_def)
  have "mes r = map mes rows ! 11" using len by (simp add: r_def)
  then have mr: "mes r = 12" unfolding ms by simp
  from al rin have p: "drivers r = ds" "anio r = 2026"
    "macro_regime_monthly_us st' (2026, mes r) = Some r" by simp_all
  from p(3) have t: "macro_regime_monthly_us st' (2026, 12) = Some r" unfolding mr .
  have "main W st0 = (Inr out, st')
     \<and> macro_regime_monthly_us st' (2026, 12) = Some r
     \<and> drivers r = ds \<and> mes r = 12 \<and> anio r = 2026"
    using m t p(1) mr p(2) by (intro conjI)
  then show ?thesis unfolding W_def st0_def by (intro exI)
qed

section \<open>Monthly resampling\<close>

lemma month_index_start: "month_index (month_start i) = i"
  by (simp add: month_index_def month_start_def)

lemma month_index_mono:
  assumes "valid_date a" "valid_date b" "date_key a \<le> date_key b"
  shows "month_index a \<le> month_index b"
proof -
  from assms(3) have "year a < year b \<or> (year a = year b \<and> mon a \<le> mon b)"
    by (auto simp: date_key_def)
  with assms(1,2) show ?thesis
    by (auto simp: month_index_def valid_date_def)
qed

lemma sorted_bounds:
  assumes s: "sorted (map f xs)" and r: "r \<in> set xs"
  shows "f (hd xs) \<le> f r \<and> f r \<le> f (last xs)"
proof -
  from r obtain k where k: "k < length xs" "xs ! k = r" by (auto simp: in_set_conv_nth)
  then have ne: "xs \<noteq> []" by auto
  from s have m: "\<And>i j. i \<le> j \<Longrightarrow> j < length xs \<Longrightarrow> f (xs ! i) \<le> f (xs ! j)"
    by (auto simp: sorted_iff_nth_mono)
  have "f (xs ! 0) \<le> f (xs ! k)" using m [of 0 k] k by simp
  moreover have "f (xs ! k) \<le> f (xs ! (length xs - 1))" using m [of k "length xs - 1"] k by simp
  ultimately show ?thesis using ne k by (simp add: hd_conv_nth last_conv_nth)
qed

lemma resample_sorted:
  "sorted (map (\<lambda>r. date_key (fst r)) df) \<Longrightarrow>
   resample_MS agg df = map (\<lambda>i. (month_start i, agg (bucket df i)))
             [month_index (fst (hd df)) .. month_index (fst (last df))]"
  by (simp add: resample_MS_def sort_key_id_if_sorted)

lemma to_monthly_sorted:
  assumes ne: "df \<noteq> []" and s: "sorted (map (\<lambda>r. date_key (fst r)) df)"
  shows "to_monthly df how =
     map (\<lambda>i. (month_start i,
                if how = ''mean'' then mean (bucket df i)
                else if bucket df i = [] then NaN else last (bucket df i)))
         [month_index (fst (hd df)) .. month_index (fst (last df))]"
  using ne by (simp add: to_monthly_def resample_sorted [OF s] agg_mean_def agg_last_def)

lemma populated_in_span:
  assumes s: "sorted (map (\<lambda>r. date_key (fst r)) df)"
    and v: "\<forall>r \<in> set df. valid_date (fst r)" and r: "r \<in> set df"
  shows "month_index (fst r) \<in> set [month_index (fst (hd df)) .. month_index (fst (last df))]"
proof -
  from r have ne: "df \<noteq> []" by auto
  from sorted_bounds [OF s r] have
    k: "date_key (fst (hd df)) \<le> date_key (fst r)" "date_key (fst r) \<le> date_key (fst (last df))"
    by simp_all
  from v ne have vh: "valid_date (fst (hd df))" and vl: "valid_date (fst (last df))" by simp_all
  from v r have vr: "valid_date (fst r)" by simp
  from month_index_mono [OF vh vr k(1)] month_index_mono [OF vr vl k(2)]
  show ?thesis by simp
qed

text \<open>
  C7 (as amended). An empty frame gives an empty frame. A frame that is not empty, in
  date order and of calendar dates gives exactly one row for every calendar month from
  the month of its first observation to the month of its last one, in ascending order
  and keyed by the first day of the month; every month that has an observation is
  among them. The value of a month is, for "last", the last value of that month in date
  order that is not missing and, for "mean", the mean of the values of that month that
  are not missing; a month of the span without such a value has a row too, with a
  missing value.
\<close>

theorem to_monthly_span:
  "to_monthly [] how = []
   \<and> (df \<noteq> [] \<and> sorted (map (\<lambda>r. date_key (fst r)) df) \<and> (\<forall>r \<in> set df. valid_date (fst r)) \<longrightarrow>
       to_monthly df how =
         map (\<lambda>i. (month_start i,
                if how = ''mean'' then mean (dropna (map snd (filter (\<lambda>r. month_index (fst r) = i) df)))
                else if dropna (map snd (filter (\<lambda>r. month_index (fst r) = i) df)) = [] then NaN
                else last (dropna (map snd (filter (\<lambda>r. month_index (fst r) = i) df)))))
             [month_index (fst (hd df)) .. month_index (fst (last df))]
       \<and> map (\<lambda>r. month_index (fst r)) (to_monthly df how)
             = [month_index (fst (hd df)) .. month_index (fst (last df))]
       \<and> (\<forall>r \<in> set df. month_index (fst r)
             \<in> set [month_index (fst (hd df)) .. month_index (fst (last df))])
       \<and> (\<forall>r \<in> set (to_monthly df how). dom (fst r) = 1))"
proof (intro conjI impI)
  show "to_monthly [] how = []" by (simp add: to_monthly_def)
next
  assume h: "df \<noteq> [] \<and> sorted (map (\<lambda>r. date_key (fst r)) df) \<and> (\<forall>r \<in> set df. valid_date (fst r))"
  then have ne: "df \<noteq> []" and s: "sorted (map (\<lambda>r. date_key (fst r)) df)"
    and v: "\<forall>r \<in> set df. valid_date (fst r)" by simp_all
  note t = to_monthly_sorted [OF ne s, of how]
  show "to_monthly df how =
         map (\<lambda>i. (month_start i,
                if how = ''mean'' then mean (dropna (map snd (filter (\<lambda>r. month_index (fst r) = i) df)))
                else if dropna (map snd (filter (\<lambda>r. month_index (fst r) = i) df)) = [] then NaN
                else last (dropna (map snd (filter (\<lambda>r. month_index (fst r) = i) df)))))
             [month_index (fst (hd df)) .. month_index (fst (last df))]"
    using t unfolding bucket_def .
  show "map (\<lambda>r. month_index (fst r)) (to_monthly df how)
             = [month_index (fst (hd df)) .. month_index (fst (last df))]"
    unfolding t by (simp add: comp_def month_index_start)
  show "\<forall>r \<in> set df. month_index (fst r)
             \<in> set [month_index (fst (hd df)) .. month_index (fst (last df))]"
    using populated_in_span [OF s v] by blast
  show "\<forall>r \<in> set (to_monthly df how). dom (fst r) = 1"
    unfolding t by (auto simp: month_start_def)
qed

theorem to_monthly_span_witness:
  "to_monthly [] ''last'' = []
   \<and> to_monthly [(Date 2020 2 3, Fin 1), (Date 2020 2 20, Fin 4), (Date 2020 2 28, NaN),
                  (Date 2020 4 7, Fin 2)] ''last''
       = [(Date 2020 2 1, Fin 4), (Date 2020 3 1, NaN), (Date 2020 4 1, Fin 2)]
   \<and> to_monthly [(Date 2020 2 3, Fin 1), (Date 2020 2 20, Fin 4), (Date 2020 2 28, NaN),
                  (Date 2020 4 7, Fin 2)] ''mean''
       = [(Date 2020 2 1, Fin (5 / 2)), (Date 2020 3 1, NaN), (Date 2020 4 1, Fin 2)]"
proof -
  define df where "df = [(Date 2020 2 3, Fin 1), (Date 2020 2 20, Fin 4), (Date 2020 2 28, NaN),
                  (Date 2020 4 7, Fin 2)]"
  have h: "df \<noteq> [] \<and> sorted (map (\<lambda>r. date_key (fst r)) df) \<and> (\<forall>r \<in> set df. valid_date (fst r))"
    by (simp add: df_def date_key_def valid_date_def)
  have lo: "month_index (fst (hd df)) = 24241" and hi: "month_index (fst (last df)) = 24243"
    by (simp_all add: df_def month_index_def)
  have span: "[24241 .. 24243 :: int] = [24241, 24242, 24243]"
    by (simp add: upto.simps)
  have ms: "month_start 24241 = Date 2020 2 1" "month_start 24242 = Date 2020 3 1"
    "month_start 24243 = Date 2020 4 1"
    by (simp_all add: month_start_def)
  have b: "dropna (map snd (filter (\<lambda>r. month_index (fst r) = 24241) df)) = [Fin 1, Fin 4]"
    "dropna (map snd (filter (\<lambda>r. month_index (fst r) = 24242) df)) = []"
    "dropna (map snd (filter (\<lambda>r. month_index (fst r) = 24243) df)) = [Fin 2]"
    by (simp_all add: df_def month_index_def dropna_def)
  have m: "mean [Fin 1, Fin 4] = Fin (5 / 2)" "mean [] = NaN" "mean [Fin 2] = Fin 2"
    by (simp_all add: mean_def fsum_def)
  from to_monthly_span [of "''last''" df] have a0: "to_monthly [] ''last'' = []" by (elim conjE)
  from to_monthly_span [of "''last''" df, THEN conjunct2, THEN mp, OF h, THEN conjunct1]
  have a1: "to_monthly df ''last''
       = [(Date 2020 2 1, Fin 4), (Date 2020 3 1, NaN), (Date 2020 4 1, Fin 2)]"
    unfolding lo hi span by (simp add: b ms)
  from to_monthly_span [of "''mean''" df, THEN conjunct2, THEN mp, OF h, THEN conjunct1]
  have a2: "to_monthly df ''mean''
       = [(Date 2020 2 1, Fin (5 / 2)), (Date 2020 3 1, NaN), (Date 2020 4 1, Fin 2)]"
    unfolding lo hi span by (simp add: b ms m)
  from a0 a1 a2 show ?thesis unfolding df_def by (intro conjI)
qed

text \<open>
  The claim as stated fails on a gap: with observations in January and March only, the
  result has a row for February, a month with no observation.
\<close>

theorem to_monthly_gap_row:
  "to_monthly [(Date 2020 1 15, Fin 1), (Date 2020 3 15, Fin 2)] ''last''
     = [(Date 2020 1 1, Fin 1), (Date 2020 2 1, NaN), (Date 2020 3 1, Fin 2)]"
  by (simp add: to_monthly_def resample_sorted date_key_def month_index_def month_start_def
      bucket_def dropna_def agg_last_def upto.simps)


section \<open>Year-over-year change\<close>

subsection \<open>The sorted frame\<close>

lemma month_sorted_unique:
  assumes m: "month_sorted df x" and d: "distinct (map (\<lambda>r. date_key (fst r)) df)"
  shows "x = sort_key (\<lambda>r. date_key (fst r)) df"
proof -
  define k where "k = (\<lambda>r :: date \<times> pyfloat. date_key (fst r))"
  define y where "y = sort_key k df"
  from m have sx: "set x = set df" and lx: "length x = length df" and ox: "sorted (map k x)"
    by (simp_all add: month_sorted_def k_def)
  from d have dd: "distinct df" and inj: "inj_on k (set df)"
    by (simp_all add: distinct_map k_def)
  have "card (set x) = length x"
    using sx lx distinct_card [OF dd] by simp
  then have dx: "distinct x" by (rule card_distinct)
  have dkx: "distinct (map k x)"
    using dx inj sx by (simp add: distinct_map)
  have sy: "set y = set df" and dy: "distinct y" and oy: "sorted (map k y)"
    using dd by (simp_all add: y_def)
  have dky: "distinct (map k y)"
    using dy inj sy by (simp add: distinct_map)
  have "set (map k x) = set (map k y)"
    using sx sy by simp
  with ox dkx oy dky have e: "map k x = map k y"
    by (intro sorted_distinct_set_unique)
  have "inj_on k (set x \<union> set y)"
    using inj sx sy by simp
  with e have "x = y" by (rule map_inj_on)
  then show ?thesis unfolding y_def k_def .
qed

lemma month_sorted_id:
  assumes m: "month_sorted (zip ms vs) x" and len: "length ms = length vs"
    and s: "sorted_wrt (<) (map date_key ms)"
  shows "x = zip ms vs"
proof -
  have k: "map (\<lambda>r. date_key (fst r)) (zip ms vs) = map date_key ms"
    using len by (simp add: map_fst_zip flip: map_map [unfolded comp_def])
  from s have so: "sorted (map date_key ms)" and di: "distinct (map date_key ms)"
    by (simp_all add: strict_sorted_iff)
  have "x = sort_key (\<lambda>r. date_key (fst r)) (zip ms vs)"
    by (rule month_sorted_unique [OF m]) (simp add: k di)
  also have "\<dots> = zip ms vs"
    by (rule sort_key_id_if_sorted) (simp add: k so)
  finally show ?thesis .
qed

lemma exact_month_sorted: "month_sorted df (sort_values (exact_pandas pad) df)"
  by (simp add: month_sorted_def exact_pandas_def)

subsection \<open>The change over 12 rows\<close>

lemma ffill_from_Fin: "ffill_from prev (map Fin rs) = map Fin rs"
  by (induction rs arbitrary: prev) (simp_all add: Let_def)

lemma ffill_Fin: "ffill (map Fin rs) = map Fin rs"
  by (simp add: ffill_def ffill_from_Fin)

lemma ffill_from_length: "length (ffill_from prev vs) = length vs"
  by (induction vs arbitrary: prev) (simp_all add: Let_def)

lemma ffill_length: "length (ffill vs) = length vs"
  by (simp add: ffill_def ffill_from_length)

lemma shift_length: "length (shift n vs) = length vs"
  by (simp add: shift_def)

lemma shift_nth:
  "i < length vs \<Longrightarrow> shift n vs ! i = (if i < n then NaN else vs ! (i - n))"
  by (simp add: shift_def nth_append)

lemma fdiv_NaN: "fdiv x NaN = NaN"
  by (cases x) simp_all

lemma yoy_positional:
  assumes x: "sort_values lb (zip ms vs) = zip ms vs" and len: "length ms = length vs"
  shows "yoy_from_level lb (zip ms vs)
           = filter (\<lambda>r. \<not> isnan (snd r))
               (map (\<lambda>i. (ms ! i,
                      fmul (fsub (fdiv ((if pct_pad lb then ffill vs else vs) ! i)
                                       ((if pct_pad lb then ffill vs else vs) ! (i - 12)))
                                 (Fin 1)) (Fin 100)))
                    [12 ..< length vs])"
proof -
  define n where "n = length vs"
  define data where "data = (if pct_pad lb then ffill vs else vs)"
  define h where "h = (\<lambda>i. (ms ! i, fmul (fsub (fdiv (data ! i) (data ! (i - 12))) (Fin 1)) (Fin 100)))"
  define g where "g = (\<lambda>i. if i < 12 then (ms ! i, NaN) else h i)"
  define yoy where "yoy = map (\<lambda>p. fmul p (Fin 100)) (pct_change (pct_pad lb) 12 vs)"
  have ld: "length data = n" by (simp add: data_def n_def ffill_length)
  have lm: "length ms = n" using len by (simp add: n_def)
  have f: "map fst (zip ms vs) = ms" and v: "map snd (zip ms vs) = vs"
    using len by simp_all
  have y: "yoy_from_level lb (zip ms vs) = filter (\<lambda>r. \<not> isnan (snd r)) (zip ms yoy)"
    unfolding yoy_from_level_def Let_def x f v yoy_def ..
  have pc: "pct_change (pct_pad lb) 12 vs
      = map (\<lambda>(a, b). fsub (fdiv a b) (Fin 1)) (zip data (shift 12 data))"
    by (simp add: pct_change_def Let_def data_def)
  have ly: "length yoy = n"
    unfolding yoy_def pc by (simp add: shift_length ld)
  have z: "zip ms yoy = map g [0 ..< n]"
  proof (rule nth_equalityI)
    show "length (zip ms yoy) = length (map g [0 ..< n])"
      by (simp add: ly lm)
  next
    fix i assume "i < length (zip ms yoy)"
    then have i: "i < n" by (simp add: ly lm)
    then have "yoy ! i = fmul (fsub (fdiv (data ! i) (shift 12 data ! i)) (Fin 1)) (Fin 100)"
      unfolding yoy_def pc by (simp add: shift_length ld)
    also have "shift 12 data ! i = (if i < 12 then NaN else data ! (i - 12))"
      using i by (simp add: shift_nth ld)
    finally have "yoy ! i = snd (g i)"
      by (simp add: g_def h_def fdiv_NaN fsub_def)
    moreover have "fst (g i) = ms ! i" by (simp add: g_def h_def)
    ultimately show "zip ms yoy ! i = map g [0 ..< n] ! i"
      using i by (simp add: ly lm prod_eq_iff)
  qed
  have sp: "[0 ..< n] = [0 ..< min 12 n] @ [12 ..< n]"
  proof (cases "12 \<le> n")
    case True
    then obtain d where d: "n = 12 + d" by (auto simp: le_iff_add)
    have "[0 ..< 12 + d] = [0 ..< 12] @ [12 ..< 12 + d]"
      by (rule upt_add_eq_append) simp
    then show ?thesis unfolding d by simp
  next
    case False
    then show ?thesis by simp
  qed
  have a: "filter (\<lambda>r. \<not> isnan (snd r)) (map g [0 ..< min 12 n]) = []"
    by (simp add: filter_map comp_def g_def)
  have b: "map g [12 ..< n] = map h [12 ..< n]"
    by (rule map_cong) (simp_all add: g_def)
  have "yoy_from_level lb (zip ms vs)
      = filter (\<lambda>r. \<not> isnan (snd r)) (map g ([0 ..< min 12 n] @ [12 ..< n]))"
    unfolding y z using sp by simp
  also have "\<dots> = filter (\<lambda>r. \<not> isnan (snd r)) (map h [12 ..< n])"
    unfolding map_append filter_append a b by simp
  finally show ?thesis unfolding h_def n_def data_def .
qed

lemma yoy_Fin:
  assumes x: "sort_values lb (zip ms (map Fin rs)) = zip ms (map Fin rs)"
    and len: "length ms = length rs" and nz: "0 \<notin> set rs"
  shows "yoy_from_level lb (zip ms (map Fin rs))
           = map (\<lambda>i. (ms ! i, Fin ((rs ! i / rs ! (i - 12) - 1) * 100))) [12 ..< length rs]"
proof -
  have len': "length ms = length (map Fin rs)" using len by simp
  have d: "(if pct_pad lb then ffill (map Fin rs) else map Fin rs) = map Fin rs"
    by (simp add: ffill_Fin)
  have e: "map (\<lambda>i. (ms ! i,
                fmul (fsub (fdiv (map Fin rs ! i) (map Fin rs ! (i - 12))) (Fin 1)) (Fin 100)))
             [12 ..< length rs]
      = map (\<lambda>i. (ms ! i, Fin ((rs ! i / rs ! (i - 12) - 1) * 100))) [12 ..< length rs]"
  proof (rule map_cong)
    fix i assume "i \<in> set [12 ..< length rs]"
    then have i: "i < length rs" and j: "i - 12 < length rs" by auto
    from j have "rs ! (i - 12) \<in> set rs" by simp
    with nz have "rs ! (i - 12) \<noteq> 0" by metis
    with i j show "(ms ! i,
        fmul (fsub (fdiv (map Fin rs ! i) (map Fin rs ! (i - 12))) (Fin 1)) (Fin 100))
      = (ms ! i, Fin ((rs ! i / rs ! (i - 12) - 1) * 100))"
      by (simp add: fsub_def)
  qed simp
  have "yoy_from_level lb (zip ms (map Fin rs))
      = filter (\<lambda>r. \<not> isnan (snd r))
          (map (\<lambda>i. (ms ! i,
                fmul (fsub (fdiv (map Fin rs ! i) (map Fin rs ! (i - 12))) (Fin 1)) (Fin 100)))
             [12 ..< length rs])"
    using yoy_positional [OF x len'] unfolding d by (simp only: length_map)
  also have "\<dots> = filter (\<lambda>r. \<not> isnan (snd r))
      (map (\<lambda>i. (ms ! i, Fin ((rs ! i / rs ! (i - 12) - 1) * 100))) [12 ..< length rs])"
    unfolding e ..
  also have "\<dots>
      = map (\<lambda>i. (ms ! i, Fin ((rs ! i / rs ! (i - 12) - 1) * 100))) [12 ..< length rs]"
    by (rule filter_True) auto
  finally show ?thesis .
qed

lemma month_start_strict: "i < j \<Longrightarrow> date_key (month_start i) < date_key (month_start j)"
proof -
  assume le: "i < j"
  then have d: "i div 12 \<le> j div 12" by (intro zdiv_mono1) simp_all
  have "i div 12 = j div 12 \<Longrightarrow> i mod 12 < j mod 12"
  proof -
    assume e: "i div 12 = j div 12"
    have "i = 12 * (i div 12) + i mod 12" "j = 12 * (j div 12) + j mod 12" by simp_all
    with le e show ?thesis by linarith
  qed
  with d show ?thesis by (auto simp: date_key_def month_start_def)
qed

lemma consecutive_sorted:
  "sorted_wrt (<) (map date_key (map (\<lambda>j. month_start (lo + int j)) [0 ..< n]))"
  unfolding sorted_wrt_iff_nth_less by (auto intro: month_start_strict)

lemma zip_months:
  "zip (map (\<lambda>j. month_start (lo + int j)) [0 ..< length rs]) (map Fin rs)
     = map (\<lambda>j. (month_start (lo + int j), Fin (rs ! j))) [0 ..< length rs]"
  by (rule nth_equalityI) simp_all

lemma yoy_consecutive:
  assumes m: "month_sorted
        (map (\<lambda>j. (month_start (lo + int j), Fin (rs ! j))) [0 ..< length rs])
        (sort_values lb (map (\<lambda>j. (month_start (lo + int j), Fin (rs ! j))) [0 ..< length rs]))"
    and nz: "0 \<notin> set rs"
  shows "yoy_from_level lb (map (\<lambda>j. (month_start (lo + int j), Fin (rs ! j))) [0 ..< length rs])
       = map (\<lambda>i. (month_start (lo + int i), Fin ((rs ! i / rs ! (i - 12) - 1) * 100)))
             [12 ..< length rs]"
proof -
  define ms where "ms = map (\<lambda>j. month_start (lo + int j)) [0 ..< length rs]"
  have len: "length ms = length rs" by (simp add: ms_def)
  have len': "length ms = length (map Fin rs)" by (simp add: ms_def)
  have z: "map (\<lambda>j. (month_start (lo + int j), Fin (rs ! j))) [0 ..< length rs]
      = zip ms (map Fin rs)"
    unfolding ms_def by (rule zip_months [symmetric])
  have s: "sorted_wrt (<) (map date_key ms)"
    unfolding ms_def by (rule consecutive_sorted)
  from m have m': "month_sorted (zip ms (map Fin rs)) (sort_values lb (zip ms (map Fin rs)))"
    unfolding z .
  have x: "sort_values lb (zip ms (map Fin rs)) = zip ms (map Fin rs)"
    by (rule month_sorted_id [OF m' len' s])
  have "yoy_from_level lb (zip ms (map Fin rs))
      = map (\<lambda>i. (ms ! i, Fin ((rs ! i / rs ! (i - 12) - 1) * 100))) [12 ..< length rs]"
    by (rule yoy_Fin [OF x len nz])
  also have "\<dots> = map (\<lambda>i. (month_start (lo + int i), Fin ((rs ! i / rs ! (i - 12) - 1) * 100)))
             [12 ..< length rs]"
    by (rule map_cong) (simp_all add: ms_def)
  finally show ?thesis unfolding z .
qed

lemma yoy_example:
  assumes m: "month_sorted
        (map (\<lambda>j. (month_start (24240 + int j), Fin (100 + real j))) [0 ..< 13])
        (sort_values lb (map (\<lambda>j. (month_start (24240 + int j), Fin (100 + real j))) [0 ..< 13]))"
  shows "yoy_from_level lb
           (map (\<lambda>j. (month_start (24240 + int j), Fin (100 + real j))) [0 ..< 13])
         = [(Date 2021 1 1, Fin 12)]"
proof -
  define rs where "rs = map (\<lambda>j. 100 + real j) [0 ..< 13]"
  have l: "length rs = 13" by (simp add: rs_def)
  have nz: "0 \<notin> set rs" by (auto simp: rs_def)
  have e: "map (\<lambda>j. (month_start (24240 + int j), Fin (rs ! j))) [0 ..< 13]
      = map (\<lambda>j. (month_start (24240 + int j), Fin (100 + real j))) [0 ..< 13]"
    by (rule map_cong) (simp_all add: rs_def)
  have u: "[12 ..< 13] = [12::nat]" by (simp add: upt_rec)
  have r12: "rs ! 12 = 112" and r0: "rs ! 0 = 100" by (simp_all add: rs_def)
  have mm: "month_start 24252 = Date 2021 1 1" by (simp add: month_start_def)
  from m have m': "month_sorted
        (map (\<lambda>j. (month_start (24240 + int j), Fin (rs ! j))) [0 ..< length rs])
        (sort_values lb (map (\<lambda>j. (month_start (24240 + int j), Fin (rs ! j))) [0 ..< length rs]))"
    unfolding l e .
  have "yoy_from_level lb (map (\<lambda>j. (month_start (24240 + int j), Fin (rs ! j))) [0 ..< 13])
       = map (\<lambda>i. (month_start (24240 + int i), Fin ((rs ! i / rs ! (i - 12) - 1) * 100)))
             [12 ..< 13]"
    using yoy_consecutive [OF m' nz] unfolding l .
  also have "\<dots> = [(month_start 24252, Fin 12)]"
    unfolding u by (simp add: r12 r0)
  finally show ?thesis unfolding e mm .
qed

text \<open>
  C6 (as amended). Let the library's \<^verbatim>\<open>sort_values\<close> return the rows of the frame in
  ascending month order. For a frame whose months are distinct the result does not
  depend on how the library sorts. For a frame in strictly ascending month order, with
  \<open>data\<close> the levels, every missing level first replaced by the last level before it
  that is not missing when the library pads (pandas before 3.0): the output has, in
  month order, the rows of the positions \<open>i\<close> from 12 on whose value
  \<open>(data i / data (i - 12) - 1) * 100\<close> is not NaN, with that value; the level compared
  with is the one 12 rows earlier. When the levels are present and not zero, these are
  all positions from 12 on, and the value is \<open>(level i / level (i - 12) - 1) * 100\<close>.
  When the rows are consecutive calendar months, as \<open>to_monthly\<close> builds them, the row
  12 positions earlier is the one exactly 12 calendar months earlier; 13 consecutive
  monthly levels 100, 101, ..., 112 give exactly one row, for the thirteenth month, with
  the value 12.
\<close>

theorem yoy_from_level_rows:
  "(month_sorted df (sort_values lb df) \<and> distinct (map (\<lambda>r. date_key (fst r)) df) \<longrightarrow>
      yoy_from_level lb df = yoy_from_level (exact_pandas (pct_pad lb)) df)
   \<and> (month_sorted (zip ms vs) (sort_values lb (zip ms vs)) \<and> length ms = length vs
       \<and> sorted_wrt (<) (map date_key ms) \<longrightarrow>
      yoy_from_level lb (zip ms vs)
        = filter (\<lambda>r. \<not> isnan (snd r))
            (map (\<lambda>i. (ms ! i,
                   fmul (fsub (fdiv ((if pct_pad lb then ffill vs else vs) ! i)
                                    ((if pct_pad lb then ffill vs else vs) ! (i - 12)))
                              (Fin 1)) (Fin 100)))
                 [12 ..< length vs]))
   \<and> (month_sorted (zip ms (map Fin rs)) (sort_values lb (zip ms (map Fin rs)))
       \<and> length ms = length rs \<and> sorted_wrt (<) (map date_key ms) \<and> 0 \<notin> set rs \<longrightarrow>
      yoy_from_level lb (zip ms (map Fin rs))
        = map (\<lambda>i. (ms ! i, Fin ((rs ! i / rs ! (i - 12) - 1) * 100))) [12 ..< length rs])
   \<and> (month_sorted
         (map (\<lambda>j. (month_start (lo + int j), Fin (rs ! j))) [0 ..< length rs])
         (sort_values lb (map (\<lambda>j. (month_start (lo + int j), Fin (rs ! j))) [0 ..< length rs]))
       \<and> 0 \<notin> set rs \<longrightarrow>
      yoy_from_level lb (map (\<lambda>j. (month_start (lo + int j), Fin (rs ! j))) [0 ..< length rs])
        = map (\<lambda>i. (month_start (lo + int i), Fin ((rs ! i / rs ! (i - 12) - 1) * 100)))
              [12 ..< length rs])
   \<and> (month_sorted
         (map (\<lambda>j. (month_start (24240 + int j), Fin (100 + real j))) [0 ..< 13])
         (sort_values lb (map (\<lambda>j. (month_start (24240 + int j), Fin (100 + real j))) [0 ..< 13]))
       \<longrightarrow>
      yoy_from_level lb
        (map (\<lambda>j. (month_start (24240 + int j), Fin (100 + real j))) [0 ..< 13])
        = [(Date 2021 1 1, Fin 12)])"
proof (intro conjI impI)
  assume h: "month_sorted df (sort_values lb df) \<and> distinct (map (\<lambda>r. date_key (fst r)) df)"
  then have "sort_values lb df = sort_key (\<lambda>r. date_key (fst r)) df"
    by (intro month_sorted_unique) simp_all
  then show "yoy_from_level lb df = yoy_from_level (exact_pandas (pct_pad lb)) df"
    by (simp add: yoy_from_level_def exact_pandas_def)
next
  assume h: "month_sorted (zip ms vs) (sort_values lb (zip ms vs)) \<and> length ms = length vs
       \<and> sorted_wrt (<) (map date_key ms)"
  then have x: "sort_values lb (zip ms vs) = zip ms vs"
    by (intro month_sorted_id) simp_all
  from h have len: "length ms = length vs" by simp
  show "yoy_from_level lb (zip ms vs)
        = filter (\<lambda>r. \<not> isnan (snd r))
            (map (\<lambda>i. (ms ! i,
                   fmul (fsub (fdiv ((if pct_pad lb then ffill vs else vs) ! i)
                                    ((if pct_pad lb then ffill vs else vs) ! (i - 12)))
                              (Fin 1)) (Fin 100)))
                 [12 ..< length vs])"
    by (rule yoy_positional [OF x len])
next
  assume h: "month_sorted (zip ms (map Fin rs)) (sort_values lb (zip ms (map Fin rs)))
       \<and> length ms = length rs \<and> sorted_wrt (<) (map date_key ms) \<and> 0 \<notin> set rs"
  then have x: "sort_values lb (zip ms (map Fin rs)) = zip ms (map Fin rs)"
    by (intro month_sorted_id) simp_all
  from h have len: "length ms = length rs" and nz: "0 \<notin> set rs" by simp_all
  show "yoy_from_level lb (zip ms (map Fin rs))
        = map (\<lambda>i. (ms ! i, Fin ((rs ! i / rs ! (i - 12) - 1) * 100))) [12 ..< length rs]"
    by (rule yoy_Fin [OF x len nz])
next
  assume h: "month_sorted
         (map (\<lambda>j. (month_start (lo + int j), Fin (rs ! j))) [0 ..< length rs])
         (sort_values lb (map (\<lambda>j. (month_start (lo + int j), Fin (rs ! j))) [0 ..< length rs]))
       \<and> 0 \<notin> set rs"
  then show "yoy_from_level lb
        (map (\<lambda>j. (month_start (lo + int j), Fin (rs ! j))) [0 ..< length rs])
        = map (\<lambda>i. (month_start (lo + int i), Fin ((rs ! i / rs ! (i - 12) - 1) * 100)))
              [12 ..< length rs]"
    by (intro yoy_consecutive) simp_all
next
  assume "month_sorted
         (map (\<lambda>j. (month_start (24240 + int j), Fin (100 + real j))) [0 ..< 13])
         (sort_values lb (map (\<lambda>j. (month_start (24240 + int j), Fin (100 + real j))) [0 ..< 13]))"
  then show "yoy_from_level lb
        (map (\<lambda>j. (month_start (24240 + int j), Fin (100 + real j))) [0 ..< 13])
        = [(Date 2021 1 1, Fin 12)]"
    by (rule yoy_example)
qed

theorem yoy_from_level_rows_witness:
  "yoy_from_level (exact_pandas False)
     (zip [Date 2020 1 1, Date 2020 2 1, Date 2020 3 1, Date 2020 4 1, Date 2020 5 1,
           Date 2020 6 1, Date 2020 7 1, Date 2020 8 1, Date 2020 9 1, Date 2020 10 1,
           Date 2020 11 1, Date 2020 12 1, Date 2021 2 1]
          (map Fin [100, 101, 102, 103, 104, 105, 106, 107, 108, 109, 110, 111, 112]))
     = [(Date 2021 2 1, Fin 12)]
   \<and> yoy_from_level (exact_pandas True)
        (map (\<lambda>j. (month_start (24240 + int j),
                    Fin ([100, 101, 102, 103, 104, 105, 106, 107, 108, 109, 110, 111, 112] ! j)))
             [0 ..< length [100, 101, 102, 103, 104, 105, 106, 107, 108, 109, 110, 111, 112 :: real]])
     = [(Date 2021 1 1, Fin 12)]
   \<and> yoy_from_level (exact_pandas False)
        (zip (map (\<lambda>j. month_start (24240 + int j)) [0 ..< 14])
             [Fin 100, NaN, Fin 102, Fin 103, Fin 104, Fin 105, Fin 106, Fin 107, Fin 108,
              Fin 109, Fin 110, Fin 111, Fin 112, Fin 113])
     = [(Date 2021 1 1, Fin 12)]
   \<and> yoy_from_level (exact_pandas True)
        (zip (map (\<lambda>j. month_start (24240 + int j)) [0 ..< 14])
             [Fin 100, NaN, Fin 102, Fin 103, Fin 104, Fin 105, Fin 106, Fin 107, Fin 108,
              Fin 109, Fin 110, Fin 111, Fin 112, Fin 113])
     = [(Date 2021 1 1, Fin 12), (Date 2021 2 1, Fin 13)]
   \<and> yoy_from_level \<lparr>pct_pad = False, sort_values = rev, series_mean = mean, series_std = std0\<rparr>
        [(Date 2020 2 1, Fin 1), (Date 2020 1 1, Fin 2)]
     = yoy_from_level (exact_pandas False) [(Date 2020 2 1, Fin 1), (Date 2020 1 1, Fin 2)]
   \<and> yoy_from_level (exact_pandas False)
        (map (\<lambda>j. (month_start (24240 + int j), Fin (100 + real j))) [0 ..< 13])
     = [(Date 2021 1 1, Fin 12)]"
proof -
  define ms where "ms = [Date 2020 1 1, Date 2020 2 1, Date 2020 3 1, Date 2020 4 1,
           Date 2020 5 1, Date 2020 6 1, Date 2020 7 1, Date 2020 8 1, Date 2020 9 1,
           Date 2020 10 1, Date 2020 11 1, Date 2020 12 1, Date 2021 2 1]"
  define rs where "rs = [100, 101, 102, 103, 104, 105, 106, 107, 108, 109, 110, 111, 112 :: real]"
  define ns where "ns = map (\<lambda>j. month_start (24240 + int j)) [0 ..< 14]"
  define vs where "vs = [Fin 100, NaN, Fin 102, Fin 103, Fin 104, Fin 105, Fin 106, Fin 107,
      Fin 108, Fin 109, Fin 110, Fin 111, Fin 112, Fin 113]"
  define lr where "lr = \<lparr>pct_pad = False, sort_values = (rev :: frame \<Rightarrow> frame),
      series_mean = mean, series_std = std0\<rparr>"
  define df where "df = [(Date 2020 2 1, Fin 1), (Date 2020 1 1, Fin 2)]"
  define ex where "ex = map (\<lambda>j. (month_start (24240 + int j), Fin (100 + real j))) [0 ..< 13]"
  have l: "length rs = 13" by (simp add: rs_def)
  have h1: "month_sorted (zip ms (map Fin rs)) (sort_values (exact_pandas False) (zip ms (map Fin rs)))
      \<and> length ms = length rs \<and> sorted_wrt (<) (map date_key ms) \<and> 0 \<notin> set rs"
    by (simp add: exact_month_sorted) (simp add: ms_def rs_def date_key_def)
  have h2: "month_sorted
         (map (\<lambda>j. (month_start (24240 + int j), Fin (rs ! j))) [0 ..< length rs])
         (sort_values (exact_pandas True)
            (map (\<lambda>j. (month_start (24240 + int j), Fin (rs ! j))) [0 ..< length rs]))
       \<and> 0 \<notin> set rs"
    by (simp add: exact_month_sorted) (simp add: rs_def)
  have u: "[12 ..< 13] = [12::nat]" by (simp add: upt_rec)
  have u2: "[12 ..< 14] = [12::nat, 13]" by (simp add: upt_rec)
  have v: "rs ! 12 = 112" "rs ! 0 = 100" "ms ! 12 = Date 2021 2 1"
    by (simp_all add: rs_def ms_def)
  note t1 = yoy_from_level_rows [of "[]" "exact_pandas False" ms "[]" rs 0,
      THEN conjunct2, THEN conjunct2, THEN conjunct1, THEN mp, OF h1]
  note t2 = yoy_from_level_rows [of "[]" "exact_pandas True" "[]" "[]" rs 24240,
      THEN conjunct2, THEN conjunct2, THEN conjunct2, THEN conjunct1, THEN mp, OF h2]
  have a: "yoy_from_level (exact_pandas False) (zip ms (map Fin rs)) = [(Date 2021 2 1, Fin 12)]"
    unfolding t1 l u by (simp add: v)
  have b: "yoy_from_level (exact_pandas True)
        (map (\<lambda>j. (month_start (24240 + int j), Fin (rs ! j))) [0 ..< length rs])
     = [(Date 2021 1 1, Fin 12)]"
    unfolding t2 unfolding l u by (simp add: v month_start_def)
  have lv: "length vs = 14" by (simp add: vs_def)
  have ln: "length ns = length vs" by (simp add: ns_def vs_def)
  have sn: "sorted_wrt (<) (map date_key ns)"
    unfolding ns_def by (rule consecutive_sorted)
  have n12: "ns ! 12 = Date 2021 1 1" "ns ! 13 = Date 2021 2 1"
    by (simp_all add: ns_def month_start_def)
  have h3: "month_sorted (zip ns vs) (sort_values (exact_pandas False) (zip ns vs))
      \<and> length ns = length vs \<and> sorted_wrt (<) (map date_key ns)"
    using ln sn by (simp add: exact_month_sorted)
  have h4: "month_sorted (zip ns vs) (sort_values (exact_pandas True) (zip ns vs))
      \<and> length ns = length vs \<and> sorted_wrt (<) (map date_key ns)"
    using ln sn by (simp add: exact_month_sorted)
  note t3 = yoy_from_level_rows [of "[]" "exact_pandas False" ns vs "[]" 0,
      THEN conjunct2, THEN conjunct1, THEN mp, OF h3]
  note t4 = yoy_from_level_rows [of "[]" "exact_pandas True" ns vs "[]" 0,
      THEN conjunct2, THEN conjunct1, THEN mp, OF h4]
  have pf: "pct_pad (exact_pandas False) = False" and pt: "pct_pad (exact_pandas True) = True"
    by (simp_all add: exact_pandas_def)
  have c: "yoy_from_level (exact_pandas False) (zip ns vs) = [(Date 2021 1 1, Fin 12)]"
    unfolding t3 lv u2 pf n12 by (simp add: n12 vs_def fsub_def)
  have fv: "ffill vs = [Fin 100, Fin 100, Fin 102, Fin 103, Fin 104, Fin 105, Fin 106, Fin 107,
      Fin 108, Fin 109, Fin 110, Fin 111, Fin 112, Fin 113]"
    by (simp add: vs_def ffill_def Let_def)
  have d: "yoy_from_level (exact_pandas True) (zip ns vs)
      = [(Date 2021 1 1, Fin 12), (Date 2021 2 1, Fin 13)]"
    unfolding t4 lv u2 pt by (simp add: n12 fv fsub_def)
  have h5: "month_sorted df (sort_values lr df) \<and> distinct (map (\<lambda>r. date_key (fst r)) df)"
    by (simp add: month_sorted_def lr_def df_def date_key_def) auto
  have plr: "pct_pad lr = False" by (simp add: lr_def)
  have e: "yoy_from_level lr df = yoy_from_level (exact_pandas False) df"
    using yoy_from_level_rows [of df lr "[]" "[]" "[]" 0, THEN conjunct1, THEN mp, OF h5]
    unfolding plr .
  have h6: "month_sorted ex (sort_values (exact_pandas False) ex)"
    by (rule exact_month_sorted)
  have g: "yoy_from_level (exact_pandas False) ex = [(Date 2021 1 1, Fin 12)]"
    using yoy_from_level_rows [of "[]" "exact_pandas False" "[]" "[]" "[]" 0,
      THEN conjunct2, THEN conjunct2, THEN conjunct2, THEN conjunct2, THEN mp,
      OF h6 [unfolded ex_def]]
    unfolding ex_def .
  from a b c d e g show ?thesis
    unfolding ms_def rs_def ns_def vs_def lr_def df_def ex_def by (intro conjI)
qed

text \<open>
  The claim as stated fails in three ways. The predecessor is the row 12 positions
  earlier, not the observation 12 calendar months earlier: of the two rows January 2020
  and January 2021 the second has an observation exactly 12 calendar months before it,
  yet the output is empty, with and without padding. A month need not have an
  observation to get a row: of 13 consecutive months with the levels 100 to 111 and no
  level for the thirteenth, a library that pads gives the thirteenth month a row, with
  the value 11 computed from the level of the twelfth month, and a library that does not
  pad gives no row. And a level of zero 12 months earlier gives no row when the level
  is zero too, and a row with an infinite value when it is not.
\<close>

theorem yoy_from_level_gap:
  "yoy_from_level (exact_pandas True) [(Date 2020 1 1, Fin 100), (Date 2021 1 1, Fin 112)] = []
   \<and> yoy_from_level (exact_pandas False) [(Date 2020 1 1, Fin 100), (Date 2021 1 1, Fin 112)] = []
   \<and> month_index (Date 2021 1 1) - 12 = month_index (Date 2020 1 1)
   \<and> yoy_from_level (exact_pandas True)
        (zip (map (\<lambda>j. month_start (24240 + int j)) [0 ..< 13])
             [Fin 100, Fin 101, Fin 102, Fin 103, Fin 104, Fin 105, Fin 106, Fin 107, Fin 108,
              Fin 109, Fin 110, Fin 111, NaN])
     = [(Date 2021 1 1, Fin 11)]
   \<and> yoy_from_level (exact_pandas False)
        (zip (map (\<lambda>j. month_start (24240 + int j)) [0 ..< 13])
             [Fin 100, Fin 101, Fin 102, Fin 103, Fin 104, Fin 105, Fin 106, Fin 107, Fin 108,
              Fin 109, Fin 110, Fin 111, NaN])
     = []
   \<and> yoy_from_level (exact_pandas True)
        (zip (map (\<lambda>j. month_start (24240 + int j)) [0 ..< 13])
             [Fin 0, Fin 1, Fin 1, Fin 1, Fin 1, Fin 1, Fin 1, Fin 1, Fin 1, Fin 1, Fin 1, Fin 1,
              Fin 0])
     = []
   \<and> yoy_from_level (exact_pandas False)
        (zip (map (\<lambda>j. month_start (24240 + int j)) [0 ..< 13])
             [Fin 0, Fin 1, Fin 1, Fin 1, Fin 1, Fin 1, Fin 1, Fin 1, Fin 1, Fin 1, Fin 1, Fin 1,
              Fin 0])
     = []
   \<and> yoy_from_level (exact_pandas False)
        (zip (map (\<lambda>j. month_start (24240 + int j)) [0 ..< 13])
             [Fin 0, Fin 1, Fin 1, Fin 1, Fin 1, Fin 1, Fin 1, Fin 1, Fin 1, Fin 1, Fin 1, Fin 1,
              Fin 112])
     = [(Date 2021 1 1, PInf)]"
proof -
  define ns where "ns = map (\<lambda>j. month_start (24240 + int j)) [0 ..< 13]"
  define v1 where "v1 = [Fin 100, Fin 101, Fin 102, Fin 103, Fin 104, Fin 105, Fin 106, Fin 107,
      Fin 108, Fin 109, Fin 110, Fin 111, NaN]"
  define v2 where "v2 = [Fin 0, Fin 1, Fin 1, Fin 1, Fin 1, Fin 1, Fin 1, Fin 1, Fin 1, Fin 1,
      Fin 1, Fin 1, Fin 0]"
  define v3 where "v3 = [Fin 0, Fin 1, Fin 1, Fin 1, Fin 1, Fin 1, Fin 1, Fin 1, Fin 1, Fin 1,
      Fin 1, Fin 1, Fin 112]"
  have a: "yoy_from_level (exact_pandas True)
      [(Date 2020 1 1, Fin 100), (Date 2021 1 1, Fin 112)] = []"
    "yoy_from_level (exact_pandas False)
      [(Date 2020 1 1, Fin 100), (Date 2021 1 1, Fin 112)] = []"
    "month_index (Date 2021 1 1) - 12 = month_index (Date 2020 1 1)"
    by (simp_all add: yoy_from_level_def exact_pandas_def pct_change_def shift_def ffill_def
        date_key_def fsub_def month_index_def)
  have sn: "sorted_wrt (<) (map date_key ns)"
    unfolding ns_def by (rule consecutive_sorted)
  have n12: "ns ! 12 = Date 2021 1 1" by (simp add: ns_def month_start_def)
  have u: "[12 ..< 13] = [12::nat]" by (simp add: upt_rec)
  have pf: "pct_pad (exact_pandas False) = False" and pt: "pct_pad (exact_pandas True) = True"
    by (simp_all add: exact_pandas_def)
  have l1: "length ns = length v1" "length v1 = 13" by (simp_all add: ns_def v1_def)
  have l2: "length ns = length v2" "length v2 = 13" by (simp_all add: ns_def v2_def)
  have l3: "length ns = length v3" "length v3 = 13" by (simp_all add: ns_def v3_def)
  have x1: "sort_values (exact_pandas pad) (zip ns v1) = zip ns v1" for pad
    by (rule month_sorted_id [OF exact_month_sorted l1(1) sn])
  have x2: "sort_values (exact_pandas pad) (zip ns v2) = zip ns v2" for pad
    by (rule month_sorted_id [OF exact_month_sorted l2(1) sn])
  have x3: "sort_values (exact_pandas pad) (zip ns v3) = zip ns v3" for pad
    by (rule month_sorted_id [OF exact_month_sorted l3(1) sn])
  have f1: "ffill v1 = [Fin 100, Fin 101, Fin 102, Fin 103, Fin 104, Fin 105, Fin 106, Fin 107,
      Fin 108, Fin 109, Fin 110, Fin 111, Fin 111]"
    by (simp add: v1_def ffill_def Let_def)
  have f2: "ffill v2 = v2"
    by (simp add: v2_def ffill_def Let_def)
  have b: "yoy_from_level (exact_pandas True) (zip ns v1) = [(Date 2021 1 1, Fin 11)]"
    unfolding yoy_positional [OF x1 l1(1)] l1(2) u pt by (simp add: n12 f1 fsub_def)
  have c: "yoy_from_level (exact_pandas False) (zip ns v1) = []"
    unfolding yoy_positional [OF x1 l1(1)] l1(2) u pf by (simp add: v1_def fsub_def)
  have d: "yoy_from_level (exact_pandas True) (zip ns v2) = []"
    unfolding yoy_positional [OF x2 l2(1)] l2(2) u pt f2 by (simp add: v2_def fsub_def)
  have e: "yoy_from_level (exact_pandas False) (zip ns v2) = []"
    unfolding yoy_positional [OF x2 l2(1)] l2(2) u pf by (simp add: v2_def fsub_def)
  have g: "yoy_from_level (exact_pandas False) (zip ns v3) = [(Date 2021 1 1, PInf)]"
    unfolding yoy_positional [OF x3 l3(1)] l3(2) u pf
    by (simp add: n12 v3_def fsub_def scale_inf_def)
  from a b c d e g show ?thesis
    unfolding ns_def v1_def v2_def v3_def by (intro conjI)
qed

end
